theory Spec2Isabelle
  imports Complex_Main "HOL-Library.Log_Nat"
begin

chapter \<open>TNetworkedSimulationModel (NetworkSimulationModel.h)\<close>

text \<open>
  A shallow embedding of the class template \<open>TNetworkedSimulationModel\<close>. The members of
  the class fall into three groups that no method mixes, and each group is modelled by a
  state of its own:
  \<^item> the two floats that pace the server RPC (lines 433-453);
  \<^item> the parent link and the dependents list, which live in the simulated and the
    autonomous replication proxy (lines 359-412);
  \<^item> the driver, the tick state, the buffers and the replication proxies, on which
    \<open>Tick\<close>, \<open>Reconcile\<close>, \<open>InitializeForNetworkRole\<close>, \<open>NetSerializeProxy\<close> and
    \<open>GetProxyDirtyCount\<close> work (lines 75-350).

  A failed \<open>check\<close>, a write through a null pointer and a call through a pointer to a
  destroyed object end the program; they are the \<open>Inl\<close> results of the model.
\<close>

section \<open>Enumerations and failures\<close>

text \<open>
  \<open>ENetRole\<close> and \<open>EReplicationProxyTarget\<close> are declared outside this header; their
  values are the ones the switch statements of the header name.
\<close>

datatype ENetRole = ROLE_Authority | ROLE_AutonomousProxy | ROLE_SimulatedProxy

datatype EReplicationProxyTarget =
  ServerRPC | AutonomousProxy | SimulatedProxy | Replay | Debug

datatype check_id =
    Check_DependentNotContained
  | Check_PrevSyncState
  | Check_NextSyncState
  | Check_SyncHeadKeyframe
  | Check_UnknownTarget EReplicationProxyTarget

datatype failure = CheckFailed check_id | NullPointerDereference | InvalidPointer

section \<open>Binary32 arithmetic\<close>

text \<open>
  The C++ type \<open>float\<close> is the IEEE 754 format binary32. A value is a finite number, a
  negative zero, an infinity or a NaN: \<open>Finite x\<close> is the number \<open>x\<close> (\<open>Finite 0\<close> the
  positive zero) and \<open>Infinity True\<close> the negative infinity. The finite numbers of the
  format are the multiples of \<open>2 ^ - 149\<close> with a significand of at most 24 bits and a
  magnitude below \<open>2 ^ 128\<close>. Each operation yields the exact result rounded to the
  nearest such number, a tie going to the even significand: the header is taken to be
  compiled with float expressions evaluated in float precision.

  The header computes with floats in lines 433-453 only. The times in seconds that \<open>Tick\<close>
  handles (lines 99, 200 and 245) are copied, or converted by functions declared outside
  the header, and appear below as the real numbers they stand for.
\<close>

datatype float32 = Finite real | NegativeZero | Infinity bool | NaN

text \<open>
  The integer nearest to \<open>y\<close>, the even one when two are equally near.
\<close>

definition round_half_even :: "real \<Rightarrow> int" where
  "round_half_even y =
     (let n = \<lfloor>y\<rfloor>; r = y - of_int n
      in if r < 1 / 2 then n
         else if 1 / 2 < r then n + 1
         else if even n then n else n + 1)"

text \<open>
  The binary32 magnitude nearest to \<open>x \<ge> 0\<close>. With \<open>y\<close> the magnitude in units of
  \<open>2 ^ - 149\<close> and \<open>bitlen \<lfloor>y\<rfloor>\<close> the number of bits of its integer part, the
  neighbouring binary32 numbers are \<open>2 ^ e\<close> units apart, where \<open>e\<close> is the number of
  bits beyond 24 (none for the subnormal numbers and the first binade of the normal
  ones). The result may be \<open>2 ^ 128\<close>, one step beyond the largest finite number.
\<close>

definition round_magnitude :: "real \<Rightarrow> real" where
  "round_magnitude x =
     (let y = x * 2 ^ 149;
          e = nat (bitlen \<lfloor>y\<rfloor> - 24)
      in of_int (round_half_even (y / 2 ^ e)) * 2 ^ e / 2 ^ 149)"

text \<open>
  Rounding of an exact result \<open>x\<close>: the sign of \<open>x\<close> with the rounded magnitude, an
  infinity when the magnitude rounds to \<open>2 ^ 128\<close>, a zero of the sign of \<open>x\<close> when it
  rounds to zero.
\<close>

definition round32 :: "real \<Rightarrow> float32" where
  "round32 x =
     (let m = round_magnitude \<bar>x\<bar>
      in if 2 ^ 128 \<le> m then Infinity (x < 0)
         else if m = 0 then (if x < 0 then NegativeZero else Finite 0)
         else Finite (if x < 0 then - m else m))"

text \<open>
  The sign bit, and the number that a finite value or a zero stands for (\<open>valof\<close> is
  used for these only).
\<close>

fun float_sign :: "float32 \<Rightarrow> bool" where
  "float_sign (Finite x) = (x < 0)"
| "float_sign NegativeZero = True"
| "float_sign (Infinity s) = s"
| "float_sign NaN = False"

fun valof :: "float32 \<Rightarrow> real" where
  "valof (Finite x) = x"
| "valof NegativeZero = 0"
| "valof (Infinity s) = 0"
| "valof NaN = 0"

text \<open>
  Negation flips the sign bit.
\<close>

fun float_neg :: "float32 \<Rightarrow> float32" where
  "float_neg (Finite x) = (if x = 0 then NegativeZero else Finite (- x))"
| "float_neg NegativeZero = Finite 0"
| "float_neg (Infinity s) = Infinity (\<not> s)"
| "float_neg NaN = NaN"

text \<open>
  Addition and subtraction (the operators of lines 438 and 441). Infinities of opposite
  sign add to a NaN; an exact sum of zero is the positive zero unless both operands are
  the negative zero; any other sum is rounded. \<open>a - b\<close> is \<open>a + (- b)\<close>.
\<close>

fun float_add :: "float32 \<Rightarrow> float32 \<Rightarrow> float32" where
  "float_add NaN b = NaN"
| "float_add a NaN = NaN"
| "float_add (Infinity s) (Infinity t) = (if s = t then Infinity s else NaN)"
| "float_add (Infinity s) b = Infinity s"
| "float_add a (Infinity t) = Infinity t"
| "float_add NegativeZero NegativeZero = NegativeZero"
| "float_add a b = (let x = valof a + valof b in if x = 0 then Finite 0 else round32 x)"

definition float_sub :: "float32 \<Rightarrow> float32 \<Rightarrow> float32" where
  "float_sub a b = float_add a (float_neg b)"

text \<open>
  The zero of a given sign bit.
\<close>

definition signed_zero :: "bool \<Rightarrow> float32" where
  "signed_zero s = (if s then NegativeZero else Finite 0)"

text \<open>
  Division (the operator of lines 433 and 453). A zero divisor yields an infinity, or a
  NaN for a zero dividend; an infinite divisor yields a zero; the sign is the exclusive
  or of the signs.
\<close>

fun float_div :: "float32 \<Rightarrow> float32 \<Rightarrow> float32" where
  "float_div NaN b = NaN"
| "float_div a NaN = NaN"
| "float_div (Infinity s) (Infinity t) = NaN"
| "float_div (Infinity s) b = Infinity (s \<noteq> float_sign b)"
| "float_div a (Infinity t) = signed_zero (float_sign a \<noteq> t)"
| "float_div a b =
     (if valof b = 0 then (if valof a = 0 then NaN else Infinity (float_sign a \<noteq> float_sign b))
      else if valof a = 0 then signed_zero (float_sign a \<noteq> float_sign b)
      else round32 (valof a / valof b))"

text \<open>
  The comparisons \<open><=\<close> and \<open>>=\<close> (line 439): false when an operand is a NaN, the
  two zeros equal.
\<close>

fun float_le :: "float32 \<Rightarrow> float32 \<Rightarrow> bool" where
  "float_le NaN b = False"
| "float_le a NaN = False"
| "float_le (Infinity s) (Infinity t) = (s \<or> \<not> t)"
| "float_le (Infinity s) b = s"
| "float_le a (Infinity t) = (\<not> t)"
| "float_le a b = (valof a \<le> valof b)"

definition float_ge :: "float32 \<Rightarrow> float32 \<Rightarrow> bool" where
  "float_ge a b = float_le b a"

section \<open>Server RPC pacing\<close>

text \<open>
  Modelled from the spec: \<open>FMath::Min\<close> is declared outside this header; it caps its
  first argument at the second (the second is also the result when a NaN is compared).
\<close>

definition FMath_Min :: "float32 \<Rightarrow> float32 \<Rightarrow> float32" where
  "FMath_Min A B = (if float_le A B then A else B)"

text \<open>
  The two private members of \<open>TNetworkedSimulationModel\<close> that pace the server RPC
  (NetworkSimulationModel.h, lines 433-453), both of type \<open>float\<close>.
\<close>

record ServerRPCPacer =
  ServerRPCAccumulatedTimeSeconds :: float32
  ServerRPCThresholdTimeSeconds :: float32

text \<open>
  The member initialisers of lines 452-453: \<open>0.f\<close> and \<open>1.f / 999.f\<close>.
\<close>

definition ServerRPCPacer_default :: ServerRPCPacer where
  "ServerRPCPacer_default =
     \<lparr>ServerRPCAccumulatedTimeSeconds = Finite 0,
      ServerRPCThresholdTimeSeconds = float_div (Finite 1) (Finite 999)\<rparr>"

text \<open>
  Line 433: the threshold becomes \<open>1.f / DesiredHz\<close>, whatever \<open>DesiredHz\<close> is.
\<close>

definition SetDesiredServerRPCSendFrequency :: "float32 \<Rightarrow> ServerRPCPacer \<Rightarrow> ServerRPCPacer" where
  "SetDesiredServerRPCSendFrequency DesiredHz p =
     p\<lparr>ServerRPCThresholdTimeSeconds := float_div (Finite 1) DesiredHz\<rparr>"

text \<open>
  Lines 434-446. The local \<open>CappedDeltaTimeSeconds\<close> is computed and never read: the
  accumulator receives \<open>DeltaTimeSeconds\<close> itself.
\<close>

definition ShouldSendServerRPC :: "float32 \<Rightarrow> ServerRPCPacer \<Rightarrow> bool \<times> ServerRPCPacer" where
  "ShouldSendServerRPC DeltaTimeSeconds p =
     (let CappedDeltaTimeSeconds = FMath_Min DeltaTimeSeconds (ServerRPCThresholdTimeSeconds p);
          p1 = p\<lparr>ServerRPCAccumulatedTimeSeconds :=
                    float_add (ServerRPCAccumulatedTimeSeconds p) DeltaTimeSeconds\<rparr>
      in if float_ge (ServerRPCAccumulatedTimeSeconds p1) (ServerRPCThresholdTimeSeconds p1)
         then (True, p1\<lparr>ServerRPCAccumulatedTimeSeconds :=
                           float_sub (ServerRPCAccumulatedTimeSeconds p1) (ServerRPCThresholdTimeSeconds p1)\<rparr>)
         else (False, p1))"




section \<open>Dependent simulations\<close>

text \<open>
  Simulation objects live in a store that maps an address to the link members of the
  object at that address; an address that maps to \<open>None\<close> holds no object (\<open>nullptr\<close>
  is the \<open>None\<close> of \<open>sim_ref option\<close>). \<open>ParentSimulation\<close> is a member of the simulated
  proxy, \<open>DependentSimulations\<close> and \<open>bDependentSimulationNeedsReconcile\<close> are members
  of the autonomous proxy; the proxy classes are not in this header, and a new object
  is taken to start with no parent, no dependents and the flag cleared. Every object
  in the store is an instance of \<open>TNetworkedSimulationModel\<close>, so the virtual calls
  through \<open>INetworkSimulationModel*\<close> reach the methods below. A call through an address
  that holds no object is \<open>InvalidPointer\<close>.
\<close>

type_synonym sim_ref = nat

record DependentLinks =
  ParentSimulation :: "sim_ref option"
  DependentSimulations :: "sim_ref list"
  bDependentSimulationNeedsReconcile :: bool

type_synonym sim_heap = "sim_ref \<Rightarrow> DependentLinks option"

definition DependentLinks_default :: DependentLinks where
  "DependentLinks_default =
     \<lparr>ParentSimulation = None, DependentSimulations = [],
      bDependentSimulationNeedsReconcile = False\<rparr>"

text \<open>Lines 390-393.\<close>

definition NotifyDependentSimNeedsReconcile :: "DependentLinks \<Rightarrow> DependentLinks" where
  "NotifyDependentSimNeedsReconcile l = l\<lparr>bDependentSimulationNeedsReconcile := True\<rparr>"

text \<open>Lines 378-383: the \<open>check\<close> that the simulation is not yet a dependent, \<open>TArray::Add\<close>, and
  the forced reconcile.\<close>

definition AddDepdentSimulation :: "sim_ref \<Rightarrow> sim_ref \<Rightarrow> sim_heap \<Rightarrow> failure + sim_heap" where
  "AddDepdentSimulation this Simulation h =
     (case h this of
        None \<Rightarrow> Inl InvalidPointer
      | Some l \<Rightarrow>
          if Simulation \<in> set (DependentSimulations l) then Inl (CheckFailed Check_DependentNotContained)
          else Inr (h(this \<mapsto> NotifyDependentSimNeedsReconcile
                       (l\<lparr>DependentSimulations := DependentSimulations l @ [Simulation]\<rparr>))))"

text \<open>Lines 385-388: \<open>TArray::Remove\<close> removes every occurrence of the item.\<close>

definition RemoveDependentSimulation :: "sim_ref \<Rightarrow> sim_ref \<Rightarrow> sim_heap \<Rightarrow> failure + sim_heap" where
  "RemoveDependentSimulation this Simulation h =
     (case h this of
        None \<Rightarrow> Inl InvalidPointer
      | Some l \<Rightarrow>
          Inr (h(this \<mapsto> l\<lparr>DependentSimulations := removeAll Simulation (DependentSimulations l)\<rparr>)))"

text \<open>
  Lines 359-371. The object is read again after the call to the old parent, which may be
  the object itself.
\<close>

definition SetParentSimulation :: "sim_ref \<Rightarrow> sim_ref option \<Rightarrow> sim_heap \<Rightarrow> failure + sim_heap" where
  "SetParentSimulation this Simulation h =
     (case h this of
        None \<Rightarrow> Inl InvalidPointer
      | Some l \<Rightarrow>
          (case (case ParentSimulation l of
                   None \<Rightarrow> Inr h
                 | Some old \<Rightarrow> RemoveDependentSimulation old this h) of
             Inl e \<Rightarrow> Inl e
           | Inr h1 \<Rightarrow>
               (case h1 this of
                  None \<Rightarrow> Inl InvalidPointer
                | Some l1 \<Rightarrow>
                    (let h2 = h1(this \<mapsto> l1\<lparr>ParentSimulation := Simulation\<rparr>)
                     in case Simulation of
                          None \<Rightarrow> Inr h2
                        | Some p \<Rightarrow> AddDepdentSimulation p this h2))))"

text \<open>
  Lines 405-412: the list is moved into a local (the member is left empty) and every
  former dependent is told to drop its parent.
\<close>

fun ClearAllDependentSimulations_loop :: "sim_ref list \<Rightarrow> sim_heap \<Rightarrow> failure + sim_heap" where
  "ClearAllDependentSimulations_loop [] h = Inr h"
| "ClearAllDependentSimulations_loop (DependentSim # rest) h =
     (case SetParentSimulation DependentSim None h of
        Inl e \<Rightarrow> Inl e
      | Inr h1 \<Rightarrow> ClearAllDependentSimulations_loop rest h1)"

definition ClearAllDependentSimulations :: "sim_ref \<Rightarrow> sim_heap \<Rightarrow> failure + sim_heap" where
  "ClearAllDependentSimulations this h =
     (case h this of
        None \<Rightarrow> Inl InvalidPointer
      | Some l \<Rightarrow>
          (let LocalList = DependentSimulations l;
               h1 = h(this \<mapsto> l\<lparr>DependentSimulations := []\<rparr>)
           in ClearAllDependentSimulations_loop LocalList h1))"

text \<open>
  The constructor (lines 65-68) touches no link; it brings an object into being at an
  address that holds none. The destructor (lines 69-73) unlinks the object from its parent
  and from its dependents, after which the address holds no object.
\<close>

definition Construct :: "sim_ref \<Rightarrow> sim_heap \<Rightarrow> failure + sim_heap" where
  "Construct this h =
     (case h this of
        None \<Rightarrow> Inr (h(this \<mapsto> DependentLinks_default))
      | Some l \<Rightarrow> Inl InvalidPointer)"

definition Destruct :: "sim_ref \<Rightarrow> sim_heap \<Rightarrow> failure + sim_heap" where
  "Destruct this h =
     (case SetParentSimulation this None h of
        Inl e \<Rightarrow> Inl e
      | Inr h1 \<Rightarrow>
          (case ClearAllDependentSimulations this h1 of
             Inl e \<Rightarrow> Inl e
           | Inr h2 \<Rightarrow> Inr (h2(this := None))))"

text \<open>The calls a client can make on the objects of a store, and their effect in sequence.\<close>

datatype link_call =
    Call_Construct sim_ref
  | Call_SetParentSimulation sim_ref "sim_ref option"
  | Call_AddDepdentSimulation sim_ref sim_ref
  | Call_RemoveDependentSimulation sim_ref sim_ref
  | Call_ClearAllDependentSimulations sim_ref
  | Call_Destruct sim_ref

fun link_call_step :: "link_call \<Rightarrow> sim_heap \<Rightarrow> failure + sim_heap" where
  "link_call_step (Call_Construct s) h = Construct s h"
| "link_call_step (Call_SetParentSimulation s p) h = SetParentSimulation s p h"
| "link_call_step (Call_AddDepdentSimulation s d) h = AddDepdentSimulation s d h"
| "link_call_step (Call_RemoveDependentSimulation s d) h = RemoveDependentSimulation s d h"
| "link_call_step (Call_ClearAllDependentSimulations s) h = ClearAllDependentSimulations s h"
| "link_call_step (Call_Destruct s) h = Destruct s h"

fun link_calls :: "link_call list \<Rightarrow> sim_heap \<Rightarrow> failure + sim_heap" where
  "link_calls [] h = Inr h"
| "link_calls (c # cs) h =
     (case link_call_step c h of Inl e \<Rightarrow> Inl e | Inr h1 \<Rightarrow> link_calls cs h1)"

text \<open>
  The graph of the store: the parent of an object, its dependents, and the relation that
  holds between a simulation and its parent.
\<close>

definition parent_of :: "sim_heap \<Rightarrow> sim_ref \<Rightarrow> sim_ref option" where
  "parent_of h s = (case h s of None \<Rightarrow> None | Some l \<Rightarrow> ParentSimulation l)"

definition dependents_of :: "sim_heap \<Rightarrow> sim_ref \<Rightarrow> sim_ref list" where
  "dependents_of h p = (case h p of None \<Rightarrow> [] | Some l \<Rightarrow> DependentSimulations l)"

definition parent_links :: "sim_heap \<Rightarrow> (sim_ref \<times> sim_ref) set" where
  "parent_links h = {(s, p). parent_of h s = Some p}"

text \<open>
  A store is symmetric when a simulation is in the dependents list of exactly the object
  its parent link names, once.
\<close>

definition links_symmetric :: "sim_heap \<Rightarrow> bool" where
  "links_symmetric h =
     ((\<forall>s p. (s \<in> set (dependents_of h p)) = (parent_of h s = Some p))
      \<and> (\<forall>p. distinct (dependents_of h p)))"

text \<open>
  \<open>call_live\<close>: the call is on an object that exists (a constructor, on an address that
  holds none), names an existing object as the new parent, and is not a direct call of
  \<open>AddDepdentSimulation\<close> or \<open>RemoveDependentSimulation\<close>, which \<open>SetParentSimulation\<close>
  makes on the caller's behalf. \<open>call_keeps_tree\<close>: a new parent is neither the
  simulation itself nor one that has it among its ancestors. \<open>calls_ok\<close> asks the
  condition of every call of a sequence, in the store the call finds.
\<close>

fun call_live :: "sim_heap \<Rightarrow> link_call \<Rightarrow> bool" where
  "call_live h (Call_Construct s) = (h s = None)"
| "call_live h (Call_SetParentSimulation s None) = (h s \<noteq> None)"
| "call_live h (Call_SetParentSimulation s (Some p)) = (h s \<noteq> None \<and> h p \<noteq> None)"
| "call_live h (Call_AddDepdentSimulation s d) = False"
| "call_live h (Call_RemoveDependentSimulation s d) = False"
| "call_live h (Call_ClearAllDependentSimulations s) = (h s \<noteq> None)"
| "call_live h (Call_Destruct s) = (h s \<noteq> None)"

fun call_keeps_tree :: "sim_heap \<Rightarrow> link_call \<Rightarrow> bool" where
  "call_keeps_tree h (Call_SetParentSimulation s (Some p)) = ((p, s) \<notin> (parent_links h)\<^sup>*)"
| "call_keeps_tree h c = True"

fun calls_ok :: "(sim_heap \<Rightarrow> link_call \<Rightarrow> bool) \<Rightarrow> link_call list \<Rightarrow> sim_heap \<Rightarrow> bool" where
  "calls_ok ok [] h = True"
| "calls_ok ok (c # cs) h =
     (ok h c \<and> (case link_call_step c h of Inl e \<Rightarrow> True | Inr h1 \<Rightarrow> calls_ok ok cs h1))"

text \<open>
  The dependents lists after a simulation \<open>s\<close> left the list of its old parent, and after
  it joined the list of its new one.
\<close>

definition detach :: "sim_ref \<Rightarrow> sim_ref option \<Rightarrow> (sim_ref \<Rightarrow> sim_ref list) \<Rightarrow> sim_ref \<Rightarrow> sim_ref list" where
  "detach s old D = (case old of None \<Rightarrow> D | Some p \<Rightarrow> D(p := removeAll s (D p)))"

definition attach :: "sim_ref \<Rightarrow> sim_ref option \<Rightarrow> (sim_ref \<Rightarrow> sim_ref list) \<Rightarrow> sim_ref \<Rightarrow> sim_ref list" where
  "attach s new D = (case new of None \<Rightarrow> D | Some p \<Rightarrow> D(p := D p @ [s]))"

section \<open>Keyframed buffers\<close>

text \<open>
  Modelled from the spec: \<open>TReplicationBuffer\<close> (NetworkSimulationModelBuffer.h is not
  among the sources). Section 3 and 4.A of the specification: a buffer of capacity
  \<open>BufferSize\<close> holds the elements of the keyframes \<open>GetTailKeyframe .. HeadKeyframe\<close>, here
  newest first; fewer than \<open>BufferSize\<close> keyframes separate head and tail. Keyframes are
  \<open>int32\<close> in the header and unbounded integers here. An empty buffer has head \<open>-1\<close>, so
  that the first element written is keyframe 0, the seed slot.
\<close>

record 'a TReplicationBuffer =
  BufferSize :: nat
  HeadKeyframe :: int
  Elements :: "'a list"

text \<open>
  Modelled from the spec: a default-constructed buffer, empty and without capacity until
  \<open>SetBufferSize\<close>.
\<close>

definition TReplicationBuffer_default :: "'a TReplicationBuffer" where
  "TReplicationBuffer_default = \<lparr>BufferSize = 0, HeadKeyframe = - 1, Elements = []\<rparr>"

text \<open>
  Modelled from the spec: \<open>GetHeadKeyframe\<close>, the newest keyframe held.
\<close>

definition GetHeadKeyframe :: "'a TReplicationBuffer \<Rightarrow> int" where
  "GetHeadKeyframe b = HeadKeyframe b"

text \<open>
  Modelled from the spec: \<open>GetTailKeyframe\<close>, the oldest keyframe held (one above the
  head when the buffer is empty).
\<close>

definition GetTailKeyframe :: "'a TReplicationBuffer \<Rightarrow> int" where
  "GetTailKeyframe b = HeadKeyframe b - int (length (Elements b)) + 1"

text \<open>
  Modelled from the spec: \<open>FindElementByKeyframe\<close>. Lookup by keyframe returns the element
  with that keyframe, or nothing outside the window from tail to head.
\<close>

definition FindElementByKeyframe :: "int \<Rightarrow> 'a TReplicationBuffer \<Rightarrow> 'a option" where
  "FindElementByKeyframe k b =
     (if GetTailKeyframe b \<le> k \<and> k \<le> HeadKeyframe b
      then Some (Elements b ! nat (HeadKeyframe b - k))
      else None)"

text \<open>
  Modelled from the spec: \<open>GetWriteNext\<close>. It allocates the keyframe after the head,
  evicting the tail when the buffer is full, and returns a pointer to the new element,
  through which the caller then stores a value; the model takes that value as its first
  argument. With capacity zero there is no element to return: the result is \<open>None\<close>, the
  null pointer that lines 96 and 191 of the header test for.
\<close>

definition GetWriteNext :: "'a \<Rightarrow> 'a TReplicationBuffer \<Rightarrow> 'a TReplicationBuffer option" where
  "GetWriteNext v b =
     (if BufferSize b = 0 then None
      else Some (b\<lparr>HeadKeyframe := HeadKeyframe b + 1,
                    Elements := take (BufferSize b) (v # Elements b)\<rparr>))"

text \<open>
  Modelled from the spec: \<open>ResetNextHeadKeyframe\<close>. After \<open>ResetNextHeadKeyframe k\<close> the next
  \<open>GetWriteNext\<close> produces keyframe \<open>k\<close> itself and the elements at \<open>k\<close> and above are gone.
  Section 4.A of the specification words the produced keyframe as \<open>k + 1\<close>; the header
  fixes it as \<open>k\<close>: the comment of lines 144-148 has the state of keyframe 0 created by
  lines 160-162 when \<open>LastProcessedInputKeyframe\<close> is 0, and the check of line 192 needs
  the head at \<open>LastProcessedInputKeyframe\<close> after them. A reset beyond the head leaves no
  element, since the window has no holes.
\<close>

definition ResetNextHeadKeyframe :: "int \<Rightarrow> 'a TReplicationBuffer \<Rightarrow> 'a TReplicationBuffer" where
  "ResetNextHeadKeyframe k b =
     b\<lparr>HeadKeyframe := k - 1,
       Elements := (if k - 1 \<le> HeadKeyframe b
                    then drop (nat (HeadKeyframe b - (k - 1))) (Elements b)
                    else [])\<rparr>"

text \<open>
  Modelled from the spec: \<open>SetBufferSize\<close> (\<open>set_capacity\<close>) sets the capacity and keeps the
  newest elements that fit.
\<close>

definition SetBufferSize :: "nat \<Rightarrow> 'a TReplicationBuffer \<Rightarrow> 'a TReplicationBuffer" where
  "SetBufferSize n b = b\<lparr>BufferSize := n, Elements := take n (Elements b)\<rparr>"

text \<open>
  Modelled from the spec: a write through a pointer to the element of keyframe \<open>k\<close>, obtained earlier from
  \<open>FindElementByKeyframe\<close> or \<open>GetWriteNext\<close>.
\<close>

definition ModifyElement :: "int \<Rightarrow> ('a \<Rightarrow> 'a) \<Rightarrow> 'a TReplicationBuffer \<Rightarrow> 'a TReplicationBuffer" where
  "ModifyElement k f b =
     (if GetTailKeyframe b \<le> k \<and> k \<le> HeadKeyframe b
      then b\<lparr>Elements := (Elements b)[nat (HeadKeyframe b - k) := f (Elements b ! nat (HeadKeyframe b - k))]\<rparr>
      else b)"

section \<open>Tick state\<close>

text \<open>
  Modelled from the spec: \<open>TSimulationTickState\<close> (NetworkSimulationModelTypes.h is not among
  the sources). Section 4.C of the specification: the last processed and the maximal
  allowed input keyframe, the total processed simulation time, the remaining time budget,
  and a buffer with the total simulation time at each keyframe of the Sync buffer.
  \<open>FNetworkSimTime\<close> is a fixed-point integer duration.
\<close>

record TSimulationTickState =
  LastProcessedInputKeyframe :: int
  MaxAllowedInputKeyframe :: int
  TotalProcessedSimulationTime :: int
  RemainingAllowedSimulationTime :: int
  SimulationTimeBuffer :: "int TReplicationBuffer"

text \<open>
  Modelled from the spec: a default-constructed tick state, with nothing processed and no
  budget.
\<close>

definition TSimulationTickState_default :: TSimulationTickState where
  "TSimulationTickState_default =
     \<lparr>LastProcessedInputKeyframe = 0, MaxAllowedInputKeyframe = 0,
      TotalProcessedSimulationTime = 0, RemainingAllowedSimulationTime = 0,
      SimulationTimeBuffer = TReplicationBuffer_default\<rparr>"

text \<open>
  Modelled from the spec: the accessors of the total processed time and of the remaining
  budget.
\<close>

definition GetTotalProcessedSimulationTime :: "TSimulationTickState \<Rightarrow> int" where
  "GetTotalProcessedSimulationTime t = TotalProcessedSimulationTime t"

definition GetRemainingAllowedSimulationTime :: "TSimulationTickState \<Rightarrow> int" where
  "GetRemainingAllowedSimulationTime t = RemainingAllowedSimulationTime t"

text \<open>
  Modelled from the spec: \<open>InitSimulationTimeBuffer\<close> gives the buffer of time stamps its
  capacity.
\<close>

definition InitSimulationTimeBuffer :: "nat \<Rightarrow> TSimulationTickState \<Rightarrow> TSimulationTickState" where
  "InitSimulationTimeBuffer n t = t\<lparr>SimulationTimeBuffer := SetBufferSize n (SimulationTimeBuffer t)\<rparr>"

text \<open>
  Modelled from the spec: \<open>increment_processed(delta, k)\<close> advances the total time and the
  stamp of keyframe \<open>k\<close>, and the budget shrinks as inputs are consumed;
  \<open>set_total_processed(t, k)\<close> is the rollback form, which sets both. Either fails when
  the stamp buffer has no capacity.
\<close>

definition SetTotalProcessedSimulationTime ::
  "int \<Rightarrow> int \<Rightarrow> TSimulationTickState \<Rightarrow> TSimulationTickState option" where
  "SetTotalProcessedSimulationTime SimTime Keyframe t =
     (case GetWriteNext SimTime (ResetNextHeadKeyframe Keyframe (SimulationTimeBuffer t)) of
        None \<Rightarrow> None
      | Some b \<Rightarrow> Some (t\<lparr>TotalProcessedSimulationTime := SimTime, SimulationTimeBuffer := b\<rparr>))"

definition IncrementTotalProcessedSimulationTime ::
  "int \<Rightarrow> int \<Rightarrow> TSimulationTickState \<Rightarrow> TSimulationTickState option" where
  "IncrementTotalProcessedSimulationTime DeltaSimTime Keyframe t =
     (case GetWriteNext (TotalProcessedSimulationTime t + DeltaSimTime)
             (ResetNextHeadKeyframe Keyframe (SimulationTimeBuffer t)) of
        None \<Rightarrow> None
      | Some b \<Rightarrow>
          Some (t\<lparr>TotalProcessedSimulationTime := TotalProcessedSimulationTime t + DeltaSimTime,
                  RemainingAllowedSimulationTime := RemainingAllowedSimulationTime t - DeltaSimTime,
                  SimulationTimeBuffer := b\<rparr>))"

section \<open>The simulation model and its collaborators\<close>

text \<open>
  The members of \<open>TDebugState\<close> that \<open>Tick\<close> writes (lines 85-109 and 196, 243-245);
  \<open>DebugHeadKeyframe\<close> is the member \<open>HeadKeyframe\<close>.
\<close>

record TDebugState =
  LocalDeltaTimeSeconds :: real
  LocalGFrameNumber :: nat
  ProcessedKeyframes :: "int list"
  LastSentInputKeyframe :: int
  LastReceivedInputKeyframe :: int
  LastProcessedKeyframe :: int
  DebugHeadKeyframe :: int
  RemainingAllowedSimulationTimeSeconds :: real

record ('cmd, 'sync, 'aux) TNetworkSimBufferContainer =
  Input :: "'cmd TReplicationBuffer"
  Sync :: "'sync TReplicationBuffer"
  Aux :: "'aux TReplicationBuffer"
  DebugBuf :: "TDebugState TReplicationBuffer"

definition TNetworkSimBufferContainer_default :: "('cmd, 'sync, 'aux) TNetworkSimBufferContainer" where
  "TNetworkSimBufferContainer_default =
     \<lparr>Input = TReplicationBuffer_default, Sync = TReplicationBuffer_default,
      Aux = TReplicationBuffer_default, DebugBuf = TReplicationBuffer_default\<rparr>"

text \<open>
  What a tick does to the outside world, in order: a warning written to the log
  (line 156, with the debug name, \<open>LastProcessedInputKeyframe\<close> and the head of the Sync
  buffer), a call of the driver's \<open>InitSyncState\<close> (line 162), a call of
  \<open>TSimulation::Update\<close> (line 200, with the keyframe and the arguments passed: the delta in
  seconds, the input command, the previous sync state and the aux state).
\<close>

datatype ('cmd, 'sync, 'aux) sim_event =
    Log_Warning string int int
  | Call_InitSyncState
  | Call_Update int real 'cmd 'sync 'aux

text \<open>
  The members of lines 416-424 and 481: the driver (the state of the object behind the
  pointer), the tick state, the buffers, the replication proxies (opaque), the historic
  buffers; and the events so far.
\<close>

record ('cmd, 'sync, 'aux, 'drv, 'rp) TNetworkedSimulationModel =
  Driver :: 'drv
  TickInfo :: TSimulationTickState
  Buffers :: "('cmd, 'sync, 'aux) TNetworkSimBufferContainer"
  RepProxies :: 'rp
  HistoricBuffers :: "('cmd, 'sync, 'aux) TNetworkSimBufferContainer option"
  Events :: "('cmd, 'sync, 'aux) sim_event list"

text \<open>
  \<open>FNetSimTickParameters\<close>, \<open>FNetSerializeParams\<close> (the archive, as the bytes written so
  far) and \<open>FNetworkSimulationModelInitParameters\<close>, by the members the header and the
  specification name.
\<close>

record FNetSimTickParameters =
  Role :: ENetRole
  TickLocalDeltaTimeSeconds :: real

record FNetSerializeParams =
  Ar :: "nat list"

record FNetworkSimulationModelInitParameters =
  InputBufferSize :: nat
  SyncedBufferSize :: nat
  AuxBufferSize :: nat
  DebugBufferSize :: nat
  HistoricBufferSize :: nat

text \<open>
  What the header takes from outside, as parameters of the model: the compile-time flag
  \<open>NETSIM_MODEL_DEBUG\<close>; the driver's \<open>GetDebugName\<close> and \<open>InitSyncState\<close> (an out-parameter
  that the driver fills); the static \<open>TSimulation::Update\<close>, which may change the driver and
  fills the next sync state; the delta time of an input command and its conversion to
  seconds; the default-constructed input command, aux state and debug state; the methods
  of the replication proxies, named by the proxy they belong to; \<open>CopyAndMerge\<close> of the
  historic buffers (source first).
\<close>

record ('cmd, 'sync, 'aux, 'drv, 'rp) Collaborators =
  NETSIM_MODEL_DEBUG :: bool
  GetDebugName :: "'drv \<Rightarrow> string"
  InitSyncState :: "'drv \<Rightarrow> 'sync"
  Update :: "'drv \<Rightarrow> real \<Rightarrow> 'cmd \<Rightarrow> 'sync \<Rightarrow> 'aux \<Rightarrow> 'drv \<times> 'sync"
  GetFrameDeltaTime :: "'cmd \<Rightarrow> int"
  ToRealTimeSeconds :: "int \<Rightarrow> real"
  TInputCmd_default :: 'cmd
  TAuxState_default :: 'aux
  TDebugState_default :: TDebugState
  PreSimTick :: "EReplicationProxyTarget \<Rightarrow> FNetSimTickParameters \<Rightarrow>
     ('cmd, 'sync, 'aux, 'drv, 'rp) TNetworkedSimulationModel \<Rightarrow>
     ('cmd, 'sync, 'aux, 'drv, 'rp) TNetworkedSimulationModel"
  PostSimTick :: "EReplicationProxyTarget \<Rightarrow> FNetSimTickParameters \<Rightarrow>
     ('cmd, 'sync, 'aux, 'drv, 'rp) TNetworkedSimulationModel \<Rightarrow>
     ('cmd, 'sync, 'aux, 'drv, 'rp) TNetworkedSimulationModel"
  Reconcile_proxy :: "EReplicationProxyTarget \<Rightarrow>
     ('cmd, 'sync, 'aux, 'drv, 'rp) TNetworkedSimulationModel \<Rightarrow>
     ('cmd, 'sync, 'aux, 'drv, 'rp) TNetworkedSimulationModel"
  NetSerialize :: "EReplicationProxyTarget \<Rightarrow> FNetSerializeParams \<Rightarrow>
     ('cmd, 'sync, 'aux, 'drv, 'rp) TNetworkedSimulationModel \<Rightarrow>
     FNetSerializeParams \<times> ('cmd, 'sync, 'aux, 'drv, 'rp) TNetworkedSimulationModel"
  ReceivedBuffer :: "'rp \<Rightarrow> TDebugState TReplicationBuffer"
  ProxyDirtyCount :: "EReplicationProxyTarget \<Rightarrow> 'rp \<Rightarrow>
     ('cmd, 'sync, 'aux) TNetworkSimBufferContainer \<Rightarrow> int"
  GetLastSerializedKeyframe :: "EReplicationProxyTarget \<Rightarrow> 'rp \<Rightarrow> int"
  CopyAndMerge_Input :: "'cmd TReplicationBuffer \<Rightarrow> 'cmd TReplicationBuffer \<Rightarrow> 'cmd TReplicationBuffer"
  CopyAndMerge_Sync :: "'sync TReplicationBuffer \<Rightarrow> 'sync TReplicationBuffer \<Rightarrow> 'sync TReplicationBuffer"
  CopyAndMerge_Aux :: "'aux TReplicationBuffer \<Rightarrow> 'aux TReplicationBuffer \<Rightarrow> 'aux TReplicationBuffer"

section \<open>Tick\<close>

text \<open>
  The proxy that the three switch statements on the role select (lines 118-131, 221-234,
  264-277).
\<close>

definition RoleProxy :: "ENetRole \<Rightarrow> EReplicationProxyTarget" where
  "RoleProxy r = (case r of ROLE_Authority \<Rightarrow> ServerRPC
                  | ROLE_AutonomousProxy \<Rightarrow> AutonomousProxy
                  | ROLE_SimulatedProxy \<Rightarrow> SimulatedProxy)"

text \<open>
  The debug accessors of lines 460-475, in both configurations. The pointer that
  \<open>GetNextLocalDebugStateWrite\<close> returns is the keyframe of the debug element it
  allocated.
\<close>

definition GetLocalDebugBuffer ::
  "('cmd, 'sync, 'aux, 'drv, 'rp) Collaborators \<Rightarrow> ('cmd, 'sync, 'aux, 'drv, 'rp) TNetworkedSimulationModel
    \<Rightarrow> TDebugState TReplicationBuffer option" where
  "GetLocalDebugBuffer env st = (if NETSIM_MODEL_DEBUG env then Some (DebugBuf (Buffers st)) else None)"

definition GetNextLocalDebugStateWrite ::
  "('cmd, 'sync, 'aux, 'drv, 'rp) Collaborators \<Rightarrow> TDebugState \<Rightarrow>
   ('cmd, 'sync, 'aux, 'drv, 'rp) TNetworkedSimulationModel
    \<Rightarrow> int option \<times> ('cmd, 'sync, 'aux, 'drv, 'rp) TNetworkedSimulationModel" where
  "GetNextLocalDebugStateWrite env v st =
     (if NETSIM_MODEL_DEBUG env
      then (case GetWriteNext v (DebugBuf (Buffers st)) of
              None \<Rightarrow> (None, st)
            | Some b \<Rightarrow> (Some (GetHeadKeyframe b), st\<lparr>Buffers := (Buffers st)\<lparr>DebugBuf := b\<rparr>\<rparr>))
      else (None, st))"

definition GetHistoricBuffers ::
  "('cmd, 'sync, 'aux, 'drv, 'rp) Collaborators \<Rightarrow> bool \<Rightarrow>
   ('cmd, 'sync, 'aux, 'drv, 'rp) TNetworkedSimulationModel
    \<Rightarrow> ('cmd, 'sync, 'aux) TNetworkSimBufferContainer option
        \<times> ('cmd, 'sync, 'aux, 'drv, 'rp) TNetworkedSimulationModel" where
  "GetHistoricBuffers env bCreate st =
     (if NETSIM_MODEL_DEBUG env
      then (let st1 = (if HistoricBuffers st = None \<and> bCreate
                       then st\<lparr>HistoricBuffers := Some TNetworkSimBufferContainer_default\<rparr>
                       else st)
            in (HistoricBuffers st1, st1))
      else (None, st))"

text \<open>
  A write through the \<open>DebugState\<close> pointer, when it is not null.
\<close>

definition WithDebugState ::
  "int option \<Rightarrow> (TDebugState \<Rightarrow> TDebugState) \<Rightarrow>
   ('cmd, 'sync, 'aux, 'drv, 'rp) TNetworkedSimulationModel \<Rightarrow>
   ('cmd, 'sync, 'aux, 'drv, 'rp) TNetworkedSimulationModel" where
  "WithDebugState DebugState f st =
     (case DebugState of
        None \<Rightarrow> st
      | Some k \<Rightarrow> st\<lparr>Buffers := (Buffers st)\<lparr>DebugBuf := ModifyElement k f (DebugBuf (Buffers st))\<rparr>\<rparr>)"

text \<open>
  Lines 79-92 and 95-111: the debug state of the previous frame receives the last sent
  input keyframe, and the debug state of this frame is allocated and filled.
\<close>

definition Tick_PreviousDebugState ::
  "('cmd, 'sync, 'aux, 'drv, 'rp) Collaborators \<Rightarrow> FNetSimTickParameters \<Rightarrow>
   ('cmd, 'sync, 'aux, 'drv, 'rp) TNetworkedSimulationModel \<Rightarrow>
   ('cmd, 'sync, 'aux, 'drv, 'rp) TNetworkedSimulationModel" where
  "Tick_PreviousDebugState env Parameters st =
     (case GetLocalDebugBuffer env st of
        None \<Rightarrow> st
      | Some DebugBuffer \<Rightarrow>
          (case FindElementByKeyframe (GetHeadKeyframe DebugBuffer) DebugBuffer of
             None \<Rightarrow> st
           | Some PrevDebugState \<Rightarrow>
               (if Role Parameters = ROLE_AutonomousProxy
                then WithDebugState (Some (GetHeadKeyframe DebugBuffer))
                       (\<lambda>d. d\<lparr>LastSentInputKeyframe :=
                                 GetLastSerializedKeyframe env ServerRPC (RepProxies st)\<rparr>) st
                else if Role Parameters = ROLE_Authority
                then WithDebugState (Some (GetHeadKeyframe DebugBuffer))
                       (\<lambda>d. d\<lparr>LastSentInputKeyframe :=
                                 GetLastSerializedKeyframe env AutonomousProxy (RepProxies st)\<rparr>) st
                else st)))"

definition Tick_CurrentDebugState ::
  "('cmd, 'sync, 'aux, 'drv, 'rp) Collaborators \<Rightarrow> FNetSimTickParameters \<Rightarrow> nat \<Rightarrow>
   ('cmd, 'sync, 'aux, 'drv, 'rp) TNetworkedSimulationModel \<Rightarrow>
   int option \<times> ('cmd, 'sync, 'aux, 'drv, 'rp) TNetworkedSimulationModel" where
  "Tick_CurrentDebugState env Parameters GFrameNumber st =
     (let d0 = (TDebugState_default env)
                 \<lparr>LocalDeltaTimeSeconds := TickLocalDeltaTimeSeconds Parameters,
                  LocalGFrameNumber := GFrameNumber,
                  ProcessedKeyframes := []\<rparr>;
          d1 = (if Role Parameters = ROLE_AutonomousProxy
                then d0\<lparr>LastReceivedInputKeyframe :=
                          GetLastSerializedKeyframe env AutonomousProxy (RepProxies st)\<rparr>
                else if Role Parameters = ROLE_Authority
                then d0\<lparr>LastReceivedInputKeyframe :=
                          GetLastSerializedKeyframe env ServerRPC (RepProxies st)\<rparr>
                else d0)
      in GetNextLocalDebugStateWrite env d1 st)"

text \<open>
  Lines 153-165, the body of the branch taken when the head of the Sync buffer is not
  \<open>LastProcessedInputKeyframe\<close>.
\<close>

definition Tick_ResetSyncState ::
  "('cmd, 'sync, 'aux, 'drv, 'rp) Collaborators \<Rightarrow>
   ('cmd, 'sync, 'aux, 'drv, 'rp) TNetworkedSimulationModel \<Rightarrow>
   failure + ('cmd, 'sync, 'aux, 'drv, 'rp) TNetworkedSimulationModel" where
  "Tick_ResetSyncState env st =
     (let LP = LastProcessedInputKeyframe (TickInfo st);
          st1 = (if LP \<noteq> 0
                 then st\<lparr>Events := Events st @
                        [Log_Warning (GetDebugName env (Driver st)) LP
                           (GetHeadKeyframe (Sync (Buffers st)))]\<rparr>
                 else st);
          Sync1 = ResetNextHeadKeyframe LP (Sync (Buffers st1))
      in case GetWriteNext (InitSyncState env (Driver st1)) Sync1 of
           None \<Rightarrow> Inl NullPointerDereference
         | Some Sync2 \<Rightarrow>
             (let st2 = st1\<lparr>Buffers := (Buffers st1)\<lparr>Sync := Sync2\<rparr>,
                            Events := Events st1 @ [Call_InitSyncState]\<rparr>
              in case SetTotalProcessedSimulationTime
                        (GetTotalProcessedSimulationTime (TickInfo st2))
                        (GetHeadKeyframe (Sync (Buffers st2))) (TickInfo st2) of
                   None \<Rightarrow> Inl NullPointerDereference
                 | Some ti \<Rightarrow> Inr (st2\<lparr>TickInfo := ti\<rparr>)))"

text \<open>
  Lines 187-203, one pass through the core block of the loop. The previous state is
  looked up before the next one is allocated, as in the source.
\<close>

definition Tick_UpdateStep ::
  "('cmd, 'sync, 'aux, 'drv, 'rp) Collaborators \<Rightarrow> int option \<Rightarrow> int \<Rightarrow> 'cmd \<Rightarrow>
   ('cmd, 'sync, 'aux, 'drv, 'rp) TNetworkedSimulationModel \<Rightarrow>
   failure + ('cmd, 'sync, 'aux, 'drv, 'rp) TNetworkedSimulationModel" where
  "Tick_UpdateStep env DebugState Keyframe NextCmd st =
     (case FindElementByKeyframe (LastProcessedInputKeyframe (TickInfo st)) (Sync (Buffers st)) of
        None \<Rightarrow> Inl (CheckFailed Check_PrevSyncState)
      | Some PrevSyncState \<Rightarrow>
          (let AuxState = TAuxState_default env;
               DeltaSeconds = ToRealTimeSeconds env (GetFrameDeltaTime env NextCmd);
               (Driver1, NextSyncState) =
                  Update env (Driver st) DeltaSeconds NextCmd PrevSyncState AuxState
           in case GetWriteNext NextSyncState (Sync (Buffers st)) of
                None \<Rightarrow> Inl (CheckFailed Check_NextSyncState)
              | Some Sync1 \<Rightarrow>
                  if GetHeadKeyframe Sync1 \<noteq> Keyframe
                  then Inl (CheckFailed Check_SyncHeadKeyframe)
                  else
                    (let st1 = WithDebugState DebugState
                                 (\<lambda>d. d\<lparr>ProcessedKeyframes := ProcessedKeyframes d @ [Keyframe]\<rparr>) st;
                         st2 = st1\<lparr>Driver := Driver1,
                                   Buffers := (Buffers st1)\<lparr>Sync := Sync1\<rparr>,
                                   Events := Events st1 @
                                     [Call_Update Keyframe DeltaSeconds NextCmd PrevSyncState AuxState]\<rparr>
                     in case IncrementTotalProcessedSimulationTime
                               (GetFrameDeltaTime env NextCmd) Keyframe (TickInfo st2) of
                          None \<Rightarrow> Inl NullPointerDereference
                        | Some ti \<Rightarrow>
                            Inr (st2\<lparr>TickInfo := ti\<lparr>LastProcessedInputKeyframe := Keyframe\<rparr>\<rparr>))))"

text \<open>
  The loop of lines 171-214. It ends because every pass moves
  \<open>LastProcessedInputKeyframe\<close> one step towards \<open>MaxAllowedInputKeyframe\<close>.
\<close>

lemma Tick_UpdateStep_keyframes:
  assumes "Tick_UpdateStep env DebugState Keyframe NextCmd st = Inr st1"
  shows "LastProcessedInputKeyframe (TickInfo st1) = Keyframe
       \<and> MaxAllowedInputKeyframe (TickInfo st1) = MaxAllowedInputKeyframe (TickInfo st)"
  using assms
  by (auto simp: Tick_UpdateStep_def Let_def IncrementTotalProcessedSimulationTime_def
      WithDebugState_def
      split: option.splits prod.splits if_splits)

function Tick_ProcessInput ::
  "('cmd, 'sync, 'aux, 'drv, 'rp) Collaborators \<Rightarrow> int option \<Rightarrow>
   ('cmd, 'sync, 'aux, 'drv, 'rp) TNetworkedSimulationModel \<Rightarrow>
   failure + ('cmd, 'sync, 'aux, 'drv, 'rp) TNetworkedSimulationModel" where
  "Tick_ProcessInput env DebugState st =
     (let Keyframe = LastProcessedInputKeyframe (TickInfo st) + 1
      in if Keyframe > MaxAllowedInputKeyframe (TickInfo st) then Inr st
         else (case FindElementByKeyframe Keyframe (Input (Buffers st)) of
                 None \<Rightarrow> Inr st
               | Some NextCmd \<Rightarrow>
                   if GetRemainingAllowedSimulationTime (TickInfo st) \<ge> GetFrameDeltaTime env NextCmd
                   then (case Tick_UpdateStep env DebugState Keyframe NextCmd st of
                           Inl e \<Rightarrow> Inl e
                         | Inr st1 \<Rightarrow> Tick_ProcessInput env DebugState st1)
                   else Inr st))"
  by pat_completeness auto
termination
proof (relation "measure (\<lambda>(env, DebugState, st).
         nat (MaxAllowedInputKeyframe (TickInfo st) - LastProcessedInputKeyframe (TickInfo st)))")
  show "wf (measure (\<lambda>(env :: ('cmd, 'sync, 'aux, 'drv, 'rp) Collaborators, DebugState :: int option,
         st :: ('cmd, 'sync, 'aux, 'drv, 'rp) TNetworkedSimulationModel).
         nat (MaxAllowedInputKeyframe (TickInfo st) - LastProcessedInputKeyframe (TickInfo st))))"
    by simp
next
  fix env :: "('cmd, 'sync, 'aux, 'drv, 'rp) Collaborators"
    and DebugState :: "int option"
    and st st1 :: "('cmd, 'sync, 'aux, 'drv, 'rp) TNetworkedSimulationModel"
    and Keyframe :: int and NextCmd :: 'cmd
  assume k: "Keyframe = LastProcessedInputKeyframe (TickInfo st) + 1"
    and le: "\<not> MaxAllowedInputKeyframe (TickInfo st) < Keyframe"
    and step: "Tick_UpdateStep env DebugState Keyframe NextCmd st = Inr st1"
  have "LastProcessedInputKeyframe (TickInfo st1) = Keyframe"
    and "MaxAllowedInputKeyframe (TickInfo st1) = MaxAllowedInputKeyframe (TickInfo st)"
    using Tick_UpdateStep_keyframes [OF step] by simp_all
  then show "((env, DebugState, st1), (env, DebugState, st)) \<in> measure (\<lambda>(env, DebugState, st).
         nat (MaxAllowedInputKeyframe (TickInfo st) - LastProcessedInputKeyframe (TickInfo st)))"
    using k le by simp
qed

declare Tick_ProcessInput.simps [simp del]

text \<open>
  Lines 136-215, the section "Input Processing and Simulation Update".
\<close>

definition Tick_InputProcessing ::
  "('cmd, 'sync, 'aux, 'drv, 'rp) Collaborators \<Rightarrow> int option \<Rightarrow>
   ('cmd, 'sync, 'aux, 'drv, 'rp) TNetworkedSimulationModel \<Rightarrow>
   failure + ('cmd, 'sync, 'aux, 'drv, 'rp) TNetworkedSimulationModel" where
  "Tick_InputProcessing env DebugState st =
     (if GetHeadKeyframe (Input (Buffers st)) > GetHeadKeyframe (Sync (Buffers st))
      then (case (if GetHeadKeyframe (Sync (Buffers st)) \<noteq> LastProcessedInputKeyframe (TickInfo st)
                  then Tick_ResetSyncState env st
                  else Inr st) of
              Inl e \<Rightarrow> Inl e
            | Inr st1 \<Rightarrow> Tick_ProcessInput env DebugState st1)
      else Inr st)"

text \<open>
  Lines 241-246 and 249-254.
\<close>

definition Tick_FinishDebugState ::
  "('cmd, 'sync, 'aux, 'drv, 'rp) Collaborators \<Rightarrow> int option \<Rightarrow>
   ('cmd, 'sync, 'aux, 'drv, 'rp) TNetworkedSimulationModel \<Rightarrow>
   ('cmd, 'sync, 'aux, 'drv, 'rp) TNetworkedSimulationModel" where
  "Tick_FinishDebugState env DebugState st =
     WithDebugState DebugState
       (\<lambda>d. d\<lparr>LastProcessedKeyframe := LastProcessedInputKeyframe (TickInfo st),
                DebugHeadKeyframe := GetHeadKeyframe (Input (Buffers st)),
                RemainingAllowedSimulationTimeSeconds :=
                  ToRealTimeSeconds env (GetRemainingAllowedSimulationTime (TickInfo st))\<rparr>) st"

definition Tick_HistoricRecording ::
  "('cmd, 'sync, 'aux, 'drv, 'rp) Collaborators \<Rightarrow>
   ('cmd, 'sync, 'aux, 'drv, 'rp) TNetworkedSimulationModel \<Rightarrow>
   ('cmd, 'sync, 'aux, 'drv, 'rp) TNetworkedSimulationModel" where
  "Tick_HistoricRecording env st =
     (case GetHistoricBuffers env False st of
        (None, st1) \<Rightarrow> st1
      | (Some HistoricData, st1) \<Rightarrow>
          st1\<lparr>HistoricBuffers := Some (HistoricData
                 \<lparr>Input := CopyAndMerge_Input env (Input (Buffers st1)) (Input HistoricData),
                  Sync := CopyAndMerge_Sync env (Sync (Buffers st1)) (Sync HistoricData),
                  Aux := CopyAndMerge_Aux env (Aux (Buffers st1)) (Aux HistoricData)\<rparr>)\<rparr>)"

text \<open>
  \<open>Tick\<close> (lines 75-255). \<open>GFrameNumber\<close> is a global of the engine and an argument here.
\<close>

definition Tick ::
  "('cmd, 'sync, 'aux, 'drv, 'rp) Collaborators \<Rightarrow> FNetSimTickParameters \<Rightarrow> nat \<Rightarrow>
   ('cmd, 'sync, 'aux, 'drv, 'rp) TNetworkedSimulationModel \<Rightarrow>
   failure + ('cmd, 'sync, 'aux, 'drv, 'rp) TNetworkedSimulationModel" where
  "Tick env Parameters GFrameNumber st =
     (let st1 = Tick_PreviousDebugState env Parameters st;
          (DebugState, st2) = Tick_CurrentDebugState env Parameters GFrameNumber st1;
          st3 = PreSimTick env (RoleProxy (Role Parameters)) Parameters st2
      in case Tick_InputProcessing env DebugState st3 of
           Inl e \<Rightarrow> Inl e
         | Inr st4 \<Rightarrow>
             Inr (Tick_HistoricRecording env
                    (Tick_FinishDebugState env DebugState
                       (PostSimTick env (RoleProxy (Role Parameters)) Parameters st4))))"

text \<open>
  \<open>Reconcile\<close> (lines 257-278), \<open>InitializeForNetworkRole\<close> (lines 280-302),
  \<open>NetSerializeProxy\<close> (lines 304-328) and \<open>GetProxyDirtyCount\<close> (lines 330-350). With
  \<open>NETSIM_MODEL_DEBUG\<close> off, the case label of the debug target is followed by the default
  label.
\<close>

definition Reconcile ::
  "('cmd, 'sync, 'aux, 'drv, 'rp) Collaborators \<Rightarrow> ENetRole \<Rightarrow>
   ('cmd, 'sync, 'aux, 'drv, 'rp) TNetworkedSimulationModel \<Rightarrow>
   ('cmd, 'sync, 'aux, 'drv, 'rp) TNetworkedSimulationModel" where
  "Reconcile env r st = Reconcile_proxy env (RoleProxy r) st"

definition InitializeForNetworkRole ::
  "('cmd, 'sync, 'aux, 'drv, 'rp) Collaborators \<Rightarrow> ENetRole \<Rightarrow>
   FNetworkSimulationModelInitParameters \<Rightarrow>
   ('cmd, 'sync, 'aux, 'drv, 'rp) TNetworkedSimulationModel \<Rightarrow>
   failure + ('cmd, 'sync, 'aux, 'drv, 'rp) TNetworkedSimulationModel" where
  "InitializeForNetworkRole env r Parameters st =
     (let B = Buffers st;
          B1 = B\<lparr>Input := SetBufferSize (InputBufferSize Parameters) (Input B),
                 Sync := SetBufferSize (SyncedBufferSize Parameters) (Sync B),
                 Aux := SetBufferSize (AuxBufferSize Parameters) (Aux B)\<rparr>;
          st1 = st\<lparr>Buffers := B1\<rparr>;
          st2 = (case GetLocalDebugBuffer env st1 of
                   None \<Rightarrow> st1
                 | Some DebugBuffer \<Rightarrow>
                     st1\<lparr>Buffers := (Buffers st1)
                           \<lparr>DebugBuf := SetBufferSize (DebugBufferSize Parameters) DebugBuffer\<rparr>\<rparr>);
          st3 = (case GetHistoricBuffers env True st2 of
                   (None, s) \<Rightarrow> s
                 | (Some MyHistoricBuffers, s) \<Rightarrow>
                     s\<lparr>HistoricBuffers := Some (MyHistoricBuffers
                          \<lparr>Input := SetBufferSize (HistoricBufferSize Parameters) (Input MyHistoricBuffers),
                           Sync := SetBufferSize (HistoricBufferSize Parameters) (Sync MyHistoricBuffers),
                           Aux := SetBufferSize (HistoricBufferSize Parameters) (Aux MyHistoricBuffers)\<rparr>)\<rparr>);
          st4 = st3\<lparr>TickInfo := InitSimulationTimeBuffer (SyncedBufferSize Parameters) (TickInfo st3)\<rparr>
      in case GetWriteNext (TInputCmd_default env) (Input (Buffers st4)) of
           None \<Rightarrow> Inl NullPointerDereference
         | Some b \<Rightarrow> Inr (st4\<lparr>Buffers := (Buffers st4)\<lparr>Input := b\<rparr>\<rparr>))"

definition NetSerializeProxy ::
  "('cmd, 'sync, 'aux, 'drv, 'rp) Collaborators \<Rightarrow> EReplicationProxyTarget \<Rightarrow> FNetSerializeParams \<Rightarrow>
   ('cmd, 'sync, 'aux, 'drv, 'rp) TNetworkedSimulationModel \<Rightarrow>
   failure + FNetSerializeParams \<times> ('cmd, 'sync, 'aux, 'drv, 'rp) TNetworkedSimulationModel" where
  "NetSerializeProxy env Target Params st =
     (case Target of
        ServerRPC \<Rightarrow> Inr (NetSerialize env ServerRPC Params st)
      | AutonomousProxy \<Rightarrow> Inr (NetSerialize env AutonomousProxy Params st)
      | SimulatedProxy \<Rightarrow> Inr (NetSerialize env SimulatedProxy Params st)
      | Replay \<Rightarrow> Inr (NetSerialize env Replay Params st)
      | Debug \<Rightarrow>
          if NETSIM_MODEL_DEBUG env then Inr (NetSerialize env Debug Params st)
          else Inl (CheckFailed (Check_UnknownTarget Target)))"

definition GetProxyDirtyCount ::
  "('cmd, 'sync, 'aux, 'drv, 'rp) Collaborators \<Rightarrow> EReplicationProxyTarget \<Rightarrow>
   ('cmd, 'sync, 'aux, 'drv, 'rp) TNetworkedSimulationModel \<Rightarrow> failure + int" where
  "GetProxyDirtyCount env Target st =
     (case Target of
        ServerRPC \<Rightarrow> Inr (ProxyDirtyCount env ServerRPC (RepProxies st) (Buffers st))
      | AutonomousProxy \<Rightarrow> Inr (ProxyDirtyCount env AutonomousProxy (RepProxies st) (Buffers st))
      | SimulatedProxy \<Rightarrow> Inr (ProxyDirtyCount env SimulatedProxy (RepProxies st) (Buffers st))
      | Replay \<Rightarrow> Inr (ProxyDirtyCount env Replay (RepProxies st) (Buffers st))
      | Debug \<Rightarrow>
          if NETSIM_MODEL_DEBUG env
          then Inr (ProxyDirtyCount env Debug (RepProxies st) (Buffers st))
          else Inl (CheckFailed (Check_UnknownTarget Target)))"

definition GetRemoteDebugBuffer ::
  "('cmd, 'sync, 'aux, 'drv, 'rp) Collaborators \<Rightarrow>
   ('cmd, 'sync, 'aux, 'drv, 'rp) TNetworkedSimulationModel \<Rightarrow>
   TDebugState TReplicationBuffer option" where
  "GetRemoteDebugBuffer env st =
     (if NETSIM_MODEL_DEBUG env then Some (ReceivedBuffer env (RepProxies st)) else None)"

text \<open>
  A new model: default-constructed members and the driver of the constructor.
\<close>

definition TNetworkedSimulationModel_new ::
  "'drv \<Rightarrow> 'rp \<Rightarrow> ('cmd, 'sync, 'aux, 'drv, 'rp) TNetworkedSimulationModel" where
  "TNetworkedSimulationModel_new InDriver proxies =
     \<lparr>Driver = InDriver, TickInfo = TSimulationTickState_default,
      Buffers = TNetworkSimBufferContainer_default, RepProxies = proxies,
      HistoricBuffers = None, Events = []\<rparr>"

section \<open>Vocabulary of the properties of a tick\<close>

text \<open>
  The condition under which the loop of lines 171-214 leaves: the next keyframe is beyond
  \<open>MaxAllowedInputKeyframe\<close> (line 174), the Input buffer does not hold it (line 180), or
  its delta time exceeds the remaining budget (line 185).
\<close>

definition loop_stops ::
  "('cmd, 'sync, 'aux, 'drv, 'rp) Collaborators \<Rightarrow>
   ('cmd, 'sync, 'aux, 'drv, 'rp) TNetworkedSimulationModel \<Rightarrow> bool" where
  "loop_stops env s =
     (let Keyframe = LastProcessedInputKeyframe (TickInfo s) + 1
      in Keyframe > MaxAllowedInputKeyframe (TickInfo s)
         \<or> (case FindElementByKeyframe Keyframe (Input (Buffers s)) of
               None \<Rightarrow> True
             | Some NextCmd \<Rightarrow>
                 GetRemainingAllowedSimulationTime (TickInfo s) < GetFrameDeltaTime env NextCmd))"

text \<open>
  The keyframes of the calls of \<open>Update\<close>, in call order.
\<close>

fun update_keyframes :: "('cmd, 'sync, 'aux) sim_event list \<Rightarrow> int list" where
  "update_keyframes [] = []"
| "update_keyframes (Call_Update k secs cmd prev aux # es) = k # update_keyframes es"
| "update_keyframes (e # es) = update_keyframes es"

text \<open>
  From \<open>s\<close> to \<open>s'\<close> the keyframes after \<open>LastProcessedInputKeyframe\<close> were passed to
  \<open>Update\<close> one by one in increasing order, each one allowed and held by the Input
  buffer, which is unchanged.
\<close>

definition consumed_in_order ::
  "('cmd, 'sync, 'aux, 'drv, 'rp) TNetworkedSimulationModel \<Rightarrow>
   ('cmd, 'sync, 'aux, 'drv, 'rp) TNetworkedSimulationModel \<Rightarrow> bool" where
  "consumed_in_order s s' =
     (LastProcessedInputKeyframe (TickInfo s) \<le> LastProcessedInputKeyframe (TickInfo s')
      \<and> Input (Buffers s') = Input (Buffers s)
      \<and> MaxAllowedInputKeyframe (TickInfo s') = MaxAllowedInputKeyframe (TickInfo s)
      \<and> update_keyframes (Events s') = update_keyframes (Events s) @
            [LastProcessedInputKeyframe (TickInfo s) + 1 .. LastProcessedInputKeyframe (TickInfo s')]
      \<and> (\<forall>k. LastProcessedInputKeyframe (TickInfo s) < k \<and> k \<le> LastProcessedInputKeyframe (TickInfo s')
             \<longrightarrow> k \<le> MaxAllowedInputKeyframe (TickInfo s)
                 \<and> FindElementByKeyframe k (Input (Buffers s)) \<noteq> None))"

text \<open>
  The Sync buffer and the buffer of time stamps have capacity, and the head of the Sync
  buffer is the state of \<open>LastProcessedInputKeyframe\<close>: what the checks of lines 189-192
  need to pass.
\<close>

definition SyncAligned ::
  "('cmd, 'sync, 'aux, 'drv, 'rp) TNetworkedSimulationModel \<Rightarrow> bool" where
  "SyncAligned st =
     (0 < BufferSize (Sync (Buffers st))
      \<and> 0 < BufferSize (SimulationTimeBuffer (TickInfo st))
      \<and> GetHeadKeyframe (Sync (Buffers st)) = LastProcessedInputKeyframe (TickInfo st)
      \<and> FindElementByKeyframe (LastProcessedInputKeyframe (TickInfo st)) (Sync (Buffers st)) \<noteq> None)"

text \<open>
  The warnings among the events.
\<close>

fun is_warning :: "('cmd, 'sync, 'aux) sim_event \<Rightarrow> bool" where
  "is_warning (Log_Warning name lp head) = True"
| "is_warning e = False"

text \<open>
  The sum of the frame delta times of the input commands that a buffer holds at the
  keyframes \<open>a .. b\<close>; a keyframe that the buffer does not hold adds nothing.
\<close>

definition InputDeltaSum ::
  "('cmd, 'sync, 'aux, 'drv, 'rp) Collaborators \<Rightarrow> 'cmd TReplicationBuffer \<Rightarrow> int \<Rightarrow> int \<Rightarrow> int" where
  "InputDeltaSum env b lo hi =
     (\<Sum>k \<leftarrow> [lo .. hi]. case FindElementByKeyframe k b of
                             None \<Rightarrow> 0
                           | Some cmd \<Rightarrow> GetFrameDeltaTime env cmd)"

text \<open>The aux states passed to \<open>Update\<close>, in call order.\<close>

fun update_aux_states :: "('cmd, 'sync, 'aux) sim_event list \<Rightarrow> 'aux list" where
  "update_aux_states [] = []"
| "update_aux_states (Call_Update k secs cmd prev aux # es) = aux # update_aux_states es"
| "update_aux_states (e # es) = update_aux_states es"

text \<open>The model with another Aux buffer.\<close>

definition with_Aux ::
  "'aux TReplicationBuffer \<Rightarrow> ('cmd, 'sync, 'aux, 'drv, 'rp) TNetworkedSimulationModel \<Rightarrow>
   ('cmd, 'sync, 'aux, 'drv, 'rp) TNetworkedSimulationModel" where
  "with_Aux a st = st\<lparr>Buffers := (Buffers st)\<lparr>Aux := a\<rparr>\<rparr>"

subsection \<open>Time accounting of the loop\<close>

text \<open>
  From \<open>s\<close> to \<open>s'\<close> the total time grew and the budget shrank by the delta times of
  the keyframes consumed, every call of \<open>Update\<close> received the default aux state, and no
  warning was logged.
\<close>

definition time_accounted ::
  "('cmd, 'sync, 'aux, 'drv, 'rp) Collaborators \<Rightarrow>
   ('cmd, 'sync, 'aux, 'drv, 'rp) TNetworkedSimulationModel \<Rightarrow>
   ('cmd, 'sync, 'aux, 'drv, 'rp) TNetworkedSimulationModel \<Rightarrow> bool" where
  "time_accounted env s s' =
     (LastProcessedInputKeyframe (TickInfo s) \<le> LastProcessedInputKeyframe (TickInfo s')
      \<and> Input (Buffers s') = Input (Buffers s)
      \<and> TotalProcessedSimulationTime (TickInfo s') =
          TotalProcessedSimulationTime (TickInfo s) +
          InputDeltaSum env (Input (Buffers s)) (LastProcessedInputKeyframe (TickInfo s) + 1)
            (LastProcessedInputKeyframe (TickInfo s'))
      \<and> RemainingAllowedSimulationTime (TickInfo s') =
          RemainingAllowedSimulationTime (TickInfo s) -
          InputDeltaSum env (Input (Buffers s)) (LastProcessedInputKeyframe (TickInfo s) + 1)
            (LastProcessedInputKeyframe (TickInfo s'))
      \<and> update_aux_states (Events s') = update_aux_states (Events s) @
          replicate (nat (LastProcessedInputKeyframe (TickInfo s') - LastProcessedInputKeyframe (TickInfo s)))
            (TAuxState_default env)
      \<and> filter is_warning (Events s') = filter is_warning (Events s)
      \<and> (\<exists>evs. Events s' = Events s @ evs))"

text \<open>
  \<open>Update\<close> is deterministic when the sync state it produces is a function \<open>F\<close> of the delta
  time, the input command, the previous sync state and the aux state alone.
\<close>

definition Update_deterministic ::
  "('cmd, 'sync, 'aux, 'drv, 'rp) Collaborators \<Rightarrow> (real \<Rightarrow> 'cmd \<Rightarrow> 'sync \<Rightarrow> 'aux \<Rightarrow> 'sync) \<Rightarrow> bool" where
  "Update_deterministic env F =
     (\<forall>d secs cmd prev aux. snd (Update env d secs cmd prev aux) = F secs cmd prev aux)"

text \<open>
  The sync states that the seed \<open>s0\<close> at keyframe \<open>base\<close> and the input commands
  \<open>inputs (base + 1)\<close>, \<open>inputs (base + 2)\<close>, ... determine: the \<open>n\<close>-th is the state of keyframe
  \<open>base + n\<close>.
\<close>

primrec sim_trajectory ::
  "('cmd, 'sync, 'aux, 'drv, 'rp) Collaborators \<Rightarrow> (real \<Rightarrow> 'cmd \<Rightarrow> 'sync \<Rightarrow> 'aux \<Rightarrow> 'sync) \<Rightarrow>
   (int \<Rightarrow> 'cmd) \<Rightarrow> int \<Rightarrow> 'sync \<Rightarrow> nat \<Rightarrow> 'sync" where
  "sim_trajectory env F inputs base s0 0 = s0"
| "sim_trajectory env F inputs base s0 (Suc n) =
     F (ToRealTimeSeconds env (GetFrameDeltaTime env (inputs (base + 1 + int n))))
       (inputs (base + 1 + int n))
       (sim_trajectory env F inputs base s0 n)
       (TAuxState_default env)"

text \<open>An Input buffer that holds commands of the sequence \<open>inputs\<close> only.\<close>

definition inputs_from :: "(int \<Rightarrow> 'cmd) \<Rightarrow> 'cmd TReplicationBuffer \<Rightarrow> bool" where
  "inputs_from inputs b = (\<forall>k cmd. FindElementByKeyframe k b = Some cmd \<longrightarrow> cmd = inputs k)"

text \<open>
  The states of a run that was seeded at keyframe \<open>base\<close> with the sync state \<open>s0\<close> and
  receives the input sequence \<open>inputs\<close>: the state right after the seeding of lines
  153-165; the state after the input loop; the state after a later pass through the
  section of \<open>Tick\<close> that processes input; and the state after anything else (the pre-tick
  and post-tick of a proxy, the arrival of input, a refill of the budget, a change of the
  driver, of the Aux buffer or of the debug buffers) that leaves the Sync buffer and
  \<open>LastProcessedInputKeyframe\<close> alone and keeps the Input buffer within the sequence.
\<close>

inductive run_state ::
  "('cmd, 'sync, 'aux, 'drv, 'rp) Collaborators \<Rightarrow> (int \<Rightarrow> 'cmd) \<Rightarrow> int \<Rightarrow> 'sync \<Rightarrow>
   ('cmd, 'sync, 'aux, 'drv, 'rp) TNetworkedSimulationModel \<Rightarrow> bool"
  for env :: "('cmd, 'sync, 'aux, 'drv, 'rp) Collaborators"
    and inputs :: "int \<Rightarrow> 'cmd" and base :: int and s0 :: 'sync where
  seeded:
    "Tick_ResetSyncState env st = Inr st1 \<Longrightarrow>
     LastProcessedInputKeyframe (TickInfo st) = base \<Longrightarrow>
     InitSyncState env (Driver st) = s0 \<Longrightarrow>
     inputs_from inputs (Input (Buffers st)) \<Longrightarrow>
     run_state env inputs base s0 st1"
| looped:
    "run_state env inputs base s0 st \<Longrightarrow>
     Tick_ProcessInput env D st = Inr st' \<Longrightarrow>
     run_state env inputs base s0 st'"
| ticked:
    "run_state env inputs base s0 st \<Longrightarrow>
     Tick_InputProcessing env D st = Inr st' \<Longrightarrow>
     run_state env inputs base s0 st'"
| other:
    "run_state env inputs base s0 st \<Longrightarrow>
     Sync (Buffers st') = Sync (Buffers st) \<Longrightarrow>
     LastProcessedInputKeyframe (TickInfo st') = LastProcessedInputKeyframe (TickInfo st) \<Longrightarrow>
     0 < BufferSize (SimulationTimeBuffer (TickInfo st')) \<Longrightarrow>
     inputs_from inputs (Input (Buffers st')) \<Longrightarrow>
     run_state env inputs base s0 st'"

text \<open>
  Every sync state that the Sync buffer holds at a keyframe from \<open>base\<close> on is the one
  that the seed and the input sequence determine.
\<close>

definition on_trajectory ::
  "('cmd, 'sync, 'aux, 'drv, 'rp) Collaborators \<Rightarrow> (real \<Rightarrow> 'cmd \<Rightarrow> 'sync \<Rightarrow> 'aux \<Rightarrow> 'sync) \<Rightarrow>
   (int \<Rightarrow> 'cmd) \<Rightarrow> int \<Rightarrow> 'sync \<Rightarrow>
   ('cmd, 'sync, 'aux, 'drv, 'rp) TNetworkedSimulationModel \<Rightarrow> bool" where
  "on_trajectory env F inputs base s0 st =
     (SyncAligned st
      \<and> base \<le> LastProcessedInputKeyframe (TickInfo st)
      \<and> inputs_from inputs (Input (Buffers st))
      \<and> (\<forall>k s. base \<le> k \<and> FindElementByKeyframe k (Sync (Buffers st)) = Some s
             \<longrightarrow> s = sim_trajectory env F inputs base s0 (nat (k - base))))"

subsection \<open>An example simulation\<close>

text \<open>
  An input command is a pair of its frame delta time and a displacement; the sync state
  is a position; the driver counts the calls of \<open>Update\<close> and answers \<open>InitSyncState\<close> with
  the position 100. The pre-tick is an instance of the autonomous proxy's as section 4.E
  of the specification describes it (the proxy classes are not among the sources): it
  appends a new input command, allows the input loop to run up to it and adds its delta
  time to the budget.
\<close>

definition example_inputs :: "int \<Rightarrow> int \<times> int" where
  "example_inputs k = (if k \<le> 0 then (0, 0) else (1, 10 * k))"

definition example_F :: "real \<Rightarrow> int \<times> int \<Rightarrow> int \<Rightarrow> int \<Rightarrow> int" where
  "example_F secs cmd prev aux = prev + snd cmd + aux"

text \<open>
  Modelled from the spec: the pre-tick of the autonomous proxy (section 4.E), for the
  input sequence \<open>example_inputs\<close>.
\<close>

definition example_PreSimTick ::
  "EReplicationProxyTarget \<Rightarrow> FNetSimTickParameters \<Rightarrow>
   (int \<times> int, int, int, nat, unit) TNetworkedSimulationModel \<Rightarrow>
   (int \<times> int, int, int, nat, unit) TNetworkedSimulationModel" where
  "example_PreSimTick p Parameters st =
     (case GetWriteNext (example_inputs (GetHeadKeyframe (Input (Buffers st)) + 1)) (Input (Buffers st)) of
        None \<Rightarrow> st
      | Some b \<Rightarrow>
          st\<lparr>Buffers := (Buffers st)\<lparr>Input := b\<rparr>,
             TickInfo := (TickInfo st)
               \<lparr>MaxAllowedInputKeyframe := GetHeadKeyframe b,
                RemainingAllowedSimulationTime := RemainingAllowedSimulationTime (TickInfo st) + 1\<rparr>\<rparr>)"

definition example_env :: "(int \<times> int, int, int, nat, unit) Collaborators" where
  "example_env =
     \<lparr>NETSIM_MODEL_DEBUG = False,
      GetDebugName = (\<lambda>d. ''sim''),
      InitSyncState = (\<lambda>d. 100),
      Update = (\<lambda>d secs cmd prev aux. (Suc d, example_F secs cmd prev aux)),
      GetFrameDeltaTime = fst,
      ToRealTimeSeconds = (\<lambda>t. real_of_int t / 1000),
      TInputCmd_default = (0, 0),
      TAuxState_default = 0,
      TDebugState_default = \<lparr>LocalDeltaTimeSeconds = 0, LocalGFrameNumber = 0,
         ProcessedKeyframes = [], LastSentInputKeyframe = 0, LastReceivedInputKeyframe = 0,
         LastProcessedKeyframe = 0, DebugHeadKeyframe = 0, RemainingAllowedSimulationTimeSeconds = 0\<rparr>,
      PreSimTick = example_PreSimTick,
      PostSimTick = (\<lambda>p Parameters st. st),
      Reconcile_proxy = (\<lambda>p st. st),
      NetSerialize = (\<lambda>p Params st. (Params, st)),
      ReceivedBuffer = (\<lambda>r. TReplicationBuffer_default),
      ProxyDirtyCount = (\<lambda>p r b. 0),
      GetLastSerializedKeyframe = (\<lambda>p r. 0),
      CopyAndMerge_Input = (\<lambda>src dst. dst),
      CopyAndMerge_Sync = (\<lambda>src dst. dst),
      CopyAndMerge_Aux = (\<lambda>src dst. dst)\<rparr>"

definition example_env_debug :: "(int \<times> int, int, int, nat, unit) Collaborators" where
  "example_env_debug = example_env\<lparr>NETSIM_MODEL_DEBUG := True\<rparr>"

definition example_init :: FNetworkSimulationModelInitParameters where
  "example_init = \<lparr>InputBufferSize = 2, SyncedBufferSize = 2, AuxBufferSize = 2,
     DebugBufferSize = 2, HistoricBufferSize = 2\<rparr>"

definition example_params :: FNetSimTickParameters where
  "example_params = \<lparr>Role = ROLE_AutonomousProxy, TickLocalDeltaTimeSeconds = 1 / 1000\<rparr>"

text \<open>
  A cold start: nothing processed, an empty Sync buffer, the input commands of the
  keyframes 1 and 2 waiting, and budget for both of them (\<open>example_cold 2 4\<close>) or for
  one (\<open>example_cold 1 4\<close>). The second argument is the capacity of the Sync buffer.
\<close>

definition example_cold :: "int \<Rightarrow> nat \<Rightarrow> (int \<times> int, int, int, nat, unit) TNetworkedSimulationModel" where
  "example_cold budget cap =
     \<lparr>Driver = 0,
      TickInfo = \<lparr>LastProcessedInputKeyframe = 0, MaxAllowedInputKeyframe = 2,
                  TotalProcessedSimulationTime = 0, RemainingAllowedSimulationTime = budget,
                  SimulationTimeBuffer = \<lparr>BufferSize = cap, HeadKeyframe = - 1, Elements = []\<rparr>\<rparr>,
      Buffers = \<lparr>Input = \<lparr>BufferSize = 4, HeadKeyframe = 2, Elements = [(1, 20), (1, 10), (0, 0)]\<rparr>,
                 Sync = \<lparr>BufferSize = cap, HeadKeyframe = - 1, Elements = []\<rparr>,
                 Aux = \<lparr>BufferSize = 4, HeadKeyframe = - 1, Elements = []\<rparr>,
                 DebugBuf = \<lparr>BufferSize = 0, HeadKeyframe = - 1, Elements = []\<rparr>\<rparr>,
      RepProxies = (), HistoricBuffers = None, Events = []\<rparr>"

text \<open>
  A continuity break: five keyframes are processed, but the Sync buffer is back at
  keyframe 0 (scenario 3 of the specification).
\<close>

definition example_break :: "(int \<times> int, int, int, nat, unit) TNetworkedSimulationModel" where
  "example_break =
     \<lparr>Driver = 5,
      TickInfo = \<lparr>LastProcessedInputKeyframe = 5, MaxAllowedInputKeyframe = 6,
                  TotalProcessedSimulationTime = 5, RemainingAllowedSimulationTime = 1,
                  SimulationTimeBuffer = \<lparr>BufferSize = 4, HeadKeyframe = 0, Elements = [0]\<rparr>\<rparr>,
      Buffers = \<lparr>Input = \<lparr>BufferSize = 4, HeadKeyframe = 6,
                          Elements = [(1, 60), (1, 50), (1, 40), (1, 30)]\<rparr>,
                 Sync = \<lparr>BufferSize = 4, HeadKeyframe = 0, Elements = [100]\<rparr>,
                 Aux = \<lparr>BufferSize = 4, HeadKeyframe = - 1, Elements = []\<rparr>,
                 DebugBuf = \<lparr>BufferSize = 0, HeadKeyframe = - 1, Elements = []\<rparr>\<rparr>,
      RepProxies = (), HistoricBuffers = None, Events = []\<rparr>"

text \<open>The states in which the section of \<open>Tick\<close> that processes input leaves the examples.\<close>

definition example_cold_done :: "(int \<times> int, int, int, nat, unit) TNetworkedSimulationModel" where
  "example_cold_done =
     \<lparr>Driver = 2,
      TickInfo = \<lparr>LastProcessedInputKeyframe = 2, MaxAllowedInputKeyframe = 2,
                  TotalProcessedSimulationTime = 2, RemainingAllowedSimulationTime = 0,
                  SimulationTimeBuffer = \<lparr>BufferSize = 4, HeadKeyframe = 2, Elements = [2, 1, 0]\<rparr>\<rparr>,
      Buffers = \<lparr>Input = \<lparr>BufferSize = 4, HeadKeyframe = 2, Elements = [(1, 20), (1, 10), (0, 0)]\<rparr>,
                 Sync = \<lparr>BufferSize = 4, HeadKeyframe = 2, Elements = [130, 110, 100]\<rparr>,
                 Aux = \<lparr>BufferSize = 4, HeadKeyframe = - 1, Elements = []\<rparr>,
                 DebugBuf = \<lparr>BufferSize = 0, HeadKeyframe = - 1, Elements = []\<rparr>\<rparr>,
      RepProxies = (), HistoricBuffers = None,
      Events = [Call_InitSyncState,
                Call_Update 1 (1 / 1000) (1, 10) 100 0,
                Call_Update 2 (1 / 1000) (1, 20) 110 0]\<rparr>"

definition example_half :: "(int \<times> int, int, int, nat, unit) TNetworkedSimulationModel" where
  "example_half =
     \<lparr>Driver = 1,
      TickInfo = \<lparr>LastProcessedInputKeyframe = 1, MaxAllowedInputKeyframe = 2,
                  TotalProcessedSimulationTime = 1, RemainingAllowedSimulationTime = 0,
                  SimulationTimeBuffer = \<lparr>BufferSize = 2, HeadKeyframe = 1, Elements = [1, 0]\<rparr>\<rparr>,
      Buffers = \<lparr>Input = \<lparr>BufferSize = 4, HeadKeyframe = 2, Elements = [(1, 20), (1, 10), (0, 0)]\<rparr>,
                 Sync = \<lparr>BufferSize = 2, HeadKeyframe = 1, Elements = [110, 100]\<rparr>,
                 Aux = \<lparr>BufferSize = 4, HeadKeyframe = - 1, Elements = []\<rparr>,
                 DebugBuf = \<lparr>BufferSize = 0, HeadKeyframe = - 1, Elements = []\<rparr>\<rparr>,
      RepProxies = (), HistoricBuffers = None,
      Events = [Call_InitSyncState, Call_Update 1 (1 / 1000) (1, 10) 100 0]\<rparr>"

definition example_half_refilled :: "(int \<times> int, int, int, nat, unit) TNetworkedSimulationModel" where
  "example_half_refilled =
     example_half\<lparr>TickInfo := (TickInfo example_half)\<lparr>RemainingAllowedSimulationTime := 1\<rparr>\<rparr>"

definition example_half_done :: "(int \<times> int, int, int, nat, unit) TNetworkedSimulationModel" where
  "example_half_done =
     \<lparr>Driver = 2,
      TickInfo = \<lparr>LastProcessedInputKeyframe = 2, MaxAllowedInputKeyframe = 2,
                  TotalProcessedSimulationTime = 2, RemainingAllowedSimulationTime = 0,
                  SimulationTimeBuffer = \<lparr>BufferSize = 2, HeadKeyframe = 2, Elements = [2, 1]\<rparr>\<rparr>,
      Buffers = \<lparr>Input = \<lparr>BufferSize = 4, HeadKeyframe = 2, Elements = [(1, 20), (1, 10), (0, 0)]\<rparr>,
                 Sync = \<lparr>BufferSize = 2, HeadKeyframe = 2, Elements = [130, 110]\<rparr>,
                 Aux = \<lparr>BufferSize = 4, HeadKeyframe = - 1, Elements = []\<rparr>,
                 DebugBuf = \<lparr>BufferSize = 0, HeadKeyframe = - 1, Elements = []\<rparr>\<rparr>,
      RepProxies = (), HistoricBuffers = None,
      Events = [Call_InitSyncState,
                Call_Update 1 (1 / 1000) (1, 10) 100 0,
                Call_Update 2 (1 / 1000) (1, 20) 110 0]\<rparr>"

definition example_break_done :: "(int \<times> int, int, int, nat, unit) TNetworkedSimulationModel" where
  "example_break_done =
     \<lparr>Driver = 6,
      TickInfo = \<lparr>LastProcessedInputKeyframe = 6, MaxAllowedInputKeyframe = 6,
                  TotalProcessedSimulationTime = 6, RemainingAllowedSimulationTime = 0,
                  SimulationTimeBuffer = \<lparr>BufferSize = 4, HeadKeyframe = 6, Elements = [6, 5]\<rparr>\<rparr>,
      Buffers = \<lparr>Input = \<lparr>BufferSize = 4, HeadKeyframe = 6,
                          Elements = [(1, 60), (1, 50), (1, 40), (1, 30)]\<rparr>,
                 Sync = \<lparr>BufferSize = 4, HeadKeyframe = 6, Elements = [160, 100]\<rparr>,
                 Aux = \<lparr>BufferSize = 4, HeadKeyframe = - 1, Elements = []\<rparr>,
                 DebugBuf = \<lparr>BufferSize = 0, HeadKeyframe = - 1, Elements = []\<rparr>\<rparr>,
      RepProxies = (), HistoricBuffers = None,
      Events = [Log_Warning ''sim'' 5 0, Call_InitSyncState,
                Call_Update 6 (1 / 1000) (1, 60) 100 0]\<rparr>"

text \<open>
  A whole run: a new model is initialised with buffers of two elements and ticked three
  times as the autonomous proxy. \<open>example_ticked n\<close> is the state after \<open>n\<close> ticks.
\<close>

definition example_ticked :: "nat \<Rightarrow> (int \<times> int, int, int, nat, unit) TNetworkedSimulationModel" where
  "example_ticked n =
     \<lparr>Driver = n,
      TickInfo = \<lparr>LastProcessedInputKeyframe = int n, MaxAllowedInputKeyframe = int n,
                  TotalProcessedSimulationTime = int n, RemainingAllowedSimulationTime = 0,
                  SimulationTimeBuffer =
                    (if n = 0 then \<lparr>BufferSize = 2, HeadKeyframe = - 1, Elements = []\<rparr>
                     else \<lparr>BufferSize = 2, HeadKeyframe = int n, Elements = [int n, int n - 1]\<rparr>)\<rparr>,
      Buffers = \<lparr>Input =
                   (if n = 0 then \<lparr>BufferSize = 2, HeadKeyframe = 0, Elements = [(0, 0)]\<rparr>
                    else \<lparr>BufferSize = 2, HeadKeyframe = int n,
                           Elements = [example_inputs (int n), example_inputs (int n - 1)]\<rparr>),
                 Sync =
                   (if n = 0 then \<lparr>BufferSize = 2, HeadKeyframe = - 1, Elements = []\<rparr>
                    else \<lparr>BufferSize = 2, HeadKeyframe = int n,
                           Elements = [100 + 5 * int n * (int n + 1), 100 + 5 * (int n - 1) * int n]\<rparr>),
                 Aux = \<lparr>BufferSize = 2, HeadKeyframe = - 1, Elements = []\<rparr>,
                 DebugBuf = \<lparr>BufferSize = 0, HeadKeyframe = - 1, Elements = []\<rparr>\<rparr>,
      RepProxies = (), HistoricBuffers = None,
      Events =
        (if n = 0 then []
         else Call_InitSyncState #
              map (\<lambda>k. Call_Update k (1 / 1000) (example_inputs k) (100 + 5 * (k - 1) * k) 0)
                [1 .. int n])\<rparr>"

subsection \<open>Example stores\<close>

definition heap_after_example_calls :: sim_heap where
  "heap_after_example_calls =
     (\<lambda>x. None)
       (0 \<mapsto> \<lparr>ParentSimulation = None, DependentSimulations = [],
               bDependentSimulationNeedsReconcile = True\<rparr>,
        1 \<mapsto> \<lparr>ParentSimulation = None, DependentSimulations = [2],
               bDependentSimulationNeedsReconcile = True\<rparr>,
        2 \<mapsto> \<lparr>ParentSimulation = Some 1, DependentSimulations = [],
               bDependentSimulationNeedsReconcile = False\<rparr>)"

definition example_calls :: "link_call list" where
  "example_calls =
     [Call_Construct 0, Call_Construct 1, Call_Construct 2,
      Call_SetParentSimulation 1 (Some 0), Call_SetParentSimulation 2 (Some 1),
      Call_ClearAllDependentSimulations 0]"

definition heap_with_cycle :: sim_heap where
  "heap_with_cycle =
     (\<lambda>x. None)
       (0 \<mapsto> \<lparr>ParentSimulation = Some 1, DependentSimulations = [1],
               bDependentSimulationNeedsReconcile = True\<rparr>,
        1 \<mapsto> \<lparr>ParentSimulation = Some 0, DependentSimulations = [0],
               bDependentSimulationNeedsReconcile = True\<rparr>)"

definition heap_with_stray_dependent :: sim_heap where
  "heap_with_stray_dependent =
     (\<lambda>x. None)
       (0 \<mapsto> \<lparr>ParentSimulation = None, DependentSimulations = [1],
               bDependentSimulationNeedsReconcile = True\<rparr>,
        1 \<mapsto> \<lparr>ParentSimulation = None, DependentSimulations = [],
               bDependentSimulationNeedsReconcile = False\<rparr>)"

section \<open>Properties of the RPC pacer\<close>












text \<open>
  The roundings that the closed theorems below need, by evaluation.
\<close>

lemma round32_eval:
  "round32 1 = Finite 1"
  "round32 3 = Finite 3"
  "round32 4 = Finite 4"
  "round32 16777215 = Finite 16777215"
  "round32 16777217 = Finite 16777216"
  "round32 33554431 = Finite 33554432"
  "round32 33554432 = Finite 33554432"
  by code_simp+

lemmas float_eval = round32_eval float_sub_def float_ge_def Let_def

text \<open>
  The default threshold, \<open>1.f / 999.f\<close> rounded to binary32.
\<close>

lemma ServerRPCPacer_default_threshold:
  "ServerRPCThresholdTimeSeconds ServerRPCPacer_default = Finite (8598533 / 2 ^ 33)"
proof -
  have "float_div (Finite 1) (Finite 999) = Finite (8598533 / 2 ^ 33)" by code_simp
  then show ?thesis by (simp add: ServerRPCPacer_default_def)
qed

text \<open>
  Claim C1 (evaluation of the code at the failing input). With the threshold set to
  one second by \<open>SetDesiredServerRPCSendFrequency\<close> at 1 Hz and an empty accumulator, a
  call with \<open>DeltaTimeSeconds = 4\<close> adds all four seconds: it returns true and leaves
  three seconds in the accumulator, where adding the capped value, the minimum 1 of 4
  and 1, would leave zero. Every number involved is a binary32 number, so that no
  operation rounds.
\<close>

theorem ShouldSendServerRPC_adds_uncapped_delta:
  "SetDesiredServerRPCSendFrequency (Finite 1) ServerRPCPacer_default =
     \<lparr>ServerRPCAccumulatedTimeSeconds = Finite 0, ServerRPCThresholdTimeSeconds = Finite 1\<rparr>
   \<and> ShouldSendServerRPC (Finite 4)
       \<lparr>ServerRPCAccumulatedTimeSeconds = Finite 0, ServerRPCThresholdTimeSeconds = Finite 1\<rparr> =
     (True, \<lparr>ServerRPCAccumulatedTimeSeconds = Finite 3, ServerRPCThresholdTimeSeconds = Finite 1\<rparr>)
   \<and> float_sub (float_add (Finite 0) (FMath_Min (Finite 4) (Finite 1))) (Finite 1) \<noteq>
       ServerRPCAccumulatedTimeSeconds
         (snd (ShouldSendServerRPC (Finite 4)
            \<lparr>ServerRPCAccumulatedTimeSeconds = Finite 0, ServerRPCThresholdTimeSeconds = Finite 1\<rparr>))"
  by (simp add: SetDesiredServerRPCSendFrequency_def ServerRPCPacer_default_def
      ShouldSendServerRPC_def FMath_Min_def float_eval)




section \<open>Properties of the dependent-simulation links\<close>

lemma RemoveDependentSimulation_effect:
  assumes "h p \<noteq> None"
  shows "\<exists>h'. RemoveDependentSimulation p s h = Inr h'
          \<and> parent_of h' = parent_of h
          \<and> dependents_of h' = (dependents_of h)(p := removeAll s (dependents_of h p))
          \<and> (\<forall>x. (h' x = None) = (h x = None))"
proof -
  from assms obtain l where l: "h p = Some l" by auto
  let ?h' = "h(p \<mapsto> l\<lparr>DependentSimulations := removeAll s (DependentSimulations l)\<rparr>)"
  have "RemoveDependentSimulation p s h = Inr ?h'"
    using l by (simp add: RemoveDependentSimulation_def)
  moreover have "parent_of ?h' = parent_of h"
    using l by (auto simp: parent_of_def fun_eq_iff)
  moreover have "dependents_of ?h' = (dependents_of h)(p := removeAll s (dependents_of h p))"
    using l by (auto simp: dependents_of_def fun_eq_iff)
  moreover have "\<forall>x. (?h' x = None) = (h x = None)"
    using l by auto
  ultimately show ?thesis by blast
qed

lemma AddDepdentSimulation_effect:
  assumes "h p \<noteq> None" and "s \<notin> set (dependents_of h p)"
  shows "\<exists>h'. AddDepdentSimulation p s h = Inr h'
          \<and> parent_of h' = parent_of h
          \<and> dependents_of h' = (dependents_of h)(p := dependents_of h p @ [s])
          \<and> (\<forall>x. (h' x = None) = (h x = None))"
proof -
  from assms obtain l where l: "h p = Some l" by auto
  let ?h' = "h(p \<mapsto> NotifyDependentSimNeedsReconcile
                       (l\<lparr>DependentSimulations := DependentSimulations l @ [s]\<rparr>))"
  have "s \<notin> set (DependentSimulations l)"
    using assms(2) l by (simp add: dependents_of_def)
  then have "AddDepdentSimulation p s h = Inr ?h'"
    using l by (simp add: AddDepdentSimulation_def)
  moreover have "parent_of ?h' = parent_of h"
    using l by (auto simp: parent_of_def fun_eq_iff NotifyDependentSimNeedsReconcile_def)
  moreover have "dependents_of ?h' = (dependents_of h)(p := dependents_of h p @ [s])"
    using l by (auto simp: dependents_of_def fun_eq_iff NotifyDependentSimNeedsReconcile_def)
  moreover have "\<forall>x. (?h' x = None) = (h x = None)"
    using l by auto
  ultimately show ?thesis by blast
qed

lemma set_parent_field_effect:
  assumes "h s = Some l"
  shows "parent_of (h(s \<mapsto> l\<lparr>ParentSimulation := q\<rparr>)) = (parent_of h)(s := q)
       \<and> dependents_of (h(s \<mapsto> l\<lparr>ParentSimulation := q\<rparr>)) = dependents_of h"
  using assms by (auto simp: parent_of_def dependents_of_def fun_eq_iff)

lemma SetParentSimulation_effect:
  assumes live: "h s \<noteq> None"
    and old: "\<And>p. parent_of h s = Some p \<Longrightarrow> h p \<noteq> None"
    and new: "\<And>p. q = Some p \<Longrightarrow> h p \<noteq> None \<and> s \<notin> set (detach s (parent_of h s) (dependents_of h) p)"
  shows "\<exists>h'. SetParentSimulation s q h = Inr h'
          \<and> parent_of h' = (parent_of h)(s := q)
          \<and> dependents_of h' = attach s q (detach s (parent_of h s) (dependents_of h))
          \<and> (\<forall>x. (h' x = None) = (h x = None))"
proof -
  from live obtain l where l: "h s = Some l" by auto
  have "\<exists>h1. (case ParentSimulation l of None \<Rightarrow> Inr h
                 | Some p \<Rightarrow> RemoveDependentSimulation p s h) = Inr h1
          \<and> parent_of h1 = parent_of h
          \<and> dependents_of h1 = detach s (parent_of h s) (dependents_of h)
          \<and> (\<forall>x. (h1 x = None) = (h x = None))"
  proof (cases "ParentSimulation l")
    case None
    then show ?thesis using l by (simp add: detach_def parent_of_def)
  next
    case (Some p)
    then have "parent_of h s = Some p" using l by (simp add: parent_of_def)
    then show ?thesis
      using RemoveDependentSimulation_effect [where h = h and p = p and s = s] old Some
      by (simp add: detach_def)
  qed
  then obtain h1 where h1: "(case ParentSimulation l of None \<Rightarrow> Inr h
                 | Some p \<Rightarrow> RemoveDependentSimulation p s h) = Inr h1"
      and p1: "parent_of h1 = parent_of h"
      and d1: "dependents_of h1 = detach s (parent_of h s) (dependents_of h)"
      and n1: "\<forall>x. (h1 x = None) = (h x = None)" by blast
  from n1 live have "h1 s \<noteq> None" by simp
  then obtain l1 where l1: "h1 s = Some l1" by blast
  let ?h2 = "h1(s \<mapsto> l1\<lparr>ParentSimulation := q\<rparr>)"
  have p2: "parent_of ?h2 = (parent_of h)(s := q)"
    and d2: "dependents_of ?h2 = detach s (parent_of h s) (dependents_of h)"
    using set_parent_field_effect [where h = h1 and s = s and l = l1 and q = q] l1 p1 d1
    by simp_all
  have n2: "\<forall>x. (?h2 x = None) = (h x = None)" using n1 live by auto
  have unfold: "SetParentSimulation s q h =
      (case q of None \<Rightarrow> Inr ?h2 | Some p \<Rightarrow> AddDepdentSimulation p s ?h2)"
    using l h1 l1 by (simp add: SetParentSimulation_def Let_def)
  show ?thesis
  proof (cases q)
    case None
    then show ?thesis using unfold p2 d2 n2 by (simp add: attach_def)
  next
    case (Some p)
    have "?h2 p \<noteq> None" using new [OF Some] n2 by simp
    moreover have "s \<notin> set (dependents_of ?h2 p)" using new [OF Some] d2 by simp
    ultimately obtain h' where "AddDepdentSimulation p s ?h2 = Inr h'"
      and "parent_of h' = parent_of ?h2"
      and "dependents_of h' = (dependents_of ?h2)(p := dependents_of ?h2 p @ [s])"
      and "\<forall>x. (h' x = None) = (?h2 x = None)"
      using AddDepdentSimulation_effect [where h = ?h2 and p = p and s = s] by blast
    then show ?thesis using unfold Some p2 d2 n2 by (simp add: attach_def)
  qed
qed

lemma symmetric_reattach:
  assumes "\<forall>x p. (x \<in> set (D p)) = (P x = Some p)" and "\<forall>p. distinct (D p)"
  shows "(\<forall>x p. (x \<in> set (attach s q (detach s (P s) D) p)) = ((P(s := q)) x = Some p))
         \<and> (\<forall>p. distinct (attach s q (detach s (P s) D) p))"
  using assms by (auto simp: attach_def detach_def distinct_removeAll split: option.splits)

lemma detach_not_member:
  assumes "\<forall>x p. (x \<in> set (D p)) = (P x = Some p)"
  shows "s \<notin> set (detach s (P s) D p)"
  using assms by (auto simp: detach_def split: option.splits)

lemma symmetric_parent_live:
  assumes "links_symmetric h" and "parent_of h s = Some p"
  shows "h p \<noteq> None" and "h s \<noteq> None"
proof -
  have "s \<in> set (dependents_of h p)" using assms by (simp add: links_symmetric_def)
  then show "h p \<noteq> None" by (cases "h p") (simp_all add: dependents_of_def)
  show "h s \<noteq> None" using assms(2) by (cases "h s") (simp_all add: parent_of_def)
qed

lemma SetParentSimulation_symmetric:
  assumes sym: "links_symmetric h" and live: "h s \<noteq> None"
    and new: "\<And>p. q = Some p \<Longrightarrow> h p \<noteq> None"
  shows "\<exists>h'. SetParentSimulation s q h = Inr h'
          \<and> links_symmetric h'
          \<and> parent_of h' = (parent_of h)(s := q)
          \<and> dependents_of h' = attach s q (detach s (parent_of h s) (dependents_of h))
          \<and> (\<forall>x. (h' x = None) = (h x = None))"
proof -
  have a: "\<forall>x p. (x \<in> set (dependents_of h p)) = (parent_of h x = Some p)"
    and d: "\<forall>p. distinct (dependents_of h p)"
    using sym by (simp_all add: links_symmetric_def)
  have old: "\<And>p. parent_of h s = Some p \<Longrightarrow> h p \<noteq> None"
    using symmetric_parent_live(1) [OF sym] by blast
  have new': "\<And>p. q = Some p \<Longrightarrow>
      h p \<noteq> None \<and> s \<notin> set (detach s (parent_of h s) (dependents_of h) p)"
    using new detach_not_member [OF a] by blast
  obtain h' where r: "SetParentSimulation s q h = Inr h'"
    and p: "parent_of h' = (parent_of h)(s := q)"
    and dd: "dependents_of h' = attach s q (detach s (parent_of h s) (dependents_of h))"
    and n: "\<forall>x. (h' x = None) = (h x = None)"
    using SetParentSimulation_effect [where h = h and s = s and q = q] live old new' by blast
  have "links_symmetric h'"
    unfolding links_symmetric_def p dd
    using symmetric_reattach [OF a d, of s q] by simp
  then show ?thesis using r p dd n by blast
qed

lemma ClearAllDependentSimulations_loop_effect:
  assumes "h this \<noteq> None" and "dependents_of h this = []" and "distinct ds"
    and "\<forall>d \<in> set ds. parent_of h d = Some this"
  shows "\<exists>h'. ClearAllDependentSimulations_loop ds h = Inr h'
          \<and> parent_of h' = (\<lambda>s. if s \<in> set ds then None else parent_of h s)
          \<and> dependents_of h' = dependents_of h
          \<and> (\<forall>x. (h' x = None) = (h x = None))"
  using assms
proof (induction ds arbitrary: h)
  case Nil
  then show ?case by simp
next
  case (Cons d ds)
  have pd: "parent_of h d = Some this" using Cons.prems(4) by simp
  then have ld: "h d \<noteq> None" by (cases "h d") (simp_all add: parent_of_def)
  have old: "\<And>p. parent_of h d = Some p \<Longrightarrow> h p \<noteq> None"
    using pd Cons.prems(1) by simp
  obtain h1 where r1: "SetParentSimulation d None h = Inr h1"
    and p1: "parent_of h1 = (parent_of h)(d := None)"
    and d1: "dependents_of h1 = attach d None (detach d (parent_of h d) (dependents_of h))"
    and n1: "\<forall>x. (h1 x = None) = (h x = None)"
    using SetParentSimulation_effect [where h = h and s = d and q = None] ld old by blast
  have d1': "dependents_of h1 = dependents_of h"
    using d1 pd Cons.prems(2) by (simp add: attach_def detach_def fun_eq_iff)
  have "\<forall>x \<in> set ds. parent_of h1 x = Some this"
    using Cons.prems(3,4) p1 by auto
  moreover have "h1 this \<noteq> None" using n1 Cons.prems(1) by simp
  moreover have "dependents_of h1 this = []" using d1' Cons.prems(2) by simp
  moreover have "distinct ds" using Cons.prems(3) by simp
  ultimately obtain h' where r: "ClearAllDependentSimulations_loop ds h1 = Inr h'"
    and p: "parent_of h' = (\<lambda>s. if s \<in> set ds then None else parent_of h1 s)"
    and dd: "dependents_of h' = dependents_of h1"
    and n: "\<forall>x. (h' x = None) = (h1 x = None)"
    using Cons.IH [of h1] by blast
  have "ClearAllDependentSimulations_loop (d # ds) h = Inr h'" using r1 r by simp
  moreover have "parent_of h' = (\<lambda>s. if s \<in> set (d # ds) then None else parent_of h s)"
    using p p1 by (auto simp: fun_eq_iff)
  moreover have "dependents_of h' = dependents_of h" using dd d1' by simp
  moreover have "\<forall>x. (h' x = None) = (h x = None)" using n n1 by simp
  ultimately show ?case by blast
qed

lemma ClearAllDependentSimulations_symmetric:
  assumes sym: "links_symmetric h" and live: "h this \<noteq> None"
  shows "\<exists>h'. ClearAllDependentSimulations this h = Inr h'
          \<and> links_symmetric h'
          \<and> parent_of h' = (\<lambda>s. if s \<in> set (dependents_of h this) then None else parent_of h s)
          \<and> dependents_of h' = (dependents_of h)(this := [])
          \<and> (\<forall>x. (h' x = None) = (h x = None))"
proof -
  have a: "\<forall>x p. (x \<in> set (dependents_of h p)) = (parent_of h x = Some p)"
    and d: "\<forall>p. distinct (dependents_of h p)"
    using sym by (simp_all add: links_symmetric_def)
  from live obtain l where l: "h this = Some l" by auto
  let ?ds = "DependentSimulations l"
  let ?h1 = "h(this \<mapsto> l\<lparr>DependentSimulations := []\<rparr>)"
  have ds: "dependents_of h this = ?ds" using l by (simp add: dependents_of_def)
  have p1: "parent_of ?h1 = parent_of h" using l by (auto simp: parent_of_def fun_eq_iff)
  have d1: "dependents_of ?h1 = (dependents_of h)(this := [])"
    using l by (auto simp: dependents_of_def fun_eq_iff)
  have n1: "\<forall>x. (?h1 x = None) = (h x = None)" using l by auto
  have "?h1 this \<noteq> None" by simp
  moreover have "dependents_of ?h1 this = []" using d1 by simp
  moreover have "distinct ?ds" using d ds by metis
  moreover have "\<forall>x \<in> set ?ds. parent_of ?h1 x = Some this"
  proof
    fix x assume "x \<in> set ?ds"
    then have "x \<in> set (dependents_of h this)" using ds by simp
    then have "parent_of h x = Some this" using a by blast
    then show "parent_of ?h1 x = Some this" using p1 by simp
  qed
  ultimately obtain h' where r: "ClearAllDependentSimulations_loop ?ds ?h1 = Inr h'"
    and p: "parent_of h' = (\<lambda>s. if s \<in> set ?ds then None else parent_of ?h1 s)"
    and dd: "dependents_of h' = dependents_of ?h1"
    and n: "\<forall>x. (h' x = None) = (?h1 x = None)"
    using ClearAllDependentSimulations_loop_effect [where h = ?h1 and this = this and ds = ?ds]
    by blast
  have r': "ClearAllDependentSimulations this h = Inr h'"
    using l r by (simp add: ClearAllDependentSimulations_def Let_def)
  have p': "parent_of h' = (\<lambda>s. if s \<in> set (dependents_of h this) then None else parent_of h s)"
    by (simp only: p p1 ds)
  have dd': "dependents_of h' = (dependents_of h)(this := [])" by (simp only: dd d1)
  have n': "\<forall>x. (h' x = None) = (h x = None)" using n n1 by simp
  have "(x \<in> set (((dependents_of h)(this := [])) q)) =
        ((if x \<in> set (dependents_of h this) then None else parent_of h x) = Some q)" for x q
    using a by (cases "q = this") auto
  moreover have "distinct (((dependents_of h)(this := [])) q)" for q
    using d by simp
  ultimately have "links_symmetric h'"
    unfolding links_symmetric_def p' dd' by blast
  then show ?thesis using r' p' dd' n' by blast
qed

lemma links_symmetric_cong:
  assumes "parent_of h' = parent_of h" and "dependents_of h' = dependents_of h"
  shows "links_symmetric h' = links_symmetric h"
  using assms by (simp add: links_symmetric_def)

lemma Construct_symmetric:
  assumes "links_symmetric h" and "h s = None"
  shows "\<exists>h'. Construct s h = Inr h' \<and> links_symmetric h'
          \<and> parent_of h' = parent_of h \<and> dependents_of h' = dependents_of h"
proof -
  let ?h' = "h(s \<mapsto> DependentLinks_default)"
  have "Construct s h = Inr ?h'" using assms(2) by (simp add: Construct_def)
  moreover have p: "parent_of ?h' = parent_of h"
    using assms(2) by (auto simp: parent_of_def fun_eq_iff DependentLinks_default_def)
  moreover have d: "dependents_of ?h' = dependents_of h"
    using assms(2) by (auto simp: dependents_of_def fun_eq_iff DependentLinks_default_def)
  ultimately show ?thesis using links_symmetric_cong [OF p d] assms(1) by simp
qed

lemma Destruct_symmetric:
  assumes sym: "links_symmetric h" and live: "h s \<noteq> None"
  shows "\<exists>h'. Destruct s h = Inr h' \<and> links_symmetric h'
          \<and> parent_links h' \<subseteq> parent_links h \<and> h' s = None"
proof -
  obtain h1 where r1: "SetParentSimulation s None h = Inr h1" and s1: "links_symmetric h1"
    and p1: "parent_of h1 = (parent_of h)(s := None)"
    and n1: "\<forall>x. (h1 x = None) = (h x = None)"
    using SetParentSimulation_symmetric [where h = h and s = s and q = None] sym live by blast
  have l1: "h1 s \<noteq> None" using n1 live by simp
  obtain h2 where r2: "ClearAllDependentSimulations s h1 = Inr h2" and s2: "links_symmetric h2"
    and p2: "parent_of h2 = (\<lambda>x. if x \<in> set (dependents_of h1 s) then None else parent_of h1 x)"
    and d2: "dependents_of h2 = (dependents_of h1)(s := [])"
    using ClearAllDependentSimulations_symmetric [OF s1 l1] by blast
  let ?h' = "h2(s := None)"
  have r: "Destruct s h = Inr ?h'" using r1 r2 by (simp add: Destruct_def)
  have ps: "parent_of h2 s = None" using p2 p1 by simp
  have p: "parent_of ?h' = parent_of h2" using ps by (auto simp: parent_of_def fun_eq_iff)
  have d: "dependents_of ?h' = dependents_of h2"
    using d2 by (auto simp: dependents_of_def fun_eq_iff split: option.splits)
  have "links_symmetric ?h'" using links_symmetric_cong [OF p d] s2 by simp
  moreover have "parent_links ?h' \<subseteq> parent_links h"
    unfolding parent_links_def p p2 p1 by (auto split: if_splits)
  ultimately show ?thesis using r by simp
qed

lemma acyclic_reparent:
  assumes "acyclic r" and "(p, s) \<notin> r\<^sup>*" and "r' \<subseteq> insert (s, p) r"
  shows "acyclic r'"
proof -
  have "acyclic (insert (s, p) r)" using assms(1,2) by (simp add: acyclic_insert)
  then show ?thesis using assms(3) by (rule acyclic_subset)
qed

lemma link_call_step_invariant:
  assumes sym: "links_symmetric h" and ok: "call_live h c"
  shows "\<exists>h'. link_call_step c h = Inr h' \<and> links_symmetric h'
          \<and> (acyclic (parent_links h) \<and> call_keeps_tree h c \<longrightarrow> acyclic (parent_links h'))"
proof (cases c)
  case (Call_Construct s)
  then show ?thesis using Construct_symmetric [OF sym, of s] ok
    by (auto simp: parent_links_def)
next
  case (Call_SetParentSimulation s q)
  have live: "h s \<noteq> None" using ok Call_SetParentSimulation by (cases q) simp_all
  have new: "\<And>p. q = Some p \<Longrightarrow> h p \<noteq> None" using ok Call_SetParentSimulation by simp
  obtain h' where r: "SetParentSimulation s q h = Inr h'" and s': "links_symmetric h'"
    and p: "parent_of h' = (parent_of h)(s := q)"
    using SetParentSimulation_symmetric [where h = h and s = s and q = q] sym live new by blast
  have "acyclic (parent_links h')" if ac: "acyclic (parent_links h)" and t: "call_keeps_tree h c"
  proof (cases q)
    case None
    have "parent_links h' \<subseteq> parent_links h"
      unfolding parent_links_def p None by (auto split: if_splits)
    then show ?thesis by (rule acyclic_subset [OF ac])
  next
    case (Some p')
    have nr: "(p', s) \<notin> (parent_links h)\<^sup>*" using t Call_SetParentSimulation Some by simp
    have sub: "parent_links h' \<subseteq> insert (s, p') (parent_links h)"
      unfolding parent_links_def p Some by (auto split: if_splits)
    show ?thesis by (rule acyclic_reparent [OF ac nr sub])
  qed
  then show ?thesis using r s' Call_SetParentSimulation by simp
next
  case (Call_AddDepdentSimulation s d)
  then show ?thesis using ok by simp
next
  case (Call_RemoveDependentSimulation s d)
  then show ?thesis using ok by simp
next
  case (Call_ClearAllDependentSimulations s)
  have live: "h s \<noteq> None" using ok Call_ClearAllDependentSimulations by simp
  obtain h' where r: "ClearAllDependentSimulations s h = Inr h'" and s': "links_symmetric h'"
    and p: "parent_of h' = (\<lambda>x. if x \<in> set (dependents_of h s) then None else parent_of h x)"
    using ClearAllDependentSimulations_symmetric [OF sym live] by blast
  have "parent_links h' \<subseteq> parent_links h"
    unfolding parent_links_def p by (auto split: if_splits)
  then have "acyclic (parent_links h) \<longrightarrow> acyclic (parent_links h')"
    by (simp add: acyclic_subset)
  then show ?thesis using r s' Call_ClearAllDependentSimulations by simp
next
  case (Call_Destruct s)
  have live: "h s \<noteq> None" using ok Call_Destruct by simp
  obtain h' where r: "Destruct s h = Inr h'" and s': "links_symmetric h'"
    and sub: "parent_links h' \<subseteq> parent_links h"
    using Destruct_symmetric [OF sym live] by blast
  have "acyclic (parent_links h) \<longrightarrow> acyclic (parent_links h')"
    using sub by (simp add: acyclic_subset)
  then show ?thesis using r s' Call_Destruct by simp
qed

lemma parent_links_empty: "parent_links (\<lambda>x. None) = {}"
  by (simp add: parent_links_def parent_of_def)

lemma parent_links_upd:
  "parent_links (h(s \<mapsto> l)) =
     (parent_links h - {s} \<times> UNIV) \<union> (case ParentSimulation l of None \<Rightarrow> {} | Some p \<Rightarrow> {(s, p)})"
  by (auto simp: parent_links_def parent_of_def split: option.splits if_splits)

lemmas link_defs =
  Construct_def SetParentSimulation_def AddDepdentSimulation_def
  RemoveDependentSimulation_def DependentLinks_default_def
  NotifyDependentSimNeedsReconcile_def ClearAllDependentSimulations_def Destruct_def

text \<open>
  Claim C2, as amended. Start from a symmetric store (the empty store is one) and make any
  sequence of constructor, \<open>SetParentSimulation\<close>, \<open>ClearAllDependentSimulations\<close> and
  destructor calls on objects that exist, naming existing objects as parents. Then no
  call fails, and afterwards a simulation is in the dependents list of an object if and
  only if its parent link names that object. If moreover the store was acyclic and no
  \<open>SetParentSimulation\<close> call named as parent the simulation itself or one of its
  descendants, the graph is still acyclic.
\<close>

theorem dependent_links_symmetric_after_calls:
  assumes "links_symmetric h" and "calls_ok call_live cs h"
  shows "\<exists>h'. link_calls cs h = Inr h' \<and> links_symmetric h'
          \<and> (acyclic (parent_links h) \<and> calls_ok call_keeps_tree cs h \<longrightarrow> acyclic (parent_links h'))"
  using assms
proof (induction cs arbitrary: h)
  case Nil
  then show ?case by simp
next
  case (Cons c cs)
  have ok: "call_live h c" using Cons.prems(2) by simp
  obtain h1 where r1: "link_call_step c h = Inr h1" and s1: "links_symmetric h1"
    and a1: "acyclic (parent_links h) \<and> call_keeps_tree h c \<longrightarrow> acyclic (parent_links h1)"
    using link_call_step_invariant [OF Cons.prems(1) ok] by blast
  have ok1: "calls_ok call_live cs h1" using Cons.prems(2) r1 by simp
  obtain h' where r: "link_calls cs h1 = Inr h'" and s': "links_symmetric h'"
    and a: "acyclic (parent_links h1) \<and> calls_ok call_keeps_tree cs h1 \<longrightarrow> acyclic (parent_links h')"
    using Cons.IH [OF s1 ok1] by blast
  have "link_calls (c # cs) h = Inr h'" using r1 r by simp
  moreover have "acyclic (parent_links h) \<and> calls_ok call_keeps_tree (c # cs) h
      \<longrightarrow> acyclic (parent_links h')"
    using a1 a r1 by simp
  ultimately show ?case using s' by blast
qed

text \<open>
  Witness for C2 as amended: three simulations are made, the second becomes a dependent of
  the first and the third of the second, and the first drops its dependents.
\<close>

theorem dependent_links_symmetric_after_calls_witness:
  "links_symmetric (\<lambda>x. None)
   \<and> calls_ok call_live example_calls (\<lambda>x. None)
   \<and> acyclic (parent_links (\<lambda>x. None))
   \<and> calls_ok call_keeps_tree example_calls (\<lambda>x. None)
   \<and> link_calls example_calls (\<lambda>x. None) = Inr heap_after_example_calls
   \<and> links_symmetric heap_after_example_calls
   \<and> acyclic (parent_links heap_after_example_calls)"
proof -
  have s0: "links_symmetric (\<lambda>x. None)"
    by (simp add: links_symmetric_def dependents_of_def parent_of_def)
  have a0: "acyclic (parent_links (\<lambda>x. None))"
    by (simp add: parent_links_def parent_of_def wf_acyclic)
  have run: "link_calls example_calls (\<lambda>x. None) = Inr heap_after_example_calls"
    by (auto simp: example_calls_def heap_after_example_calls_def link_defs fun_eq_iff)
  have live: "calls_ok call_live example_calls (\<lambda>x. None)"
    by (simp add: example_calls_def link_defs)
  have d: "{(Suc 0, 0)} - {0} \<times> UNIV = {(Suc 0, 0::nat)}" by auto
  have tree: "calls_ok call_keeps_tree example_calls (\<lambda>x. None)"
    by (simp add: example_calls_def link_defs parent_links_empty parent_links_upd d rtrancl_insert)
  show ?thesis
    using dependent_links_symmetric_after_calls [OF s0 live] s0 a0 run live tree by simp
qed

text \<open>
  Claim C2, as stated, fails twice. Two simulations that are made parent of each other
  by two \<open>SetParentSimulation\<close> calls form a cycle, and nothing in the header refuses the
  second call. A direct call of \<open>AddDepdentSimulation\<close> puts a simulation into a dependents
  list while its parent link stays null.
\<close>

theorem dependent_links_cycle_counterexample:
  "link_calls [Call_Construct 0, Call_Construct 1,
               Call_SetParentSimulation 0 (Some 1), Call_SetParentSimulation 1 (Some 0)]
     (\<lambda>x. None) = Inr heap_with_cycle
   \<and> parent_of heap_with_cycle 0 = Some 1
   \<and> parent_of heap_with_cycle 1 = Some 0
   \<and> \<not> acyclic (parent_links heap_with_cycle)
   \<and> link_calls [Call_Construct 0, Call_Construct 1, Call_AddDepdentSimulation 0 1]
     (\<lambda>x. None) = Inr heap_with_stray_dependent
   \<and> 1 \<in> set (dependents_of heap_with_stray_dependent 0)
   \<and> parent_of heap_with_stray_dependent 1 \<noteq> Some 0
   \<and> \<not> links_symmetric heap_with_stray_dependent"
proof -
  have run1: "link_calls [Call_Construct 0, Call_Construct 1,
               Call_SetParentSimulation 0 (Some 1), Call_SetParentSimulation 1 (Some 0)]
     (\<lambda>x. None) = Inr heap_with_cycle"
    by (auto simp: heap_with_cycle_def link_defs fun_eq_iff)
  have p0: "parent_of heap_with_cycle 0 = Some 1"
    and p1: "parent_of heap_with_cycle 1 = Some 0"
    by (simp_all add: heap_with_cycle_def parent_of_def)
  have "(0, 1) \<in> parent_links heap_with_cycle" and "(1, 0) \<in> parent_links heap_with_cycle"
    using p0 p1 by (simp_all add: parent_links_def)
  then have "(0, 0) \<in> (parent_links heap_with_cycle)\<^sup>+"
    by (rule trancl_into_trancl2 [OF _ r_into_trancl])
  then have cyc: "\<not> acyclic (parent_links heap_with_cycle)"
    by (auto simp: acyclic_def)
  have run2: "link_calls [Call_Construct 0, Call_Construct 1, Call_AddDepdentSimulation 0 1]
     (\<lambda>x. None) = Inr heap_with_stray_dependent"
    by (auto simp: heap_with_stray_dependent_def link_defs fun_eq_iff)
  have d: "1 \<in> set (dependents_of heap_with_stray_dependent 0)"
    by (simp add: heap_with_stray_dependent_def dependents_of_def)
  have q: "parent_of heap_with_stray_dependent 1 \<noteq> Some 0"
    by (simp add: heap_with_stray_dependent_def parent_of_def)
  have "\<not> links_symmetric heap_with_stray_dependent"
    using d q unfolding links_symmetric_def by blast
  then show ?thesis using run1 p0 p1 cyc run2 d q by simp
qed

section \<open>Properties of a tick\<close>

lemma WithDebugState_fields [simp]:
  "Driver (WithDebugState D f st) = Driver st"
  "TickInfo (WithDebugState D f st) = TickInfo st"
  "Events (WithDebugState D f st) = Events st"
  "RepProxies (WithDebugState D f st) = RepProxies st"
  "HistoricBuffers (WithDebugState D f st) = HistoricBuffers st"
  "Input (Buffers (WithDebugState D f st)) = Input (Buffers st)"
  "Sync (Buffers (WithDebugState D f st)) = Sync (Buffers st)"
  "Aux (Buffers (WithDebugState D f st)) = Aux (Buffers st)"
  by (simp_all add: WithDebugState_def split: option.splits)

lemma Tick_UpdateStep_Inr:
  assumes "Tick_UpdateStep env D k cmd st = Inr st1"
  shows "\<exists>prev b ti.
      FindElementByKeyframe (LastProcessedInputKeyframe (TickInfo st)) (Sync (Buffers st)) = Some prev
    \<and> GetWriteNext (snd (Update env (Driver st) (ToRealTimeSeconds env (GetFrameDeltaTime env cmd))
                            cmd prev (TAuxState_default env))) (Sync (Buffers st)) = Some b
    \<and> GetHeadKeyframe b = k
    \<and> IncrementTotalProcessedSimulationTime (GetFrameDeltaTime env cmd) k (TickInfo st) = Some ti
    \<and> Driver st1 = fst (Update env (Driver st) (ToRealTimeSeconds env (GetFrameDeltaTime env cmd))
                            cmd prev (TAuxState_default env))
    \<and> Sync (Buffers st1) = b
    \<and> Input (Buffers st1) = Input (Buffers st)
    \<and> Aux (Buffers st1) = Aux (Buffers st)
    \<and> TickInfo st1 = ti\<lparr>LastProcessedInputKeyframe := k\<rparr>
    \<and> RepProxies st1 = RepProxies st
    \<and> HistoricBuffers st1 = HistoricBuffers st
    \<and> Events st1 = Events st @
         [Call_Update k (ToRealTimeSeconds env (GetFrameDeltaTime env cmd)) cmd prev (TAuxState_default env)]"
  using assms
  by (auto simp: Tick_UpdateStep_def Let_def split: option.splits prod.splits if_splits)

lemma IncrementTotalProcessedSimulationTime_Some:
  assumes "IncrementTotalProcessedSimulationTime d k t = Some ti"
  shows "LastProcessedInputKeyframe ti = LastProcessedInputKeyframe t"
    and "MaxAllowedInputKeyframe ti = MaxAllowedInputKeyframe t"
    and "TotalProcessedSimulationTime ti = TotalProcessedSimulationTime t + d"
    and "RemainingAllowedSimulationTime ti = RemainingAllowedSimulationTime t - d"
    and "GetWriteNext (TotalProcessedSimulationTime t + d)
           (ResetNextHeadKeyframe k (SimulationTimeBuffer t)) = Some (SimulationTimeBuffer ti)"
  using assms
  by (auto simp: IncrementTotalProcessedSimulationTime_def split: option.splits)

lemma Tick_ProcessInput_stops:
  assumes "loop_stops env st"
  shows "Tick_ProcessInput env D st = Inr st"
  using assms
  by (auto simp: loop_stops_def Let_def Tick_ProcessInput.simps [of env D st] split: option.splits)

lemma Tick_ProcessInput_relation:
  assumes run: "Tick_ProcessInput env D st = Inr st'"
    and base: "\<And>s. loop_stops env s \<Longrightarrow> P s s"
    and step: "\<And>s cmd s1 s2.
        LastProcessedInputKeyframe (TickInfo s) + 1 \<le> MaxAllowedInputKeyframe (TickInfo s) \<Longrightarrow>
        FindElementByKeyframe (LastProcessedInputKeyframe (TickInfo s) + 1) (Input (Buffers s)) = Some cmd \<Longrightarrow>
        GetFrameDeltaTime env cmd \<le> GetRemainingAllowedSimulationTime (TickInfo s) \<Longrightarrow>
        Tick_UpdateStep env D (LastProcessedInputKeyframe (TickInfo s) + 1) cmd s = Inr s1 \<Longrightarrow>
        P s1 s2 \<Longrightarrow> P s s2"
  shows "P st st'"
  using run base step
proof (induction env D st rule: Tick_ProcessInput.induct)
  case (1 env D st)
  let ?k = "LastProcessedInputKeyframe (TickInfo st) + 1"
  note run = "1.prems"(1)
  note base = "1.prems"(2)
  note stp = "1.prems"(3)
  show ?case
  proof (cases "?k > MaxAllowedInputKeyframe (TickInfo st)")
    case True
    then have "st' = st" using run by (simp add: Tick_ProcessInput.simps [of env D st])
    moreover have "loop_stops env st" using True by (simp add: loop_stops_def)
    ultimately show ?thesis using base by simp
  next
    case le: False
    show ?thesis
    proof (cases "FindElementByKeyframe ?k (Input (Buffers st))")
      case None
      then have "st' = st" using run le by (simp add: Tick_ProcessInput.simps [of env D st])
      moreover have "loop_stops env st" using None by (simp add: loop_stops_def)
      ultimately show ?thesis using base by simp
    next
      case (Some cmd)
      show ?thesis
      proof (cases "GetFrameDeltaTime env cmd \<le> GetRemainingAllowedSimulationTime (TickInfo st)")
        case False
        then have "st' = st" using run le Some
          by (simp add: Tick_ProcessInput.simps [of env D st])
        moreover have "loop_stops env st" using False Some by (simp add: loop_stops_def)
        ultimately show ?thesis using base by simp
      next
        case True
        from run le Some True obtain s1 where
          s1: "Tick_UpdateStep env D ?k cmd st = Inr s1"
          and rest: "Tick_ProcessInput env D s1 = Inr st'"
          by (auto simp: Tick_ProcessInput.simps [of env D st] split: sum.splits)
        have p: "P s1 st'"
          by (rule "1.IH" [OF refl le Some True s1 rest base stp])
        have le': "?k \<le> MaxAllowedInputKeyframe (TickInfo st)" using le by simp
        show ?thesis by (rule stp [OF le' Some True s1 p])
      qed
    qed
  qed
qed

lemma update_keyframes_append [simp]:
  "update_keyframes (xs @ ys) = update_keyframes xs @ update_keyframes ys"
  by (induction xs rule: update_keyframes.induct) simp_all

lemma Tick_UpdateStep_effect:
  assumes "Tick_UpdateStep env D k cmd st = Inr st1"
  shows "LastProcessedInputKeyframe (TickInfo st1) = k"
    and "MaxAllowedInputKeyframe (TickInfo st1) = MaxAllowedInputKeyframe (TickInfo st)"
    and "TotalProcessedSimulationTime (TickInfo st1) =
           TotalProcessedSimulationTime (TickInfo st) + GetFrameDeltaTime env cmd"
    and "RemainingAllowedSimulationTime (TickInfo st1) =
           RemainingAllowedSimulationTime (TickInfo st) - GetFrameDeltaTime env cmd"
    and "Input (Buffers st1) = Input (Buffers st)"
    and "Aux (Buffers st1) = Aux (Buffers st)"
    and "\<exists>prev. FindElementByKeyframe (LastProcessedInputKeyframe (TickInfo st)) (Sync (Buffers st)) = Some prev
          \<and> Events st1 = Events st @
               [Call_Update k (ToRealTimeSeconds env (GetFrameDeltaTime env cmd)) cmd prev
                  (TAuxState_default env)]
          \<and> GetWriteNext (snd (Update env (Driver st) (ToRealTimeSeconds env (GetFrameDeltaTime env cmd))
                            cmd prev (TAuxState_default env))) (Sync (Buffers st))
              = Some (Sync (Buffers st1))"
    and "GetHeadKeyframe (Sync (Buffers st1)) = k"
proof -
  from Tick_UpdateStep_Inr [OF assms] obtain prev b ti where
    f: "FindElementByKeyframe (LastProcessedInputKeyframe (TickInfo st)) (Sync (Buffers st)) = Some prev"
    and w: "GetWriteNext (snd (Update env (Driver st) (ToRealTimeSeconds env (GetFrameDeltaTime env cmd))
                            cmd prev (TAuxState_default env))) (Sync (Buffers st)) = Some b"
    and h: "GetHeadKeyframe b = k"
    and i: "IncrementTotalProcessedSimulationTime (GetFrameDeltaTime env cmd) k (TickInfo st) = Some ti"
    and sy: "Sync (Buffers st1) = b"
    and inp: "Input (Buffers st1) = Input (Buffers st)"
    and aux: "Aux (Buffers st1) = Aux (Buffers st)"
    and t: "TickInfo st1 = ti\<lparr>LastProcessedInputKeyframe := k\<rparr>"
    and ev: "Events st1 = Events st @
         [Call_Update k (ToRealTimeSeconds env (GetFrameDeltaTime env cmd)) cmd prev (TAuxState_default env)]"
    by blast
  note inc = IncrementTotalProcessedSimulationTime_Some [OF i]
  show "LastProcessedInputKeyframe (TickInfo st1) = k" using t by simp
  show "MaxAllowedInputKeyframe (TickInfo st1) = MaxAllowedInputKeyframe (TickInfo st)"
    using t inc(2) by simp
  show "TotalProcessedSimulationTime (TickInfo st1) =
           TotalProcessedSimulationTime (TickInfo st) + GetFrameDeltaTime env cmd"
    using t inc(3) by simp
  show "RemainingAllowedSimulationTime (TickInfo st1) =
           RemainingAllowedSimulationTime (TickInfo st) - GetFrameDeltaTime env cmd"
    using t inc(4) by simp
  show "Input (Buffers st1) = Input (Buffers st)" by (rule inp)
  show "Aux (Buffers st1) = Aux (Buffers st)" by (rule aux)
  show "\<exists>prev. FindElementByKeyframe (LastProcessedInputKeyframe (TickInfo st)) (Sync (Buffers st)) = Some prev
          \<and> Events st1 = Events st @
               [Call_Update k (ToRealTimeSeconds env (GetFrameDeltaTime env cmd)) cmd prev
                  (TAuxState_default env)]
          \<and> GetWriteNext (snd (Update env (Driver st) (ToRealTimeSeconds env (GetFrameDeltaTime env cmd))
                            cmd prev (TAuxState_default env))) (Sync (Buffers st))
              = Some (Sync (Buffers st1))"
    using f ev w sy by simp
  show "GetHeadKeyframe (Sync (Buffers st1)) = k" using h sy by simp
qed

lemma consumed_in_order_refl: "consumed_in_order s s"
  by (auto simp: consumed_in_order_def)

lemma consumed_in_order_step:
  assumes le: "LastProcessedInputKeyframe (TickInfo s) + 1 \<le> MaxAllowedInputKeyframe (TickInfo s)"
    and found: "FindElementByKeyframe (LastProcessedInputKeyframe (TickInfo s) + 1) (Input (Buffers s)) = Some cmd"
    and step: "Tick_UpdateStep env D (LastProcessedInputKeyframe (TickInfo s) + 1) cmd s = Inr s1"
    and rest: "consumed_in_order s1 s2"
  shows "consumed_in_order s s2"
proof -
  let ?lp = "LastProcessedInputKeyframe (TickInfo s)"
  note e = Tick_UpdateStep_effect [OF step]
  from e(7) obtain prev where ev: "Events s1 = Events s @
       [Call_Update (?lp + 1) (ToRealTimeSeconds env (GetFrameDeltaTime env cmd)) cmd prev
          (TAuxState_default env)]" by blast
  have lp1: "LastProcessedInputKeyframe (TickInfo s1) = ?lp + 1" by (rule e(1))
  have r1: "?lp + 1 \<le> LastProcessedInputKeyframe (TickInfo s2)"
    using rest lp1 by (simp add: consumed_in_order_def)
  have up: "[?lp + 1 .. LastProcessedInputKeyframe (TickInfo s2)] =
            (?lp + 1) # [?lp + 1 + 1 .. LastProcessedInputKeyframe (TickInfo s2)]"
    using r1 by (simp add: upto_rec1)
  have k: "update_keyframes (Events s2) = update_keyframes (Events s) @
            [?lp + 1 .. LastProcessedInputKeyframe (TickInfo s2)]"
    using rest lp1 ev up by (simp add: consumed_in_order_def)
  have present: "k \<le> MaxAllowedInputKeyframe (TickInfo s)
                 \<and> FindElementByKeyframe k (Input (Buffers s)) \<noteq> None"
    if "?lp < k" and "k \<le> LastProcessedInputKeyframe (TickInfo s2)" for k
  proof (cases "k = ?lp + 1")
    case True
    then show ?thesis using le found by simp
  next
    case False
    then have "LastProcessedInputKeyframe (TickInfo s1) < k" using that(1) lp1 by simp
    then show ?thesis using rest that(2) e(2) e(5) by (simp add: consumed_in_order_def)
  qed
  show ?thesis
    unfolding consumed_in_order_def
    using r1 rest e(2) e(5) k present by (simp add: consumed_in_order_def)
qed

lemma Tick_ProcessInput_consumed_in_order:
  assumes "Tick_ProcessInput env D st = Inr st'"
  shows "consumed_in_order st st'"
proof (rule Tick_ProcessInput_relation [OF assms, where P = consumed_in_order])
  show "consumed_in_order s s" for s :: "('a, 'b, 'c, 'd, 'e) TNetworkedSimulationModel"
    by (rule consumed_in_order_refl)
next
  fix s :: "('a, 'b, 'c, 'd, 'e) TNetworkedSimulationModel" and cmd s1 s2
  assume "LastProcessedInputKeyframe (TickInfo s) + 1 \<le> MaxAllowedInputKeyframe (TickInfo s)"
    and "FindElementByKeyframe (LastProcessedInputKeyframe (TickInfo s) + 1) (Input (Buffers s)) = Some cmd"
    and "Tick_UpdateStep env D (LastProcessedInputKeyframe (TickInfo s) + 1) cmd s = Inr s1"
    and "consumed_in_order s1 s2"
  then show "consumed_in_order s s2" by (rule consumed_in_order_step)
qed

lemma GetWriteNext_Some:
  assumes "0 < BufferSize b"
  shows "\<exists>b'. GetWriteNext v b = Some b'"
  using assms by (simp add: GetWriteNext_def)

lemma GetWriteNext_effect:
  assumes "GetWriteNext v b = Some b'"
  shows "GetHeadKeyframe b' = GetHeadKeyframe b + 1"
    and "BufferSize b' = BufferSize b"
    and "0 < BufferSize b"
    and "Elements b' \<noteq> []"
    and "FindElementByKeyframe (GetHeadKeyframe b + 1) b' = Some v"
  using assms
  by (auto simp: GetWriteNext_def GetHeadKeyframe_def FindElementByKeyframe_def GetTailKeyframe_def
      take_Cons' split: if_splits)

lemma GetWriteNext_older:
  assumes "GetWriteNext v b = Some b'" and "FindElementByKeyframe k b' = Some x"
    and "k \<le> GetHeadKeyframe b"
  shows "FindElementByKeyframe k b = Some x"
proof -
  let ?n = "BufferSize b"
  let ?h = "HeadKeyframe b"
  have b': "b' = b\<lparr>HeadKeyframe := ?h + 1, Elements := take ?n (v # Elements b)\<rparr>"
    and n: "0 < ?n"
    using assms(1) by (auto simp: GetWriteNext_def split: if_splits)
  have kh: "k \<le> ?h" using assms(3) by (simp add: GetHeadKeyframe_def)
  have len: "length (Elements b') = min ?n (Suc (length (Elements b)))" using b' by simp
  have tail: "?h + 1 - int (length (Elements b')) + 1 \<le> k"
    and x: "x = Elements b' ! nat (?h + 1 - k)"
    using assms(2) b' by (auto simp: FindElementByKeyframe_def GetTailKeyframe_def split: if_splits)
  have idx: "nat (?h + 1 - k) < length (Elements b')" using tail kh by linarith
  have suc: "nat (?h + 1 - k) = Suc (nat (?h - k))" using kh by linarith
  have "Elements b' ! nat (?h + 1 - k) = (v # Elements b) ! nat (?h + 1 - k)"
    using idx b' by simp
  also have "\<dots> = Elements b ! nat (?h - k)" using suc by simp
  finally have x': "x = Elements b ! nat (?h - k)" using x by simp
  have "nat (?h - k) < length (Elements b)" using idx suc len by linarith
  then have "?h - int (length (Elements b)) + 1 \<le> k" using kh by linarith
  then show ?thesis using kh x' by (simp add: FindElementByKeyframe_def GetTailKeyframe_def)
qed

lemma GetWriteNext_find:
  assumes "GetWriteNext v b = Some b'" and "FindElementByKeyframe k b' = Some x"
  shows "(k = GetHeadKeyframe b + 1 \<and> x = v) \<or> (k \<le> GetHeadKeyframe b \<and> FindElementByKeyframe k b = Some x)"
proof (cases "k \<le> GetHeadKeyframe b")
  case True
  then show ?thesis using GetWriteNext_older [OF assms True] by simp
next
  case False
  have "k \<le> HeadKeyframe b'" using assms(2) by (auto simp: FindElementByKeyframe_def split: if_splits)
  then have "k = GetHeadKeyframe b + 1"
    using False GetWriteNext_effect(1) [OF assms(1)] by (simp add: GetHeadKeyframe_def)
  then show ?thesis using assms(2) GetWriteNext_effect(5) [OF assms(1), of ] by simp
qed

lemma ResetNextHeadKeyframe_effect:
  shows "GetHeadKeyframe (ResetNextHeadKeyframe k b) = k - 1"
    and "BufferSize (ResetNextHeadKeyframe k b) = BufferSize b"
  by (simp_all add: ResetNextHeadKeyframe_def GetHeadKeyframe_def)

lemma ResetNextHeadKeyframe_find:
  assumes "FindElementByKeyframe j (ResetNextHeadKeyframe k b) = Some x"
  shows "j < k \<and> FindElementByKeyframe j b = Some x"
proof -
  let ?h = "HeadKeyframe b"
  let ?b = "ResetNextHeadKeyframe k b"
  have jk: "j \<le> k - 1" and tail: "k - 1 - int (length (Elements ?b)) + 1 \<le> j"
    and x: "x = Elements ?b ! nat (k - 1 - j)"
    using assms
    by (auto simp: FindElementByKeyframe_def GetTailKeyframe_def ResetNextHeadKeyframe_def
        split: if_splits)
  have ne: "Elements ?b \<noteq> []" using jk tail by auto
  then have kh: "k - 1 \<le> ?h" by (auto simp: ResetNextHeadKeyframe_def split: if_splits)
  then have els: "Elements ?b = drop (nat (?h - (k - 1))) (Elements b)"
    by (simp add: ResetNextHeadKeyframe_def)
  have idx: "nat (k - 1 - j) < length (Elements ?b)" using tail jk by linarith
  then have idx': "nat (?h - (k - 1)) + nat (k - 1 - j) < length (Elements b)"
    using els by simp
  have "Elements ?b ! nat (k - 1 - j) = Elements b ! (nat (?h - (k - 1)) + nat (k - 1 - j))"
    using els idx' by simp
  moreover have "nat (?h - (k - 1)) + nat (k - 1 - j) = nat (?h - j)" using kh jk by linarith
  ultimately have "x = Elements b ! nat (?h - j)" using x by simp
  moreover have "nat (?h - j) < length (Elements b)"
    using idx' \<open>nat (?h - (k - 1)) + nat (k - 1 - j) = nat (?h - j)\<close> by simp
  ultimately show ?thesis
    using jk kh by (auto simp: FindElementByKeyframe_def GetTailKeyframe_def)
qed

lemma SetTotalProcessedSimulationTime_Some:
  assumes "SetTotalProcessedSimulationTime t k ti = Some ti'"
  shows "LastProcessedInputKeyframe ti' = LastProcessedInputKeyframe ti"
    and "MaxAllowedInputKeyframe ti' = MaxAllowedInputKeyframe ti"
    and "TotalProcessedSimulationTime ti' = t"
    and "RemainingAllowedSimulationTime ti' = RemainingAllowedSimulationTime ti"
    and "GetWriteNext t (ResetNextHeadKeyframe k (SimulationTimeBuffer ti)) = Some (SimulationTimeBuffer ti')"
  using assms
  by (auto simp: SetTotalProcessedSimulationTime_def split: option.splits)

lemma stamp_written:
  assumes "GetWriteNext t (ResetNextHeadKeyframe k b) = Some b'"
  shows "FindElementByKeyframe k b' = Some t" and "GetHeadKeyframe b' = k"
    and "BufferSize b' = BufferSize b"
  using GetWriteNext_effect [OF assms] ResetNextHeadKeyframe_effect [of k b] by simp_all

lemma Tick_ResetSyncState_effect:
  assumes sz: "0 < BufferSize (Sync (Buffers st))"
    and tz: "0 < BufferSize (SimulationTimeBuffer (TickInfo st))"
  shows "\<exists>st1. Tick_ResetSyncState env st = Inr st1
      \<and> Events st1 = Events st @
           (if LastProcessedInputKeyframe (TickInfo st) \<noteq> 0
            then [Log_Warning (GetDebugName env (Driver st)) (LastProcessedInputKeyframe (TickInfo st))
                    (GetHeadKeyframe (Sync (Buffers st)))]
            else []) @ [Call_InitSyncState]
      \<and> GetWriteNext (InitSyncState env (Driver st))
            (ResetNextHeadKeyframe (LastProcessedInputKeyframe (TickInfo st)) (Sync (Buffers st)))
          = Some (Sync (Buffers st1))
      \<and> SetTotalProcessedSimulationTime (TotalProcessedSimulationTime (TickInfo st))
            (LastProcessedInputKeyframe (TickInfo st)) (TickInfo st) = Some (TickInfo st1)
      \<and> Input (Buffers st1) = Input (Buffers st)
      \<and> Aux (Buffers st1) = Aux (Buffers st)
      \<and> DebugBuf (Buffers st1) = DebugBuf (Buffers st)
      \<and> Driver st1 = Driver st
      \<and> RepProxies st1 = RepProxies st
      \<and> HistoricBuffers st1 = HistoricBuffers st"
proof -
  let ?lp = "LastProcessedInputKeyframe (TickInfo st)"
  let ?r = "ResetNextHeadKeyframe ?lp (Sync (Buffers st))"
  have "0 < BufferSize ?r" using sz by (simp add: ResetNextHeadKeyframe_effect)
  then obtain b where b: "GetWriteNext (InitSyncState env (Driver st)) ?r = Some b"
    by (auto simp: GetWriteNext_def)
  have hb: "GetHeadKeyframe b = ?lp"
    using GetWriteNext_effect(1) [OF b] by (simp add: ResetNextHeadKeyframe_effect)
  have "0 < BufferSize (ResetNextHeadKeyframe ?lp (SimulationTimeBuffer (TickInfo st)))"
    using tz by (simp add: ResetNextHeadKeyframe_effect)
  then obtain tb where tb: "GetWriteNext (TotalProcessedSimulationTime (TickInfo st))
      (ResetNextHeadKeyframe ?lp (SimulationTimeBuffer (TickInfo st))) = Some tb"
    by (auto simp: GetWriteNext_def)
  show ?thesis
  proof (cases "?lp = 0")
    case True
    have b0: "GetWriteNext (InitSyncState env (Driver st)) (ResetNextHeadKeyframe 0 (Sync (Buffers st))) = Some b"
      and tb0: "GetWriteNext (TotalProcessedSimulationTime (TickInfo st))
                 (ResetNextHeadKeyframe 0 (SimulationTimeBuffer (TickInfo st))) = Some tb"
      and hb0: "GetHeadKeyframe b = 0"
      using b tb hb True by simp_all
    show ?thesis
      using True b0 hb0 tb0
      by (simp add: Tick_ResetSyncState_def Let_def SetTotalProcessedSimulationTime_def
          GetTotalProcessedSimulationTime_def)
  next
    case False
    show ?thesis
      using False b hb tb
      by (simp add: Tick_ResetSyncState_def Let_def SetTotalProcessedSimulationTime_def
          GetTotalProcessedSimulationTime_def)
  qed
qed

lemma Tick_ResetSyncState_aligned:
  assumes "Tick_ResetSyncState env st = Inr st1"
  shows "SyncAligned st1
       \<and> LastProcessedInputKeyframe (TickInfo st1) = LastProcessedInputKeyframe (TickInfo st)
       \<and> MaxAllowedInputKeyframe (TickInfo st1) = MaxAllowedInputKeyframe (TickInfo st)
       \<and> TotalProcessedSimulationTime (TickInfo st1) = TotalProcessedSimulationTime (TickInfo st)
       \<and> RemainingAllowedSimulationTime (TickInfo st1) = RemainingAllowedSimulationTime (TickInfo st)
       \<and> FindElementByKeyframe (LastProcessedInputKeyframe (TickInfo st)) (Sync (Buffers st1))
            = Some (InitSyncState env (Driver st))
       \<and> FindElementByKeyframe (LastProcessedInputKeyframe (TickInfo st))
            (SimulationTimeBuffer (TickInfo st1)) = Some (TotalProcessedSimulationTime (TickInfo st))"
proof -
  let ?lp = "LastProcessedInputKeyframe (TickInfo st)"
  from assms obtain b ti where
    b: "GetWriteNext (InitSyncState env (Driver st)) (ResetNextHeadKeyframe ?lp (Sync (Buffers st))) = Some b"
    and ti: "SetTotalProcessedSimulationTime (TotalProcessedSimulationTime (TickInfo st))
               (GetHeadKeyframe b) (TickInfo st) = Some ti"
    and sy: "Sync (Buffers st1) = b" and t1: "TickInfo st1 = ti"
    by (auto simp: Tick_ResetSyncState_def Let_def GetTotalProcessedSimulationTime_def
        split: option.splits if_splits)
  note wb = stamp_written [OF b]
  note st = SetTotalProcessedSimulationTime_Some [OF ti]
  note ws = stamp_written [OF st(5)]
  have "0 < BufferSize b" using GetWriteNext_effect(2,3) [OF b] by simp
  moreover have "0 < BufferSize (SimulationTimeBuffer ti)"
    using GetWriteNext_effect(2,3) [OF st(5)] by simp
  ultimately have "SyncAligned st1"
    using wb st(1) sy t1 by (simp add: SyncAligned_def)
  then show ?thesis using wb ws st sy t1 by simp
qed

lemma Tick_UpdateStep_aligned:
  assumes al: "SyncAligned st"
  shows "\<exists>st1. Tick_UpdateStep env D (LastProcessedInputKeyframe (TickInfo st) + 1) cmd st = Inr st1
               \<and> SyncAligned st1"
proof -
  let ?lp = "LastProcessedInputKeyframe (TickInfo st)"
  from al obtain prev where prev: "FindElementByKeyframe ?lp (Sync (Buffers st)) = Some prev"
    by (auto simp: SyncAligned_def)
  let ?u = "Update env (Driver st) (ToRealTimeSeconds env (GetFrameDeltaTime env cmd))
                            cmd prev (TAuxState_default env)"
  let ?next = "snd ?u"
  obtain d1 n1 where u: "?u = (d1, n1)" by (cases ?u)
  have "0 < BufferSize (Sync (Buffers st))" using al by (simp add: SyncAligned_def)
  then obtain b where b: "GetWriteNext ?next (Sync (Buffers st)) = Some b"
    by (auto simp: GetWriteNext_def)
  have hb: "GetHeadKeyframe b = ?lp + 1"
    using GetWriteNext_effect(1) [OF b] al by (simp add: SyncAligned_def)
  have "0 < BufferSize (ResetNextHeadKeyframe (?lp + 1) (SimulationTimeBuffer (TickInfo st)))"
    using al by (simp add: ResetNextHeadKeyframe_effect SyncAligned_def)
  then obtain tb where tb: "GetWriteNext (TotalProcessedSimulationTime (TickInfo st) + GetFrameDeltaTime env cmd)
      (ResetNextHeadKeyframe (?lp + 1) (SimulationTimeBuffer (TickInfo st))) = Some tb"
    by (auto simp: GetWriteNext_def)
  have b1: "GetWriteNext n1 (Sync (Buffers st)) = Some b" using b u by simp
  obtain st1 where r: "Tick_UpdateStep env D (?lp + 1) cmd st = Inr st1"
    using prev u b1 hb tb
    by (simp add: Tick_UpdateStep_def Let_def IncrementTotalProcessedSimulationTime_def)
  from Tick_UpdateStep_Inr [OF r] prev b obtain ti where
    i: "IncrementTotalProcessedSimulationTime (GetFrameDeltaTime env cmd) (?lp + 1) (TickInfo st) = Some ti"
    and sy: "Sync (Buffers st1) = b"
    and t1: "TickInfo st1 = ti\<lparr>LastProcessedInputKeyframe := ?lp + 1\<rparr>"
    by auto
  note inc = IncrementTotalProcessedSimulationTime_Some [OF i]
  have "0 < BufferSize b" using GetWriteNext_effect(2,3) [OF b] by simp
  moreover have "0 < BufferSize (SimulationTimeBuffer ti)"
    using GetWriteNext_effect(2,3) [OF inc(5)] by simp
  moreover have "FindElementByKeyframe (?lp + 1) b = Some ?next"
    using GetWriteNext_effect(5) [OF b] al by (simp add: SyncAligned_def)
  ultimately have "SyncAligned st1"
    using hb sy t1 by (simp add: SyncAligned_def)
  then show ?thesis using r by blast
qed

lemma Tick_ProcessInput_aligned:
  assumes "SyncAligned st"
  shows "\<exists>st'. Tick_ProcessInput env D st = Inr st' \<and> SyncAligned st'"
  using assms
proof (induction env D st rule: Tick_ProcessInput.induct)
  case (1 env D st)
  let ?k = "LastProcessedInputKeyframe (TickInfo st) + 1"
  show ?case
  proof (cases "loop_stops env st")
    case True
    then show ?thesis using Tick_ProcessInput_stops [OF True] "1.prems" by simp
  next
    case False
    then obtain cmd where le: "\<not> MaxAllowedInputKeyframe (TickInfo st) < ?k"
      and found: "FindElementByKeyframe ?k (Input (Buffers st)) = Some cmd"
      and budget: "GetFrameDeltaTime env cmd \<le> GetRemainingAllowedSimulationTime (TickInfo st)"
      by (auto simp: loop_stops_def Let_def split: option.splits)
    obtain s1 where s1: "Tick_UpdateStep env D ?k cmd st = Inr s1" and a1: "SyncAligned s1"
      using Tick_UpdateStep_aligned [OF "1.prems"] by blast
    obtain st' where "Tick_ProcessInput env D s1 = Inr st'" and "SyncAligned st'"
      using "1.IH" [OF refl le found budget s1 a1] by blast
    then show ?thesis
      using le found budget s1 by (simp add: Tick_ProcessInput.simps [of env D st])
  qed
qed

lemma Tick_ResetSyncState_sizes:
  assumes "Tick_ResetSyncState env st = Inr st1"
  shows "0 < BufferSize (Sync (Buffers st))"
    and "0 < BufferSize (SimulationTimeBuffer (TickInfo st))"
  using assms
  by (auto simp: Tick_ResetSyncState_def Let_def GetWriteNext_def ResetNextHeadKeyframe_def
      SetTotalProcessedSimulationTime_def split: option.splits if_splits)

lemma Tick_ResetSyncState_Inr:
  assumes r: "Tick_ResetSyncState env st = Inr st1"
  shows "Events st1 = Events st @
           (if LastProcessedInputKeyframe (TickInfo st) \<noteq> 0
            then [Log_Warning (GetDebugName env (Driver st)) (LastProcessedInputKeyframe (TickInfo st))
                    (GetHeadKeyframe (Sync (Buffers st)))]
            else []) @ [Call_InitSyncState]"
    and "GetWriteNext (InitSyncState env (Driver st))
            (ResetNextHeadKeyframe (LastProcessedInputKeyframe (TickInfo st)) (Sync (Buffers st)))
          = Some (Sync (Buffers st1))"
    and "SetTotalProcessedSimulationTime (TotalProcessedSimulationTime (TickInfo st))
            (LastProcessedInputKeyframe (TickInfo st)) (TickInfo st) = Some (TickInfo st1)"
    and "Input (Buffers st1) = Input (Buffers st)"
    and "Aux (Buffers st1) = Aux (Buffers st)"
    and "Driver st1 = Driver st"
  using Tick_ResetSyncState_effect [OF Tick_ResetSyncState_sizes [OF r], of env] r by auto

lemma Tick_ResetSyncState_consumed_in_order:
  assumes r: "Tick_ResetSyncState env st = Inr st1"
  shows "consumed_in_order st st1"
  using Tick_ResetSyncState_Inr(1,4) [OF r] Tick_ResetSyncState_aligned [OF r]
  by (auto simp: consumed_in_order_def)

lemma upto_after_split:
  assumes "(a::int) \<le> b" and "b \<le> c"
  shows "[a + 1 .. c] = [a + 1 .. b] @ [b + 1 .. c]"
proof (cases "a = b")
  case True
  then show ?thesis by simp
next
  case False
  then have "a + 1 \<le> b" using assms(1) by simp
  then show ?thesis using assms(2) by (rule upto_split2)
qed

lemma consumed_in_order_trans:
  assumes "consumed_in_order a b" and "consumed_in_order b c"
  shows "consumed_in_order a c"
proof -
  let ?a = "LastProcessedInputKeyframe (TickInfo a)"
  let ?b = "LastProcessedInputKeyframe (TickInfo b)"
  let ?c = "LastProcessedInputKeyframe (TickInfo c)"
  have ab: "?a \<le> ?b" and bc: "?b \<le> ?c"
    using assms by (simp_all add: consumed_in_order_def)
  have up: "[?a + 1 .. ?c] = [?a + 1 .. ?b] @ [?b + 1 .. ?c]"
    using ab bc by (rule upto_after_split)
  have present: "k \<le> MaxAllowedInputKeyframe (TickInfo a)
                 \<and> FindElementByKeyframe k (Input (Buffers a)) \<noteq> None"
    if "?a < k" and "k \<le> ?c" for k
  proof (cases "k \<le> ?b")
    case True
    then show ?thesis using assms(1) that(1) unfolding consumed_in_order_def by blast
  next
    case False
    then have "?b < k" by simp
    then have "k \<le> MaxAllowedInputKeyframe (TickInfo b)
                 \<and> FindElementByKeyframe k (Input (Buffers b)) \<noteq> None"
      using assms(2) that(2) unfolding consumed_in_order_def by blast
    then show ?thesis using assms(1) by (simp add: consumed_in_order_def)
  qed
  have "update_keyframes (Events c) = update_keyframes (Events a) @ [?a + 1 .. ?c]"
    using assms up by (simp add: consumed_in_order_def)
  moreover have "Input (Buffers c) = Input (Buffers a)"
    and "MaxAllowedInputKeyframe (TickInfo c) = MaxAllowedInputKeyframe (TickInfo a)"
    using assms by (simp_all add: consumed_in_order_def)
  ultimately show ?thesis
    using ab bc present unfolding consumed_in_order_def by auto
qed

lemma Tick_InputProcessing_cases:
  assumes "Tick_InputProcessing env D st = Inr st'"
  shows "(\<not> GetHeadKeyframe (Input (Buffers st)) > GetHeadKeyframe (Sync (Buffers st)) \<and> st' = st)
       \<or> (GetHeadKeyframe (Input (Buffers st)) > GetHeadKeyframe (Sync (Buffers st))
           \<and> GetHeadKeyframe (Sync (Buffers st)) = LastProcessedInputKeyframe (TickInfo st)
           \<and> Tick_ProcessInput env D st = Inr st')
       \<or> (GetHeadKeyframe (Input (Buffers st)) > GetHeadKeyframe (Sync (Buffers st))
           \<and> GetHeadKeyframe (Sync (Buffers st)) \<noteq> LastProcessedInputKeyframe (TickInfo st)
           \<and> (\<exists>st1. Tick_ResetSyncState env st = Inr st1 \<and> Tick_ProcessInput env D st1 = Inr st'))"
  using assms
  by (auto simp: Tick_InputProcessing_def split: if_splits sum.splits)

lemma Tick_InputProcessing_consumed_in_order:
  assumes "Tick_InputProcessing env D st = Inr st'"
  shows "consumed_in_order st st'"
  using Tick_InputProcessing_cases [OF assms]
proof (elim disjE conjE exE)
  assume "st' = st"
  then show ?thesis by (simp add: consumed_in_order_refl)
next
  assume "Tick_ProcessInput env D st = Inr st'"
  then show ?thesis by (rule Tick_ProcessInput_consumed_in_order)
next
  fix st1
  assume "Tick_ResetSyncState env st = Inr st1" and "Tick_ProcessInput env D st1 = Inr st'"
  then show ?thesis
    using Tick_ResetSyncState_consumed_in_order Tick_ProcessInput_consumed_in_order
      consumed_in_order_trans by blast
qed

text \<open>
  Claim C5. The keyframes for which the section of a tick that processes input calls
  \<open>Update\<close> are, in call order, the consecutive keyframes from
  \<open>LastProcessedInputKeyframe + 1\<close> to the new \<open>LastProcessedInputKeyframe\<close>. Each of them is
  in the Input buffer and within \<open>MaxAllowedInputKeyframe\<close>, and the Input buffer is left
  as it was. A keyframe after \<open>LastProcessedInputKeyframe\<close> that the Input buffer does not
  hold is not passed: the new \<open>LastProcessedInputKeyframe\<close> stays below it, so \<open>Update\<close> is
  called neither for it nor for any keyframe beyond it.
\<close>

theorem Tick_consumes_consecutive_keyframes:
  assumes run: "Tick_InputProcessing env D st = Inr st'"
  shows "update_keyframes (Events st') = update_keyframes (Events st) @
           [LastProcessedInputKeyframe (TickInfo st) + 1 .. LastProcessedInputKeyframe (TickInfo st')]
       \<and> LastProcessedInputKeyframe (TickInfo st) \<le> LastProcessedInputKeyframe (TickInfo st')
       \<and> Input (Buffers st') = Input (Buffers st)
       \<and> (\<forall>k. LastProcessedInputKeyframe (TickInfo st) < k
              \<and> k \<le> LastProcessedInputKeyframe (TickInfo st')
              \<longrightarrow> k \<le> MaxAllowedInputKeyframe (TickInfo st)
                  \<and> FindElementByKeyframe k (Input (Buffers st)) \<noteq> None)
       \<and> (\<forall>g. LastProcessedInputKeyframe (TickInfo st) < g
              \<and> FindElementByKeyframe g (Input (Buffers st)) = None
              \<longrightarrow> LastProcessedInputKeyframe (TickInfo st') < g)"
proof -
  have c: "consumed_in_order st st'"
    using run by (rule Tick_InputProcessing_consumed_in_order)
  have gap: "LastProcessedInputKeyframe (TickInfo st') < g"
    if "LastProcessedInputKeyframe (TickInfo st) < g"
      and "FindElementByKeyframe g (Input (Buffers st)) = None" for g
  proof (rule ccontr)
    assume "\<not> LastProcessedInputKeyframe (TickInfo st') < g"
    then have "g \<le> LastProcessedInputKeyframe (TickInfo st')" by simp
    then have "FindElementByKeyframe g (Input (Buffers st)) \<noteq> None"
      using c that(1) unfolding consumed_in_order_def by blast
    then show False using that(2) by simp
  qed
  show ?thesis
    using c gap unfolding consumed_in_order_def by blast
qed

lemma update_aux_states_append [simp]:
  "update_aux_states (xs @ ys) = update_aux_states xs @ update_aux_states ys"
  by (induction xs rule: update_aux_states.induct) simp_all

lemma InputDeltaSum_empty [simp]: "hi < lo \<Longrightarrow> InputDeltaSum env b lo hi = 0"
  by (simp add: InputDeltaSum_def)

lemma InputDeltaSum_first:
  assumes "lo \<le> hi" and "FindElementByKeyframe lo b = Some cmd"
  shows "InputDeltaSum env b lo hi = GetFrameDeltaTime env cmd + InputDeltaSum env b (lo + 1) hi"
  using assms by (simp add: InputDeltaSum_def upto_rec1)

lemma InputDeltaSum_split:
  assumes "a \<le> b" and "b \<le> c"
  shows "InputDeltaSum env buf (a + 1) c = InputDeltaSum env buf (a + 1) b + InputDeltaSum env buf (b + 1) c"
  using upto_after_split [OF assms] by (simp add: InputDeltaSum_def)

lemma time_accounted_refl: "time_accounted env s s"
  by (simp add: time_accounted_def)

lemma time_accounted_step:
  assumes found: "FindElementByKeyframe (LastProcessedInputKeyframe (TickInfo s) + 1) (Input (Buffers s)) = Some cmd"
    and step: "Tick_UpdateStep env D (LastProcessedInputKeyframe (TickInfo s) + 1) cmd s = Inr s1"
    and rest: "time_accounted env s1 s2"
  shows "time_accounted env s s2"
proof -
  let ?lp = "LastProcessedInputKeyframe (TickInfo s)"
  let ?lp2 = "LastProcessedInputKeyframe (TickInfo s2)"
  note e = Tick_UpdateStep_effect [OF step]
  from e(7) obtain prev where ev: "Events s1 = Events s @
       [Call_Update (?lp + 1) (ToRealTimeSeconds env (GetFrameDeltaTime env cmd)) cmd prev
          (TAuxState_default env)]" by blast
  have lp1: "LastProcessedInputKeyframe (TickInfo s1) = ?lp + 1" by (rule e(1))
  have r1: "?lp + 1 \<le> ?lp2" using rest lp1 by (simp add: time_accounted_def)
  have inp: "Input (Buffers s2) = Input (Buffers s)"
    using rest e(5) by (simp add: time_accounted_def)
  have sum: "InputDeltaSum env (Input (Buffers s)) (?lp + 1) ?lp2 =
             GetFrameDeltaTime env cmd + InputDeltaSum env (Input (Buffers s)) (?lp + 1 + 1) ?lp2"
    using r1 found by (rule InputDeltaSum_first)
  have tot: "TotalProcessedSimulationTime (TickInfo s2) =
          TotalProcessedSimulationTime (TickInfo s) + InputDeltaSum env (Input (Buffers s)) (?lp + 1) ?lp2"
    using rest lp1 e(3) e(5) sum by (simp add: time_accounted_def)
  have rem: "RemainingAllowedSimulationTime (TickInfo s2) =
          RemainingAllowedSimulationTime (TickInfo s) - InputDeltaSum env (Input (Buffers s)) (?lp + 1) ?lp2"
    using rest lp1 e(4) e(5) sum by (simp add: time_accounted_def)
  have n: "nat (?lp2 - ?lp) = Suc (nat (?lp2 - (?lp + 1)))" using r1 by linarith
  have aux: "update_aux_states (Events s2) = update_aux_states (Events s) @
          replicate (nat (?lp2 - ?lp)) (TAuxState_default env)"
    using rest lp1 ev n by (simp add: time_accounted_def)
  have warn: "filter is_warning (Events s2) = filter is_warning (Events s)"
    using rest ev by (simp add: time_accounted_def)
  have evs: "\<exists>evs. Events s2 = Events s @ evs"
    using rest ev by (auto simp: time_accounted_def)
  show ?thesis
    unfolding time_accounted_def using r1 inp tot rem aux warn evs by simp
qed

lemma Tick_ProcessInput_time_accounted:
  assumes "Tick_ProcessInput env D st = Inr st'"
  shows "time_accounted env st st'"
proof (rule Tick_ProcessInput_relation [OF assms, where P = "time_accounted env"])
  show "time_accounted env s s" for s :: "('a, 'b, 'c, 'd, 'e) TNetworkedSimulationModel"
    by (rule time_accounted_refl)
next
  fix s :: "('a, 'b, 'c, 'd, 'e) TNetworkedSimulationModel" and cmd s1 s2
  assume "FindElementByKeyframe (LastProcessedInputKeyframe (TickInfo s) + 1) (Input (Buffers s)) = Some cmd"
    and "Tick_UpdateStep env D (LastProcessedInputKeyframe (TickInfo s) + 1) cmd s = Inr s1"
    and "time_accounted env s1 s2"
  then show "time_accounted env s s2" by (rule time_accounted_step)
qed

lemma Tick_ProcessInput_loop_stops:
  assumes "Tick_ProcessInput env D st = Inr st'"
  shows "loop_stops env st'"
  by (rule Tick_ProcessInput_relation [OF assms, where P = "\<lambda>s s'. loop_stops env s'"])

text \<open>
  Claim C3. Let the head of the Input buffer be above the head of the Sync buffer, and
  the head of the Sync buffer differ from \<open>LastProcessedInputKeyframe\<close>, in buffers that have
  room for an element. Then the section does not fail. It first logs one warning if
  \<open>LastProcessedInputKeyframe\<close> is not 0 and none if it is 0, resets the next head keyframe
  of the Sync buffer to \<open>LastProcessedInputKeyframe\<close>, lets the driver's \<open>InitSyncState\<close>
  fill the element written there, and stamps that keyframe with the unchanged total
  simulation time; the rest of the section is the input loop run on that state, which
  logs no warning.
\<close>

theorem Tick_continuity_break_recovers:
  assumes head: "GetHeadKeyframe (Sync (Buffers st)) < GetHeadKeyframe (Input (Buffers st))"
    and brk: "GetHeadKeyframe (Sync (Buffers st)) \<noteq> LastProcessedInputKeyframe (TickInfo st)"
    and sz: "0 < BufferSize (Sync (Buffers st))"
    and tz: "0 < BufferSize (SimulationTimeBuffer (TickInfo st))"
  shows "\<exists>st1 st'.
       Tick_ResetSyncState env st = Inr st1
     \<and> Tick_InputProcessing env D st = Tick_ProcessInput env D st1
     \<and> Tick_ProcessInput env D st1 = Inr st'
     \<and> Events st1 = Events st @
           (if LastProcessedInputKeyframe (TickInfo st) \<noteq> 0
            then [Log_Warning (GetDebugName env (Driver st)) (LastProcessedInputKeyframe (TickInfo st))
                    (GetHeadKeyframe (Sync (Buffers st)))]
            else []) @ [Call_InitSyncState]
     \<and> filter is_warning (Events st') = filter is_warning (Events st) @
           (if LastProcessedInputKeyframe (TickInfo st) \<noteq> 0
            then [Log_Warning (GetDebugName env (Driver st)) (LastProcessedInputKeyframe (TickInfo st))
                    (GetHeadKeyframe (Sync (Buffers st)))]
            else [])
     \<and> (\<exists>evs. Events st' = Events st1 @ evs)
     \<and> GetWriteNext (InitSyncState env (Driver st))
            (ResetNextHeadKeyframe (LastProcessedInputKeyframe (TickInfo st)) (Sync (Buffers st)))
          = Some (Sync (Buffers st1))
     \<and> GetHeadKeyframe (Sync (Buffers st1)) = LastProcessedInputKeyframe (TickInfo st)
     \<and> FindElementByKeyframe (LastProcessedInputKeyframe (TickInfo st)) (Sync (Buffers st1))
          = Some (InitSyncState env (Driver st))
     \<and> FindElementByKeyframe (LastProcessedInputKeyframe (TickInfo st))
            (SimulationTimeBuffer (TickInfo st1)) = Some (TotalProcessedSimulationTime (TickInfo st))
     \<and> LastProcessedInputKeyframe (TickInfo st1) = LastProcessedInputKeyframe (TickInfo st)
     \<and> TotalProcessedSimulationTime (TickInfo st1) = TotalProcessedSimulationTime (TickInfo st)"
proof -
  obtain st1 where r: "Tick_ResetSyncState env st = Inr st1"
    using Tick_ResetSyncState_effect [OF sz tz, of env] by blast
  note e = Tick_ResetSyncState_Inr [OF r]
  note a = Tick_ResetSyncState_aligned [OF r]
  have al: "SyncAligned st1" using a by simp
  obtain st' where l: "Tick_ProcessInput env D st1 = Inr st'"
    using Tick_ProcessInput_aligned [OF al] by blast
  have t: "time_accounted env st1 st'" using l by (rule Tick_ProcessInput_time_accounted)
  have enter: "Tick_InputProcessing env D st = Tick_ProcessInput env D st1"
    using head brk r by (simp add: Tick_InputProcessing_def)
  have w: "filter is_warning (Events st') = filter is_warning (Events st) @
           (if LastProcessedInputKeyframe (TickInfo st) \<noteq> 0
            then [Log_Warning (GetDebugName env (Driver st)) (LastProcessedInputKeyframe (TickInfo st))
                    (GetHeadKeyframe (Sync (Buffers st)))]
            else [])"
    using t e(1) by (simp add: time_accounted_def)
  have evs: "\<exists>evs. Events st' = Events st1 @ evs" using t by (simp add: time_accounted_def)
  have hd: "GetHeadKeyframe (Sync (Buffers st1)) = LastProcessedInputKeyframe (TickInfo st)"
    by (rule stamp_written(2) [OF e(2)])
  show ?thesis
  proof (rule exI [of _ st1], rule exI [of _ st'], intro conjI)
    show "Tick_ResetSyncState env st = Inr st1" by (rule r)
    show "Tick_InputProcessing env D st = Tick_ProcessInput env D st1" by (rule enter)
    show "Tick_ProcessInput env D st1 = Inr st'" by (rule l)
    show "Events st1 = Events st @
           (if LastProcessedInputKeyframe (TickInfo st) \<noteq> 0
            then [Log_Warning (GetDebugName env (Driver st)) (LastProcessedInputKeyframe (TickInfo st))
                    (GetHeadKeyframe (Sync (Buffers st)))]
            else []) @ [Call_InitSyncState]" by (rule e(1))
    show "filter is_warning (Events st') = filter is_warning (Events st) @
           (if LastProcessedInputKeyframe (TickInfo st) \<noteq> 0
            then [Log_Warning (GetDebugName env (Driver st)) (LastProcessedInputKeyframe (TickInfo st))
                    (GetHeadKeyframe (Sync (Buffers st)))]
            else [])" by (rule w)
    show "\<exists>evs. Events st' = Events st1 @ evs" by (rule evs)
    show "GetWriteNext (InitSyncState env (Driver st))
            (ResetNextHeadKeyframe (LastProcessedInputKeyframe (TickInfo st)) (Sync (Buffers st)))
          = Some (Sync (Buffers st1))" by (rule e(2))
    show "GetHeadKeyframe (Sync (Buffers st1)) = LastProcessedInputKeyframe (TickInfo st)" by (rule hd)
    show "FindElementByKeyframe (LastProcessedInputKeyframe (TickInfo st)) (Sync (Buffers st1))
          = Some (InitSyncState env (Driver st))" using a by simp
    show "FindElementByKeyframe (LastProcessedInputKeyframe (TickInfo st))
            (SimulationTimeBuffer (TickInfo st1)) = Some (TotalProcessedSimulationTime (TickInfo st))"
      using a by simp
    show "LastProcessedInputKeyframe (TickInfo st1) = LastProcessedInputKeyframe (TickInfo st)"
      using a by simp
    show "TotalProcessedSimulationTime (TickInfo st1) = TotalProcessedSimulationTime (TickInfo st)"
      using a by simp
  qed
qed

text \<open>
  Claim C6. When the remaining allowed simulation time is less than the frame delta time
  of the next input command, the loop returns the state as it is, without failure: the
  Sync buffer, \<open>LastProcessedInputKeyframe\<close> and the total processed time keep their values.
  Whenever the loop returns, it returns in a state where it stops: the next keyframe is
  beyond \<open>MaxAllowedInputKeyframe\<close>, or absent from the Input buffer, or too long for the
  budget. A later tick that finds the Sync buffer aligned with
  \<open>LastProcessedInputKeyframe\<close>, the input command still in the Input buffer, the keyframe
  allowed and the budget refilled to at least its delta time, does not fail and
  processes that keyframe: \<open>Update\<close> is called for it and the total time grows by the
  delta times of the keyframes consumed.
\<close>

theorem Tick_budget_exhausted_stops_and_resumes:
  "(FindElementByKeyframe (LastProcessedInputKeyframe (TickInfo st) + 1) (Input (Buffers st)) = Some cmd
      \<and> GetRemainingAllowedSimulationTime (TickInfo st) < GetFrameDeltaTime env cmd
    \<longrightarrow> Tick_ProcessInput env D st = Inr st)
   \<and> (Tick_ProcessInput env D st = Inr st' \<longrightarrow> loop_stops env st')
   \<and> (SyncAligned st
      \<and> FindElementByKeyframe (LastProcessedInputKeyframe (TickInfo st) + 1) (Input (Buffers st)) = Some cmd
      \<and> GetFrameDeltaTime env cmd \<le> GetRemainingAllowedSimulationTime (TickInfo st)
      \<and> LastProcessedInputKeyframe (TickInfo st) + 1 \<le> MaxAllowedInputKeyframe (TickInfo st)
    \<longrightarrow> (\<exists>st2. Tick_InputProcessing env D st = Inr st2
          \<and> LastProcessedInputKeyframe (TickInfo st) + 1 \<le> LastProcessedInputKeyframe (TickInfo st2)
          \<and> update_keyframes (Events st2) = update_keyframes (Events st) @
               [LastProcessedInputKeyframe (TickInfo st) + 1 .. LastProcessedInputKeyframe (TickInfo st2)]
          \<and> TotalProcessedSimulationTime (TickInfo st2) =
               TotalProcessedSimulationTime (TickInfo st) +
               InputDeltaSum env (Input (Buffers st)) (LastProcessedInputKeyframe (TickInfo st) + 1)
                 (LastProcessedInputKeyframe (TickInfo st2))
          \<and> SyncAligned st2))"
proof (intro conjI impI)
  assume "FindElementByKeyframe (LastProcessedInputKeyframe (TickInfo st) + 1) (Input (Buffers st)) = Some cmd
      \<and> GetRemainingAllowedSimulationTime (TickInfo st) < GetFrameDeltaTime env cmd"
  then have "loop_stops env st" by (simp add: loop_stops_def)
  then show "Tick_ProcessInput env D st = Inr st" by (rule Tick_ProcessInput_stops)
next
  assume "Tick_ProcessInput env D st = Inr st'"
  then show "loop_stops env st'" by (rule Tick_ProcessInput_loop_stops)
next
  let ?lp = "LastProcessedInputKeyframe (TickInfo st)"
  assume h: "SyncAligned st
      \<and> FindElementByKeyframe (?lp + 1) (Input (Buffers st)) = Some cmd
      \<and> GetFrameDeltaTime env cmd \<le> GetRemainingAllowedSimulationTime (TickInfo st)
      \<and> ?lp + 1 \<le> MaxAllowedInputKeyframe (TickInfo st)"
  then have al: "SyncAligned st"
    and found: "FindElementByKeyframe (?lp + 1) (Input (Buffers st)) = Some cmd"
    and budget: "GetFrameDeltaTime env cmd \<le> GetRemainingAllowedSimulationTime (TickInfo st)"
    and le: "?lp + 1 \<le> MaxAllowedInputKeyframe (TickInfo st)" by simp_all
  have "?lp + 1 \<le> HeadKeyframe (Input (Buffers st))"
    using found by (auto simp: FindElementByKeyframe_def split: if_splits)
  then have enter: "GetHeadKeyframe (Sync (Buffers st)) < GetHeadKeyframe (Input (Buffers st))"
    using al by (simp add: SyncAligned_def GetHeadKeyframe_def)
  have same: "GetHeadKeyframe (Sync (Buffers st)) = ?lp" using al by (simp add: SyncAligned_def)
  obtain st2 where l: "Tick_ProcessInput env D st = Inr st2" and al2: "SyncAligned st2"
    using Tick_ProcessInput_aligned [OF al] by blast
  have run: "Tick_InputProcessing env D st = Inr st2"
    using enter same l by (simp add: Tick_InputProcessing_def)
  have ns: "\<not> loop_stops env st" using found budget le by (simp add: loop_stops_def)
  obtain s1 where s1: "Tick_UpdateStep env D (?lp + 1) cmd st = Inr s1"
    and rest: "Tick_ProcessInput env D s1 = Inr st2"
    using l found budget le
    by (auto simp: Tick_ProcessInput.simps [of env D st] split: sum.splits)
  have "consumed_in_order s1 st2" using rest by (rule Tick_ProcessInput_consumed_in_order)
  then have adv: "?lp + 1 \<le> LastProcessedInputKeyframe (TickInfo st2)"
    using Tick_UpdateStep_effect(1) [OF s1] by (simp add: consumed_in_order_def)
  have c: "consumed_in_order st st2" using l by (rule Tick_ProcessInput_consumed_in_order)
  have t: "time_accounted env st st2" using l by (rule Tick_ProcessInput_time_accounted)
  show "\<exists>st2. Tick_InputProcessing env D st = Inr st2
          \<and> ?lp + 1 \<le> LastProcessedInputKeyframe (TickInfo st2)
          \<and> update_keyframes (Events st2) = update_keyframes (Events st) @
               [?lp + 1 .. LastProcessedInputKeyframe (TickInfo st2)]
          \<and> TotalProcessedSimulationTime (TickInfo st2) =
               TotalProcessedSimulationTime (TickInfo st) +
               InputDeltaSum env (Input (Buffers st)) (?lp + 1) (LastProcessedInputKeyframe (TickInfo st2))
          \<and> SyncAligned st2"
  proof (rule exI [of _ st2], intro conjI)
    show "Tick_InputProcessing env D st = Inr st2" by (rule run)
    show "?lp + 1 \<le> LastProcessedInputKeyframe (TickInfo st2)" by (rule adv)
    show "update_keyframes (Events st2) = update_keyframes (Events st) @
               [?lp + 1 .. LastProcessedInputKeyframe (TickInfo st2)]"
      using c by (simp add: consumed_in_order_def)
    show "TotalProcessedSimulationTime (TickInfo st2) =
               TotalProcessedSimulationTime (TickInfo st) +
               InputDeltaSum env (Input (Buffers st)) (?lp + 1) (LastProcessedInputKeyframe (TickInfo st2))"
      using t by (simp add: time_accounted_def)
    show "SyncAligned st2" by (rule al2)
  qed
qed

lemma Tick_InputProcessing_total:
  assumes run: "Tick_InputProcessing env D st = Inr st'"
  shows "TotalProcessedSimulationTime (TickInfo st') =
           TotalProcessedSimulationTime (TickInfo st) +
           InputDeltaSum env (Input (Buffers st)) (LastProcessedInputKeyframe (TickInfo st) + 1)
             (LastProcessedInputKeyframe (TickInfo st'))"
    and "update_aux_states (Events st') = update_aux_states (Events st) @
           replicate (nat (LastProcessedInputKeyframe (TickInfo st') - LastProcessedInputKeyframe (TickInfo st)))
             (TAuxState_default env)"
proof -
  let ?goal = "TotalProcessedSimulationTime (TickInfo st') =
           TotalProcessedSimulationTime (TickInfo st) +
           InputDeltaSum env (Input (Buffers st)) (LastProcessedInputKeyframe (TickInfo st) + 1)
             (LastProcessedInputKeyframe (TickInfo st'))
     \<and> update_aux_states (Events st') = update_aux_states (Events st) @
           replicate (nat (LastProcessedInputKeyframe (TickInfo st') - LastProcessedInputKeyframe (TickInfo st)))
             (TAuxState_default env)"
  have ?goal
    using Tick_InputProcessing_cases [OF run]
  proof (elim disjE conjE exE)
    assume "st' = st"
    then show ?thesis by simp
  next
    assume "Tick_ProcessInput env D st = Inr st'"
    then have "time_accounted env st st'" by (rule Tick_ProcessInput_time_accounted)
    then show ?thesis by (simp add: time_accounted_def)
  next
    fix st1
    assume r: "Tick_ResetSyncState env st = Inr st1" and l: "Tick_ProcessInput env D st1 = Inr st'"
    note e = Tick_ResetSyncState_Inr [OF r]
    note a = Tick_ResetSyncState_aligned [OF r]
    have lp: "LastProcessedInputKeyframe (TickInfo st1) = LastProcessedInputKeyframe (TickInfo st)"
      and tot: "TotalProcessedSimulationTime (TickInfo st1) = TotalProcessedSimulationTime (TickInfo st)"
      using a by simp_all
    have ux: "update_aux_states (Events st1) = update_aux_states (Events st)"
      using e(1) by simp
    have "time_accounted env st1 st'" using l by (rule Tick_ProcessInput_time_accounted)
    then show ?thesis using lp tot ux e(4) by (simp add: time_accounted_def)
  qed
  then show "TotalProcessedSimulationTime (TickInfo st') =
           TotalProcessedSimulationTime (TickInfo st) +
           InputDeltaSum env (Input (Buffers st)) (LastProcessedInputKeyframe (TickInfo st) + 1)
             (LastProcessedInputKeyframe (TickInfo st'))"
    and "update_aux_states (Events st') = update_aux_states (Events st) @
           replicate (nat (LastProcessedInputKeyframe (TickInfo st') - LastProcessedInputKeyframe (TickInfo st)))
             (TAuxState_default env)"
    by simp_all
qed

text \<open>
  Claim C7, as amended. The section of a tick that processes input adds to
  \<open>TotalProcessedSimulationTime\<close> exactly the frame delta times of the input keyframes it
  consumes, the keyframes after the old \<open>LastProcessedInputKeyframe\<close> up to the new one,
  each of which is in the Input buffer; it leaves the Input buffer as it is. So if the
  total was the sum of the delta times that the Input buffer holds at the keyframes 1
  to \<open>LastProcessedInputKeyframe\<close> before the section, it is that sum afterwards.
\<close>

theorem Tick_total_time_is_sum_of_consumed_deltas:
  assumes run: "Tick_InputProcessing env D st = Inr st'"
  shows "TotalProcessedSimulationTime (TickInfo st') =
           TotalProcessedSimulationTime (TickInfo st) +
           InputDeltaSum env (Input (Buffers st)) (LastProcessedInputKeyframe (TickInfo st) + 1)
             (LastProcessedInputKeyframe (TickInfo st'))
       \<and> (\<forall>k. LastProcessedInputKeyframe (TickInfo st) < k
              \<and> k \<le> LastProcessedInputKeyframe (TickInfo st')
              \<longrightarrow> FindElementByKeyframe k (Input (Buffers st)) \<noteq> None)
       \<and> Input (Buffers st') = Input (Buffers st)
       \<and> (0 \<le> LastProcessedInputKeyframe (TickInfo st)
            \<and> TotalProcessedSimulationTime (TickInfo st) =
               InputDeltaSum env (Input (Buffers st)) 1 (LastProcessedInputKeyframe (TickInfo st))
          \<longrightarrow> TotalProcessedSimulationTime (TickInfo st') =
               InputDeltaSum env (Input (Buffers st')) 1 (LastProcessedInputKeyframe (TickInfo st')))"
proof -
  let ?lp = "LastProcessedInputKeyframe (TickInfo st)"
  let ?lp' = "LastProcessedInputKeyframe (TickInfo st')"
  have c: "consumed_in_order st st'" using run by (rule Tick_InputProcessing_consumed_in_order)
  have le: "?lp \<le> ?lp'" and inp: "Input (Buffers st') = Input (Buffers st)"
    using c by (simp_all add: consumed_in_order_def)
  have present: "\<forall>k. ?lp < k \<and> k \<le> ?lp' \<longrightarrow> FindElementByKeyframe k (Input (Buffers st)) \<noteq> None"
    using c unfolding consumed_in_order_def by blast
  have tot: "TotalProcessedSimulationTime (TickInfo st') =
           TotalProcessedSimulationTime (TickInfo st) + InputDeltaSum env (Input (Buffers st)) (?lp + 1) ?lp'"
    by (rule Tick_InputProcessing_total(1) [OF run])
  have keep: "TotalProcessedSimulationTime (TickInfo st') = InputDeltaSum env (Input (Buffers st')) 1 ?lp'"
    if nn: "0 \<le> ?lp"
      and eq: "TotalProcessedSimulationTime (TickInfo st) = InputDeltaSum env (Input (Buffers st)) 1 ?lp"
  proof -
    have "InputDeltaSum env (Input (Buffers st)) (0 + 1) ?lp' =
          InputDeltaSum env (Input (Buffers st)) (0 + 1) ?lp + InputDeltaSum env (Input (Buffers st)) (?lp + 1) ?lp'"
      using nn le by (rule InputDeltaSum_split)
    then show ?thesis using tot eq inp by simp
  qed
  show ?thesis using tot present inp keep by blast
qed

subsection \<open>The Aux buffer\<close>

lemma with_Aux_fields [simp]:
  "Driver (with_Aux a st) = Driver st"
  "TickInfo (with_Aux a st) = TickInfo st"
  "Events (with_Aux a st) = Events st"
  "RepProxies (with_Aux a st) = RepProxies st"
  "HistoricBuffers (with_Aux a st) = HistoricBuffers st"
  "Input (Buffers (with_Aux a st)) = Input (Buffers st)"
  "Sync (Buffers (with_Aux a st)) = Sync (Buffers st)"
  "DebugBuf (Buffers (with_Aux a st)) = DebugBuf (Buffers st)"
  "Aux (Buffers (with_Aux a st)) = a"
  by (simp_all add: with_Aux_def)

lemma Tick_UpdateStep_with_Aux:
  "Tick_UpdateStep env D k cmd (with_Aux a st) = map_sum id (with_Aux a) (Tick_UpdateStep env D k cmd st)"
  by (simp add: Tick_UpdateStep_def Let_def with_Aux_def WithDebugState_def
      split: option.splits prod.splits)

lemma Tick_ResetSyncState_with_Aux:
  "Tick_ResetSyncState env (with_Aux a st) = map_sum id (with_Aux a) (Tick_ResetSyncState env st)"
  by (simp add: Tick_ResetSyncState_def Let_def with_Aux_def split: option.splits)

lemma Tick_ProcessInput_with_Aux:
  "Tick_ProcessInput env D (with_Aux a st) = map_sum id (with_Aux a) (Tick_ProcessInput env D st)"
proof (induction env D st rule: Tick_ProcessInput.induct)
  case (1 env D st)
  let ?k = "LastProcessedInputKeyframe (TickInfo st) + 1"
  show ?case
  proof (cases "loop_stops env st")
    case True
    then have "loop_stops env (with_Aux a st)"
      by (simp add: loop_stops_def Let_def split: option.splits)
    then show ?thesis
      using True by (simp add: Tick_ProcessInput_stops)
  next
    case False
    then obtain cmd where le: "\<not> MaxAllowedInputKeyframe (TickInfo st) < ?k"
      and found: "FindElementByKeyframe ?k (Input (Buffers st)) = Some cmd"
      and budget: "GetFrameDeltaTime env cmd \<le> GetRemainingAllowedSimulationTime (TickInfo st)"
      by (auto simp: loop_stops_def Let_def split: option.splits)
    show ?thesis
    proof (cases "Tick_UpdateStep env D ?k cmd st")
      case (Inl e)
      then show ?thesis
        using le found budget
        by (simp add: Tick_ProcessInput.simps [of env D st]
            Tick_ProcessInput.simps [of env D "with_Aux a st"] Tick_UpdateStep_with_Aux)
    next
      case (Inr s1)
      have "Tick_ProcessInput env D (with_Aux a s1) = map_sum id (with_Aux a) (Tick_ProcessInput env D s1)"
        by (rule "1.IH" [OF refl le found budget Inr])
      then show ?thesis
        using le found budget Inr
        by (simp add: Tick_ProcessInput.simps [of env D st]
            Tick_ProcessInput.simps [of env D "with_Aux a st"] Tick_UpdateStep_with_Aux id_def)
    qed
  qed
qed

text \<open>
  Claim C8. Every call of \<open>Update\<close> that the section makes receives the default-constructed
  aux state: the aux states passed are as many copies of it as keyframes were consumed.
  And the Aux buffer has no influence: with any other Aux buffer in its place the section
  fails or succeeds alike and ends in the same state, events included, but for the Aux
  buffer, which it hands back untouched.
\<close>

theorem Tick_update_receives_default_aux:
  "(Tick_InputProcessing env D st = Inr st' \<longrightarrow>
      update_aux_states (Events st') = update_aux_states (Events st) @
        replicate (nat (LastProcessedInputKeyframe (TickInfo st') - LastProcessedInputKeyframe (TickInfo st)))
          (TAuxState_default env))
   \<and> Tick_InputProcessing env D (with_Aux a st) = map_sum id (with_Aux a) (Tick_InputProcessing env D st)"
proof (intro conjI impI)
  assume "Tick_InputProcessing env D st = Inr st'"
  then show "update_aux_states (Events st') = update_aux_states (Events st) @
        replicate (nat (LastProcessedInputKeyframe (TickInfo st') - LastProcessedInputKeyframe (TickInfo st)))
          (TAuxState_default env)"
    by (rule Tick_InputProcessing_total(2))
next
  show "Tick_InputProcessing env D (with_Aux a st) = map_sum id (with_Aux a) (Tick_InputProcessing env D st)"
  proof (cases "Tick_ResetSyncState env st")
    case (Inl e)
    then show ?thesis
      by (simp add: Tick_InputProcessing_def Tick_ResetSyncState_with_Aux Tick_ProcessInput_with_Aux)
  next
    case (Inr s1)
    then show ?thesis
      by (simp add: Tick_InputProcessing_def Tick_ResetSyncState_with_Aux Tick_ProcessInput_with_Aux)
  qed
qed

lemma on_trajectory_seeded:
  assumes r: "Tick_ResetSyncState env st = Inr st1"
    and lp: "LastProcessedInputKeyframe (TickInfo st) = base"
    and seed: "InitSyncState env (Driver st) = s0"
    and inp: "inputs_from inputs (Input (Buffers st))"
  shows "on_trajectory env F inputs base s0 st1"
proof -
  note e = Tick_ResetSyncState_Inr [OF r]
  note a = Tick_ResetSyncState_aligned [OF r]
  have w: "GetWriteNext s0 (ResetNextHeadKeyframe base (Sync (Buffers st))) = Some (Sync (Buffers st1))"
    using e(2) lp seed by simp
  have traj: "s = sim_trajectory env F inputs base s0 (nat (k - base))"
    if "base \<le> k" and f: "FindElementByKeyframe k (Sync (Buffers st1)) = Some s" for k s
  proof -
    from GetWriteNext_find [OF w f]
    have "k = base \<and> s = s0"
      using that(1) by (auto simp: ResetNextHeadKeyframe_effect)
    then show ?thesis by simp
  qed
  show ?thesis
    unfolding on_trajectory_def using a lp e(4) inp traj by simp
qed

lemma on_trajectory_step:
  assumes det: "Update_deterministic env F"
    and inv: "on_trajectory env F inputs base s0 s"
    and found: "FindElementByKeyframe (LastProcessedInputKeyframe (TickInfo s) + 1) (Input (Buffers s)) = Some cmd"
    and step: "Tick_UpdateStep env D (LastProcessedInputKeyframe (TickInfo s) + 1) cmd s = Inr s1"
  shows "on_trajectory env F inputs base s0 s1"
proof -
  let ?lp = "LastProcessedInputKeyframe (TickInfo s)"
  let ?traj = "sim_trajectory env F inputs base s0"
  note e = Tick_UpdateStep_effect [OF step]
  have al: "SyncAligned s" and b: "base \<le> ?lp" and inp: "inputs_from inputs (Input (Buffers s))"
    and follows: "\<And>k x. base \<le> k \<Longrightarrow> FindElementByKeyframe k (Sync (Buffers s)) = Some x
                   \<Longrightarrow> x = ?traj (nat (k - base))"
    using inv unfolding on_trajectory_def by blast+
  from e(7) obtain prev where
    prev: "FindElementByKeyframe ?lp (Sync (Buffers s)) = Some prev"
    and w: "GetWriteNext (snd (Update env (Driver s) (ToRealTimeSeconds env (GetFrameDeltaTime env cmd))
                            cmd prev (TAuxState_default env))) (Sync (Buffers s))
            = Some (Sync (Buffers s1))" by blast
  have cmd: "cmd = inputs (?lp + 1)" using inp found by (simp add: inputs_from_def)
  have pv: "prev = ?traj (nat (?lp - base))" using follows [OF b prev] .
  have n: "nat (?lp + 1 - base) = Suc (nat (?lp - base))" using b by linarith
  have k: "base + 1 + int (nat (?lp - base)) = ?lp + 1" using b by linarith
  have "?traj (nat (?lp + 1 - base)) = ?traj (Suc (nat (?lp - base)))" by (simp only: n)
  also have "\<dots> = F (ToRealTimeSeconds env (GetFrameDeltaTime env (inputs (?lp + 1))))
                     (inputs (?lp + 1)) (?traj (nat (?lp - base))) (TAuxState_default env)"
    by (simp only: sim_trajectory.simps k)
  finally have tr: "?traj (nat (?lp + 1 - base)) =
      F (ToRealTimeSeconds env (GetFrameDeltaTime env cmd)) cmd prev (TAuxState_default env)"
    by (simp only: cmd pv)
  have nxt: "snd (Update env (Driver s) (ToRealTimeSeconds env (GetFrameDeltaTime env cmd))
                            cmd prev (TAuxState_default env)) = ?traj (nat (?lp + 1 - base))"
    using det tr by (simp only: Update_deterministic_def)
  have hd: "GetHeadKeyframe (Sync (Buffers s)) = ?lp" using al by (simp add: SyncAligned_def)
  have traj: "x = ?traj (nat (j - base))"
    if "base \<le> j" and f: "FindElementByKeyframe j (Sync (Buffers s1)) = Some x" for j x
  proof -
    from GetWriteNext_find [OF w f] hd
    have "(j = ?lp + 1 \<and> x = ?traj (nat (?lp + 1 - base)))
          \<or> FindElementByKeyframe j (Sync (Buffers s)) = Some x"
      using nxt by auto
    then show ?thesis using follows [OF that(1)] by auto
  qed
  obtain s1' where s1': "Tick_UpdateStep env D (?lp + 1) cmd s = Inr s1'" and al1: "SyncAligned s1'"
    using Tick_UpdateStep_aligned [OF al] by blast
  have al1': "SyncAligned s1" using s1' al1 step by simp
  show ?thesis
    unfolding on_trajectory_def using al1' b e(1) e(5) inp traj by simp
qed

lemma on_trajectory_loop:
  assumes det: "Update_deterministic env F"
    and run: "Tick_ProcessInput env D st = Inr st'"
  shows "on_trajectory env F inputs base s0 st \<longrightarrow> on_trajectory env F inputs base s0 st'"
proof (rule Tick_ProcessInput_relation [OF run,
      where P = "\<lambda>s s'. on_trajectory env F inputs base s0 s \<longrightarrow> on_trajectory env F inputs base s0 s'"])
  show "on_trajectory env F inputs base s0 s \<longrightarrow> on_trajectory env F inputs base s0 s"
    for s :: "('a, 'b, 'c, 'd, 'e) TNetworkedSimulationModel" by simp
next
  fix s :: "('a, 'b, 'c, 'd, 'e) TNetworkedSimulationModel" and cmd s1 s2
  assume found: "FindElementByKeyframe (LastProcessedInputKeyframe (TickInfo s) + 1) (Input (Buffers s)) = Some cmd"
    and step: "Tick_UpdateStep env D (LastProcessedInputKeyframe (TickInfo s) + 1) cmd s = Inr s1"
    and rest: "on_trajectory env F inputs base s0 s1 \<longrightarrow> on_trajectory env F inputs base s0 s2"
  show "on_trajectory env F inputs base s0 s \<longrightarrow> on_trajectory env F inputs base s0 s2"
    using on_trajectory_step [OF det _ found step] rest by blast
qed

lemma on_trajectory_tick:
  assumes det: "Update_deterministic env F"
    and inv: "on_trajectory env F inputs base s0 st"
    and run: "Tick_InputProcessing env D st = Inr st'"
  shows "on_trajectory env F inputs base s0 st'"
  using Tick_InputProcessing_cases [OF run]
proof (elim disjE conjE exE)
  assume "st' = st"
  then show ?thesis using inv by simp
next
  assume "Tick_ProcessInput env D st = Inr st'"
  then show ?thesis using on_trajectory_loop [OF det] inv by blast
next
  fix st1
  assume "GetHeadKeyframe (Sync (Buffers st)) \<noteq> LastProcessedInputKeyframe (TickInfo st)"
  then show ?thesis using inv by (simp add: on_trajectory_def SyncAligned_def)
qed

lemma run_state_on_trajectory:
  assumes det: "Update_deterministic env F"
    and run: "run_state env inputs base s0 st"
  shows "on_trajectory env F inputs base s0 st"
  using run
proof (induction rule: run_state.induct)
  case (seeded st st1)
  then show ?case by (simp add: on_trajectory_seeded)
next
  case (looped st D st')
  then show ?case using on_trajectory_loop [OF det] by blast
next
  case (ticked st D st')
  then show ?case using on_trajectory_tick [OF det] by blast
next
  case (other st st')
  then show ?case by (simp add: on_trajectory_def SyncAligned_def)
qed

text \<open>
  Claim C4. Let \<open>Update\<close> be deterministic. Take two runs that were seeded at the same
  keyframe with the same output of \<open>InitSyncState\<close> and receive the same sequence of input
  commands (the frame delta times are part of the commands). Whatever else differs between
  them (the time budgets and so the number of keyframes each tick consumes, the driver,
  the Aux and debug buffers, the capacities), a keyframe from the seed on that both Sync
  buffers hold has the same sync state in both: the state that the seed and the input
  sequence determine.
\<close>

theorem Tick_sync_sequence_deterministic:
  assumes det: "Update_deterministic env F"
    and run1: "run_state env inputs base s0 st1"
    and run2: "run_state env inputs base s0 st2"
  shows "\<forall>k a b. base \<le> k
            \<and> FindElementByKeyframe k (Sync (Buffers st1)) = Some a
            \<and> FindElementByKeyframe k (Sync (Buffers st2)) = Some b
          \<longrightarrow> a = b \<and> a = sim_trajectory env F inputs base s0 (nat (k - base))"
proof (intro allI impI)
  fix k a b
  assume h: "base \<le> k
            \<and> FindElementByKeyframe k (Sync (Buffers st1)) = Some a
            \<and> FindElementByKeyframe k (Sync (Buffers st2)) = Some b"
  have t1: "on_trajectory env F inputs base s0 st1"
    using det run1 by (rule run_state_on_trajectory)
  have t2: "on_trajectory env F inputs base s0 st2"
    using det run2 by (rule run_state_on_trajectory)
  have "a = sim_trajectory env F inputs base s0 (nat (k - base))"
    using t1 h unfolding on_trajectory_def by blast
  moreover have "b = sim_trajectory env F inputs base s0 (nat (k - base))"
    using t2 h unfolding on_trajectory_def by blast
  ultimately show "a = b \<and> a = sim_trajectory env F inputs base s0 (nat (k - base))" by simp
qed

text \<open>
  Claim C9. In the build without \<open>NETSIM_MODEL_DEBUG\<close>, \<open>NetSerializeProxy\<close> and
  \<open>GetProxyDirtyCount\<close> with the debug target end in the failed check of the default label,
  and the four debug accessors return the null pointer. In the build with it, the two
  methods reach the debug proxy.
\<close>

theorem debug_target_unknown_without_debug_build:
  "(\<not> NETSIM_MODEL_DEBUG env \<longrightarrow>
      NetSerializeProxy env Debug Params st = Inl (CheckFailed (Check_UnknownTarget Debug))
    \<and> GetProxyDirtyCount env Debug st = Inl (CheckFailed (Check_UnknownTarget Debug))
    \<and> GetLocalDebugBuffer env st = None
    \<and> fst (GetNextLocalDebugStateWrite env d st) = None
    \<and> fst (GetHistoricBuffers env bCreate st) = None
    \<and> GetRemoteDebugBuffer env st = None)
   \<and> (NETSIM_MODEL_DEBUG env \<longrightarrow>
      NetSerializeProxy env Debug Params st = Inr (NetSerialize env Debug Params st)
    \<and> GetProxyDirtyCount env Debug st = Inr (ProxyDirtyCount env Debug (RepProxies st) (Buffers st)))"
proof (intro conjI impI)
  assume off: "\<not> NETSIM_MODEL_DEBUG env"
  show "NetSerializeProxy env Debug Params st = Inl (CheckFailed (Check_UnknownTarget Debug))"
    using off by (simp add: NetSerializeProxy_def)
  show "GetProxyDirtyCount env Debug st = Inl (CheckFailed (Check_UnknownTarget Debug))"
    using off by (simp add: GetProxyDirtyCount_def)
  show "GetLocalDebugBuffer env st = None" using off by (simp add: GetLocalDebugBuffer_def)
  show "fst (GetNextLocalDebugStateWrite env d st) = None"
    using off by (simp add: GetNextLocalDebugStateWrite_def)
  show "fst (GetHistoricBuffers env bCreate st) = None"
    using off by (simp add: GetHistoricBuffers_def)
  show "GetRemoteDebugBuffer env st = None" using off by (simp add: GetRemoteDebugBuffer_def)
next
  assume on: "NETSIM_MODEL_DEBUG env"
  show "NetSerializeProxy env Debug Params st = Inr (NetSerialize env Debug Params st)"
    using on by (simp add: NetSerializeProxy_def)
  show "GetProxyDirtyCount env Debug st = Inr (ProxyDirtyCount env Debug (RepProxies st) (Buffers st))"
    using on by (simp add: GetProxyDirtyCount_def)
qed

lemmas tick_eval =
  Tick_InputProcessing_def Tick_ResetSyncState_def Tick_ProcessInput.simps Tick_UpdateStep_def
  GetHeadKeyframe_def GetTailKeyframe_def FindElementByKeyframe_def GetWriteNext_def
  ResetNextHeadKeyframe_def SetBufferSize_def ModifyElement_def
  GetTotalProcessedSimulationTime_def GetRemainingAllowedSimulationTime_def
  SetTotalProcessedSimulationTime_def IncrementTotalProcessedSimulationTime_def
  InitSimulationTimeBuffer_def WithDebugState_def Let_def
  example_env_def example_F_def example_inputs_def

subsection \<open>The example runs\<close>

lemma example_cold_run:
  "Tick_InputProcessing example_env None (example_cold 2 4) = Inr example_cold_done"
  by (simp add: example_cold_def example_cold_done_def tick_eval)

lemma example_half_run:
  "Tick_InputProcessing example_env None (example_cold 1 2) = Inr example_half"
  by (simp add: example_cold_def example_half_def tick_eval)

lemma example_half_stops:
  "FindElementByKeyframe (LastProcessedInputKeyframe (TickInfo example_half) + 1)
     (Input (Buffers example_half)) = Some (1, 20)
   \<and> GetRemainingAllowedSimulationTime (TickInfo example_half) < GetFrameDeltaTime example_env (1, 20)"
  by (simp add: example_half_def tick_eval)

lemma example_refilled_run:
  "Tick_InputProcessing example_env None example_half_refilled = Inr example_half_done"
  by (simp add: example_half_refilled_def example_half_def example_half_done_def tick_eval)

lemma example_break_run:
  "Tick_InputProcessing example_env None example_break = Inr example_break_done"
  by (simp add: example_break_def example_break_done_def tick_eval)

text \<open>
  Witness for C5: the cold start with budget for two keyframes. \<open>Update\<close> is called for the
  keyframes 1 and 2, which the Input buffer holds, and not for keyframe 3, which it does
  not hold.
\<close>

theorem Tick_consumes_consecutive_keyframes_witness:
  "Tick_InputProcessing example_env None (example_cold 2 4) = Inr example_cold_done
   \<and> update_keyframes (Events (example_cold 2 4)) = []
   \<and> update_keyframes (Events example_cold_done) = [1, 2]
   \<and> LastProcessedInputKeyframe (TickInfo (example_cold 2 4)) = 0
   \<and> LastProcessedInputKeyframe (TickInfo example_cold_done) = 2
   \<and> FindElementByKeyframe 1 (Input (Buffers (example_cold 2 4))) \<noteq> None
   \<and> FindElementByKeyframe 2 (Input (Buffers (example_cold 2 4))) \<noteq> None
   \<and> FindElementByKeyframe 3 (Input (Buffers (example_cold 2 4))) = None"
proof -
  have lp: "LastProcessedInputKeyframe (TickInfo (example_cold 2 4)) = 0"
    and lp': "LastProcessedInputKeyframe (TickInfo example_cold_done) = 2"
    and ev: "update_keyframes (Events (example_cold 2 4)) = []"
    and gap: "FindElementByKeyframe 3 (Input (Buffers (example_cold 2 4))) = None"
    by (simp_all add: example_cold_def example_cold_done_def tick_eval)
  note t = Tick_consumes_consecutive_keyframes [OF example_cold_run]
  have "update_keyframes (Events example_cold_done) = [] @ [0 + 1 .. 2]"
    using t lp lp' ev by simp
  moreover have "[0 + 1 .. 2] = [1, 2::int]" by (simp add: upto_rec1)
  moreover have "FindElementByKeyframe 1 (Input (Buffers (example_cold 2 4))) \<noteq> None"
    and "FindElementByKeyframe 2 (Input (Buffers (example_cold 2 4))) \<noteq> None"
    using t lp lp' by simp_all
  ultimately show ?thesis using example_cold_run lp lp' ev gap by simp
qed

text \<open>
  Witness for C3: the continuity break. One warning is logged, the Sync buffer is seeded
  at keyframe 5 with the driver's state, and keyframe 6 is processed from it.
\<close>

theorem Tick_continuity_break_recovers_witness:
  "GetHeadKeyframe (Sync (Buffers example_break)) < GetHeadKeyframe (Input (Buffers example_break))
   \<and> GetHeadKeyframe (Sync (Buffers example_break)) \<noteq> LastProcessedInputKeyframe (TickInfo example_break)
   \<and> 0 < BufferSize (Sync (Buffers example_break))
   \<and> 0 < BufferSize (SimulationTimeBuffer (TickInfo example_break))
   \<and> Tick_InputProcessing example_env None example_break = Inr example_break_done
   \<and> filter is_warning (Events example_break_done) = [Log_Warning ''sim'' 5 0]
   \<and> Events example_break_done =
        [Log_Warning ''sim'' 5 0, Call_InitSyncState, Call_Update 6 (1 / 1000) (1, 60) 100 0]
   \<and> FindElementByKeyframe 5 (Sync (Buffers example_break_done)) = Some 100"
proof -
  have head: "GetHeadKeyframe (Sync (Buffers example_break)) < GetHeadKeyframe (Input (Buffers example_break))"
    and brk: "GetHeadKeyframe (Sync (Buffers example_break)) \<noteq> LastProcessedInputKeyframe (TickInfo example_break)"
    and sz: "0 < BufferSize (Sync (Buffers example_break))"
    and tz: "0 < BufferSize (SimulationTimeBuffer (TickInfo example_break))"
    by (simp_all add: example_break_def GetHeadKeyframe_def)
  from Tick_continuity_break_recovers [OF head brk sz tz, of example_env None]
  obtain st1 st' where
    enter: "Tick_InputProcessing example_env None example_break = Tick_ProcessInput example_env None st1"
    and loop: "Tick_ProcessInput example_env None st1 = Inr st'"
    and w: "filter is_warning (Events st') = filter is_warning (Events example_break) @
           (if LastProcessedInputKeyframe (TickInfo example_break) \<noteq> 0
            then [Log_Warning (GetDebugName example_env (Driver example_break))
                    (LastProcessedInputKeyframe (TickInfo example_break))
                    (GetHeadKeyframe (Sync (Buffers example_break)))]
            else [])"
    by blast
  have st': "st' = example_break_done" using enter loop example_break_run by simp
  have "filter is_warning (Events example_break_done) = [Log_Warning ''sim'' 5 0]"
    using w st' by (simp add: example_break_def example_env_def GetHeadKeyframe_def)
  moreover have "Events example_break_done =
        [Log_Warning ''sim'' 5 0, Call_InitSyncState, Call_Update 6 (1 / 1000) (1, 60) 100 0]"
    and "FindElementByKeyframe 5 (Sync (Buffers example_break_done)) = Some 100"
    by (simp_all add: example_break_done_def tick_eval)
  ultimately show ?thesis using head brk sz tz example_break_run by simp
qed

text \<open>
  Witness for C6: after the cold start with budget for one keyframe the loop stops before
  keyframe 2 and changes nothing; once the budget is refilled, the section processes
  keyframe 2.
\<close>

theorem Tick_budget_exhausted_stops_and_resumes_witness:
  "FindElementByKeyframe (LastProcessedInputKeyframe (TickInfo example_half) + 1)
     (Input (Buffers example_half)) = Some (1, 20)
   \<and> GetRemainingAllowedSimulationTime (TickInfo example_half) < GetFrameDeltaTime example_env (1, 20)
   \<and> Tick_ProcessInput example_env None example_half = Inr example_half
   \<and> loop_stops example_env example_half
   \<and> SyncAligned example_half_refilled
   \<and> FindElementByKeyframe (LastProcessedInputKeyframe (TickInfo example_half_refilled) + 1)
        (Input (Buffers example_half_refilled)) = Some (1, 20)
   \<and> GetFrameDeltaTime example_env (1, 20) \<le> GetRemainingAllowedSimulationTime (TickInfo example_half_refilled)
   \<and> LastProcessedInputKeyframe (TickInfo example_half_refilled) + 1
        \<le> MaxAllowedInputKeyframe (TickInfo example_half_refilled)
   \<and> Tick_InputProcessing example_env None example_half_refilled = Inr example_half_done
   \<and> LastProcessedInputKeyframe (TickInfo example_half_done) = 2
   \<and> TotalProcessedSimulationTime (TickInfo example_half_done) = 2
   \<and> SyncAligned example_half_done"
proof -
  note stop = example_half_stops
  have s1: "Tick_ProcessInput example_env None example_half = Inr example_half"
    using Tick_budget_exhausted_stops_and_resumes [of example_half "(1, 20)" example_env None example_half]
      stop by blast
  have s2: "loop_stops example_env example_half"
    using Tick_budget_exhausted_stops_and_resumes [of example_half "(1, 20)" example_env None example_half]
      s1 by blast
  have al: "SyncAligned example_half_refilled"
    and found: "FindElementByKeyframe (LastProcessedInputKeyframe (TickInfo example_half_refilled) + 1)
        (Input (Buffers example_half_refilled)) = Some (1, 20)"
    and budget: "GetFrameDeltaTime example_env (1, 20)
        \<le> GetRemainingAllowedSimulationTime (TickInfo example_half_refilled)"
    and le: "LastProcessedInputKeyframe (TickInfo example_half_refilled) + 1
        \<le> MaxAllowedInputKeyframe (TickInfo example_half_refilled)"
    by (simp_all add: example_half_refilled_def example_half_def SyncAligned_def tick_eval)
  from Tick_budget_exhausted_stops_and_resumes
         [of example_half_refilled "(1, 20)" example_env None example_half_refilled] al found budget le
  obtain st2 where r: "Tick_InputProcessing example_env None example_half_refilled = Inr st2"
    and al2: "SyncAligned st2" by blast
  have "st2 = example_half_done" using r example_refilled_run by simp
  then have al2': "SyncAligned example_half_done" using al2 by simp
  have "LastProcessedInputKeyframe (TickInfo example_half_done) = 2"
    and "TotalProcessedSimulationTime (TickInfo example_half_done) = 2"
    by (simp_all add: example_half_done_def)
  then show ?thesis
    using stop s1 s2 al found budget le example_refilled_run al2' by simp
qed

text \<open>
  Witness for C7 as amended: the cold start, where the total goes from the empty sum to
  the sum of the delta times of the keyframes 1 and 2.
\<close>

theorem Tick_total_time_is_sum_of_consumed_deltas_witness:
  "Tick_InputProcessing example_env None (example_cold 2 4) = Inr example_cold_done
   \<and> 0 \<le> LastProcessedInputKeyframe (TickInfo (example_cold 2 4))
   \<and> TotalProcessedSimulationTime (TickInfo (example_cold 2 4)) =
       InputDeltaSum example_env (Input (Buffers (example_cold 2 4))) 1
         (LastProcessedInputKeyframe (TickInfo (example_cold 2 4)))
   \<and> TotalProcessedSimulationTime (TickInfo example_cold_done) =
       InputDeltaSum example_env (Input (Buffers example_cold_done)) 1 2
   \<and> TotalProcessedSimulationTime (TickInfo example_cold_done) = 2"
proof -
  have lp: "LastProcessedInputKeyframe (TickInfo (example_cold 2 4)) = 0"
    and lp': "LastProcessedInputKeyframe (TickInfo example_cold_done) = 2"
    and tot: "TotalProcessedSimulationTime (TickInfo (example_cold 2 4)) = 0"
    and tot': "TotalProcessedSimulationTime (TickInfo example_cold_done) = 2"
    by (simp_all add: example_cold_def example_cold_done_def)
  have before: "TotalProcessedSimulationTime (TickInfo (example_cold 2 4)) =
       InputDeltaSum example_env (Input (Buffers (example_cold 2 4))) 1
         (LastProcessedInputKeyframe (TickInfo (example_cold 2 4)))"
    using lp tot by simp
  have "TotalProcessedSimulationTime (TickInfo example_cold_done) =
       InputDeltaSum example_env (Input (Buffers example_cold_done)) 1
         (LastProcessedInputKeyframe (TickInfo example_cold_done))"
    using Tick_total_time_is_sum_of_consumed_deltas [OF example_cold_run] lp before by simp
  then show ?thesis using example_cold_run lp lp' before tot' by simp
qed

lemma example_initialised:
  "InitializeForNetworkRole example_env ROLE_AutonomousProxy example_init
     (TNetworkedSimulationModel_new 0 ()) = Inr (example_ticked 0)"
  by (simp add: InitializeForNetworkRole_def TNetworkedSimulationModel_new_def example_init_def
      example_ticked_def TSimulationTickState_default_def TNetworkSimBufferContainer_default_def
      TReplicationBuffer_default_def GetLocalDebugBuffer_def GetHistoricBuffers_def tick_eval)

lemmas whole_tick_eval =
  Tick_def Tick_PreviousDebugState_def Tick_CurrentDebugState_def Tick_FinishDebugState_def
  Tick_HistoricRecording_def GetLocalDebugBuffer_def GetNextLocalDebugStateWrite_def
  GetHistoricBuffers_def RoleProxy_def example_PreSimTick_def example_params_def

lemma example_tick_1:
  "Tick example_env example_params 0 (example_ticked 0) = Inr (example_ticked 1)"
  by (simp add: example_ticked_def whole_tick_eval tick_eval upto_rec1)

lemma example_tick_2:
  "Tick example_env example_params 1 (example_ticked 1) = Inr (example_ticked 2)"
  by (simp add: example_ticked_def whole_tick_eval tick_eval upto_rec1)

lemma example_tick_3:
  "Tick example_env example_params 2 (example_ticked 2) = Inr (example_ticked 3)"
  by (simp add: example_ticked_def whole_tick_eval tick_eval upto_rec1)

text \<open>
  Claim C7, as stated, fails once the Input buffer has dropped a keyframe that was
  processed. A new model with buffers of two elements is initialised and ticked three
  times; every tick appends one input command of delta time 1 and processes it. After
  the third tick three keyframes are processed and the total is 3, but the Input buffer
  holds the keyframes 2 and 3 only: the command of keyframe 1 is gone, and the delta
  times that are left in the keyframes 1 to 3 add up to 2.
\<close>

theorem Tick_total_time_not_sum_from_keyframe_1_counterexample:
  "InitializeForNetworkRole example_env ROLE_AutonomousProxy example_init
     (TNetworkedSimulationModel_new 0 ()) = Inr (example_ticked 0)
   \<and> Tick example_env example_params 0 (example_ticked 0) = Inr (example_ticked 1)
   \<and> Tick example_env example_params 1 (example_ticked 1) = Inr (example_ticked 2)
   \<and> Tick example_env example_params 2 (example_ticked 2) = Inr (example_ticked 3)
   \<and> LastProcessedInputKeyframe (TickInfo (example_ticked 3)) = 3
   \<and> TotalProcessedSimulationTime (TickInfo (example_ticked 3)) = 3
   \<and> Input (Buffers (example_ticked 3)) =
        \<lparr>BufferSize = 2, HeadKeyframe = 3, Elements = [(1, 30), (1, 20)]\<rparr>
   \<and> FindElementByKeyframe 1 (Input (Buffers (example_ticked 3))) = None
   \<and> InputDeltaSum example_env (Input (Buffers (example_ticked 3))) 1 3 = 2
   \<and> TotalProcessedSimulationTime (TickInfo (example_ticked 3)) \<noteq>
        InputDeltaSum example_env (Input (Buffers (example_ticked 3))) 1
          (LastProcessedInputKeyframe (TickInfo (example_ticked 3)))"
proof -
  have lp: "LastProcessedInputKeyframe (TickInfo (example_ticked 3)) = 3"
    and tot: "TotalProcessedSimulationTime (TickInfo (example_ticked 3)) = 3"
    and inp: "Input (Buffers (example_ticked 3)) =
        \<lparr>BufferSize = 2, HeadKeyframe = 3, Elements = [(1, 30), (1, 20)]\<rparr>"
    by (simp_all add: example_ticked_def example_inputs_def)
  have gone: "FindElementByKeyframe 1 (Input (Buffers (example_ticked 3))) = None"
    using inp by (simp add: FindElementByKeyframe_def GetTailKeyframe_def)
  have sum: "InputDeltaSum example_env (Input (Buffers (example_ticked 3))) 1 3 = 2"
    using inp
    by (simp add: InputDeltaSum_def FindElementByKeyframe_def GetTailKeyframe_def upto_rec1
        example_env_def)
  show ?thesis
    using example_initialised example_tick_1 example_tick_2 example_tick_3 lp tot inp gone sum
    by simp
qed

text \<open>
  Witness for C8: the two calls of \<open>Update\<close> of the cold start receive the default aux
  state, with an empty Aux buffer and with one that holds the value 7.
\<close>

theorem Tick_update_receives_default_aux_witness:
  "Tick_InputProcessing example_env None (example_cold 2 4) = Inr example_cold_done
   \<and> update_aux_states (Events (example_cold 2 4)) = []
   \<and> update_aux_states (Events example_cold_done) = [TAuxState_default example_env, TAuxState_default example_env]
   \<and> TAuxState_default example_env = 0
   \<and> Tick_InputProcessing example_env None
        (with_Aux \<lparr>BufferSize = 4, HeadKeyframe = 0, Elements = [7]\<rparr> (example_cold 2 4)) =
      Inr (with_Aux \<lparr>BufferSize = 4, HeadKeyframe = 0, Elements = [7]\<rparr> example_cold_done)"
proof -
  let ?a = "\<lparr>BufferSize = 4, HeadKeyframe = 0, Elements = [7::int]\<rparr>"
  note t = Tick_update_receives_default_aux
             [of example_env None "example_cold 2 4" example_cold_done ?a]
  have lp: "LastProcessedInputKeyframe (TickInfo (example_cold 2 4)) = 0"
    and lp': "LastProcessedInputKeyframe (TickInfo example_cold_done) = 2"
    and ev: "update_aux_states (Events (example_cold 2 4)) = []"
    by (simp_all add: example_cold_def example_cold_done_def)
  have "update_aux_states (Events example_cold_done) =
          [] @ replicate (nat (2 - 0)) (TAuxState_default example_env)"
    using t example_cold_run lp lp' ev by simp
  then have aux: "update_aux_states (Events example_cold_done) =
          [TAuxState_default example_env, TAuxState_default example_env]"
    by (simp add: numeral_2_eq_2)
  have "Tick_InputProcessing example_env None (with_Aux ?a (example_cold 2 4)) =
        map_sum id (with_Aux ?a) (Tick_InputProcessing example_env None (example_cold 2 4))"
    using t by blast
  then have ind: "Tick_InputProcessing example_env None (with_Aux ?a (example_cold 2 4)) =
        Inr (with_Aux ?a example_cold_done)"
    using example_cold_run by simp
  have "TAuxState_default example_env = 0" by (simp add: example_env_def)
  then show ?thesis using example_cold_run ev aux ind by simp
qed

text \<open>
  Witness for C9: the example in the build without the debug subsystem, and in the build
  with it.
\<close>

theorem debug_target_unknown_without_debug_build_witness:
  "\<not> NETSIM_MODEL_DEBUG example_env
   \<and> NetSerializeProxy example_env Debug \<lparr>Ar = []\<rparr> (example_cold 2 4)
        = Inl (CheckFailed (Check_UnknownTarget Debug))
   \<and> GetProxyDirtyCount example_env Debug (example_cold 2 4)
        = Inl (CheckFailed (Check_UnknownTarget Debug))
   \<and> GetLocalDebugBuffer example_env (example_cold 2 4) = None
   \<and> GetRemoteDebugBuffer example_env (example_cold 2 4) = None
   \<and> NETSIM_MODEL_DEBUG example_env_debug
   \<and> NetSerializeProxy example_env_debug Debug \<lparr>Ar = []\<rparr> (example_cold 2 4)
        = Inr (\<lparr>Ar = []\<rparr>, example_cold 2 4)
   \<and> GetProxyDirtyCount example_env_debug Debug (example_cold 2 4) = Inr 0"
proof -
  have off: "\<not> NETSIM_MODEL_DEBUG example_env" by (simp add: example_env_def)
  have on: "NETSIM_MODEL_DEBUG example_env_debug" by (simp add: example_env_debug_def)
  note t_off = debug_target_unknown_without_debug_build
                 [of example_env "\<lparr>Ar = []\<rparr>" "example_cold 2 4" "TDebugState_default example_env" False]
  note t_on = debug_target_unknown_without_debug_build
                 [of example_env_debug "\<lparr>Ar = []\<rparr>" "example_cold 2 4" "TDebugState_default example_env" False]
  have a: "NetSerializeProxy example_env Debug \<lparr>Ar = []\<rparr> (example_cold 2 4)
        = Inl (CheckFailed (Check_UnknownTarget Debug))"
    and b: "GetProxyDirtyCount example_env Debug (example_cold 2 4)
        = Inl (CheckFailed (Check_UnknownTarget Debug))"
    and c: "GetLocalDebugBuffer example_env (example_cold 2 4) = None"
    and d: "GetRemoteDebugBuffer example_env (example_cold 2 4) = None"
    using t_off off by blast+
  have e: "NetSerializeProxy example_env_debug Debug \<lparr>Ar = []\<rparr> (example_cold 2 4)
        = Inr (NetSerialize example_env_debug Debug \<lparr>Ar = []\<rparr> (example_cold 2 4))"
    and f: "GetProxyDirtyCount example_env_debug Debug (example_cold 2 4)
        = Inr (ProxyDirtyCount example_env_debug Debug (RepProxies (example_cold 2 4))
                 (Buffers (example_cold 2 4)))"
    using t_on on by blast+
  have "NetSerializeProxy example_env_debug Debug \<lparr>Ar = []\<rparr> (example_cold 2 4)
        = Inr (\<lparr>Ar = []\<rparr>, example_cold 2 4)"
    using e by (simp add: example_env_debug_def example_env_def)
  moreover have "GetProxyDirtyCount example_env_debug Debug (example_cold 2 4) = Inr 0"
    using f by (simp add: example_env_debug_def example_env_def)
  ultimately show ?thesis using off on a b c d by simp
qed

lemma example_inputs_held:
  "inputs_from example_inputs \<lparr>BufferSize = 4, HeadKeyframe = 2, Elements = [(1, 20), (1, 10), (0, 0)]\<rparr>"
proof -
  have "cmd = example_inputs k"
    if f: "FindElementByKeyframe k \<lparr>BufferSize = 4, HeadKeyframe = 2,
             Elements = [(1, 20), (1, 10), (0, 0)]\<rparr> = Some cmd" for k cmd
  proof -
    have "k = 0 \<or> k = 1 \<or> k = 2"
      using f by (auto simp: FindElementByKeyframe_def GetTailKeyframe_def split: if_splits)
    then show ?thesis
      using f by (auto simp: FindElementByKeyframe_def GetTailKeyframe_def example_inputs_def)
  qed
  then show ?thesis unfolding inputs_from_def by blast
qed

lemma example_seeded_run:
  assumes "Tick_InputProcessing example_env None (example_cold budget cap) = Inr st'"
  shows "run_state example_env example_inputs 0 100 st'"
proof -
  let ?st = "example_cold budget cap"
  have brk: "GetHeadKeyframe (Sync (Buffers ?st)) \<noteq> LastProcessedInputKeyframe (TickInfo ?st)"
    by (simp add: example_cold_def GetHeadKeyframe_def)
  from Tick_InputProcessing_cases [OF assms] brk
  obtain st1 where r: "Tick_ResetSyncState example_env ?st = Inr st1"
    and l: "Tick_ProcessInput example_env None st1 = Inr st'"
    by (auto simp: example_cold_def GetHeadKeyframe_def)
  have "run_state example_env example_inputs 0 100 st1"
  proof (rule run_state.seeded [OF r])
    show "LastProcessedInputKeyframe (TickInfo ?st) = 0" by (simp add: example_cold_def)
    show "InitSyncState example_env (Driver ?st) = 100" by (simp add: example_env_def)
    show "inputs_from example_inputs (Input (Buffers ?st))"
      using example_inputs_held by (simp add: example_cold_def)
  qed
  then show ?thesis using l by (rule run_state.looped)
qed

text \<open>
  Witness for C4: two runs of the example from the same seed and input sequence. One has
  budget for both keyframes in its first tick and a Sync buffer of four elements; the
  other has a Sync buffer of two elements and processes one keyframe per tick. Both hold
  the sync state 130 at keyframe 2.
\<close>

theorem Tick_sync_sequence_deterministic_witness:
  "Update_deterministic example_env example_F
   \<and> run_state example_env example_inputs 0 100 example_cold_done
   \<and> run_state example_env example_inputs 0 100 example_half_done
   \<and> Sync (Buffers example_cold_done) = \<lparr>BufferSize = 4, HeadKeyframe = 2, Elements = [130, 110, 100]\<rparr>
   \<and> Sync (Buffers example_half_done) = \<lparr>BufferSize = 2, HeadKeyframe = 2, Elements = [130, 110]\<rparr>
   \<and> FindElementByKeyframe 2 (Sync (Buffers example_cold_done)) = Some 130
   \<and> FindElementByKeyframe 2 (Sync (Buffers example_half_done)) = Some 130
   \<and> sim_trajectory example_env example_F example_inputs 0 100 2 = 130"
proof -
  have det: "Update_deterministic example_env example_F"
    by (simp add: Update_deterministic_def example_env_def)
  have run1: "run_state example_env example_inputs 0 100 example_cold_done"
    using example_cold_run by (rule example_seeded_run)
  have half: "run_state example_env example_inputs 0 100 example_half"
    using example_half_run by (rule example_seeded_run)
  have refilled: "run_state example_env example_inputs 0 100 example_half_refilled"
  proof (rule run_state.other [OF half])
    show "Sync (Buffers example_half_refilled) = Sync (Buffers example_half)"
      by (simp add: example_half_refilled_def)
    show "LastProcessedInputKeyframe (TickInfo example_half_refilled) =
          LastProcessedInputKeyframe (TickInfo example_half)"
      by (simp add: example_half_refilled_def)
    show "0 < BufferSize (SimulationTimeBuffer (TickInfo example_half_refilled))"
      by (simp add: example_half_refilled_def example_half_def)
    show "inputs_from example_inputs (Input (Buffers example_half_refilled))"
      using example_inputs_held by (simp add: example_half_refilled_def example_half_def)
  qed
  have run2: "run_state example_env example_inputs 0 100 example_half_done"
    using refilled example_refilled_run by (rule run_state.ticked)
  have s1: "Sync (Buffers example_cold_done) = \<lparr>BufferSize = 4, HeadKeyframe = 2, Elements = [130, 110, 100]\<rparr>"
    and s2: "Sync (Buffers example_half_done) = \<lparr>BufferSize = 2, HeadKeyframe = 2, Elements = [130, 110]\<rparr>"
    by (simp_all add: example_cold_done_def example_half_done_def)
  have f1: "FindElementByKeyframe 2 (Sync (Buffers example_cold_done)) = Some 130"
    using s1 by (simp add: FindElementByKeyframe_def GetTailKeyframe_def)
  obtain b where f2: "FindElementByKeyframe 2 (Sync (Buffers example_half_done)) = Some b"
    using s2 by (simp add: FindElementByKeyframe_def GetTailKeyframe_def)
  have "(0::int) \<le> 2
          \<and> FindElementByKeyframe 2 (Sync (Buffers example_cold_done)) = Some 130
          \<and> FindElementByKeyframe 2 (Sync (Buffers example_half_done)) = Some b"
    using f1 f2 by simp
  then have "130 = b \<and> 130 = sim_trajectory example_env example_F example_inputs 0 100 (nat (2 - 0))"
    using Tick_sync_sequence_deterministic [OF det run1 run2, rule_format, of 2 130 b] by simp
  then have "FindElementByKeyframe 2 (Sync (Buffers example_half_done)) = Some 130"
    and "sim_trajectory example_env example_F example_inputs 0 100 2 = 130"
    using f2 by simp_all
  then show ?thesis using det run1 run2 s1 s2 f1 by simp
qed

end
